theory Spec2Isabelle
  imports Main "HOL-Library.AList" "HOL-Library.Sublist"
begin

section \<open>Data model of the haste map\<close>

text \<open>
  The index built by \<^verbatim>\<open>packages/jest-haste-map/src/index.js\<close> is a JavaScript object
  with the four tables \<^verbatim>\<open>clocks\<close>, \<^verbatim>\<open>files\<close>, \<^verbatim>\<open>map\<close> and \<^verbatim>\<open>mocks\<close>.
  A JavaScript object is an ordered collection of own properties together with a
  prototype. Own properties are an association list (the order is the order of
  \<^verbatim>\<open>for .. in\<close>, assignment to a new key appends, assignment to an old key keeps its
  place: this is \<open>AList.update\<close>), the prototype is a tag: \<^verbatim>\<open>Object.create(null)\<close> and
  \<^verbatim>\<open>Object.setPrototypeOf(o, null)\<close> give \<open>NullProto\<close>, an object literal and
  \<^verbatim>\<open>JSON.parse\<close> give \<open>ObjectProto\<close>.
\<close>

type_synonym path = string

datatype js_error = JsError (err_name: string) (err_message: string)

datatype proto = NullProto | ObjectProto

record 'v table =
  proto :: proto
  props :: "(string \<times> 'v) list"

definition object_create_null :: "'v table" where
  "object_create_null = \<lparr>proto = NullProto, props = []\<rparr>"

definition setPrototypeOf_null :: "'v table \<Rightarrow> 'v table" where
  "setPrototypeOf_null t = t\<lparr>proto := NullProto\<rparr>"

text \<open>The property names every object with \<^verbatim>\<open>Object.prototype\<close> answers to.\<close>

definition object_prototype_keys :: "string list" where
  "object_prototype_keys =
     [''constructor'', ''toString'', ''toLocaleString'', ''valueOf'', ''hasOwnProperty'',
      ''isPrototypeOf'', ''propertyIsEnumerable'', ''__proto__'', ''__defineGetter__'',
      ''__defineSetter__'', ''__lookupGetter__'', ''__lookupSetter__'']"

definition inherited_keys :: "proto \<Rightarrow> string list" where
  "inherited_keys p = (case p of NullProto \<Rightarrow> [] | ObjectProto \<Rightarrow> object_prototype_keys)"

text \<open>The keys under which \<^verbatim>\<open>t[k]\<close> is not \<^verbatim>\<open>undefined\<close>.\<close>

definition observable_keys :: "'v table \<Rightarrow> string set" where
  "observable_keys t = fst ` set (props t) \<union> set (inherited_keys (proto t))"

text \<open>
  \<^verbatim>\<open>FileMetaData\<close> is the array \<^verbatim>\<open>[id, mtime, visited, dependencies]\<close> (indices \<^verbatim>\<open>H.ID\<close>,
  \<^verbatim>\<open>H.MTIME\<close>, \<^verbatim>\<open>H.VISITED\<close>, \<^verbatim>\<open>H.DEPENDENCIES\<close>); the id of a file that declares no
  module is the empty string, which is falsy. \<^verbatim>\<open>ModuleMetaData\<close> is \<^verbatim>\<open>[path, type]\<close>.
\<close>

record file_meta =
  fm_id :: string
  fm_mtime :: int
  fm_visited :: nat
  fm_dependencies :: "string list"

datatype module_type = MODULE | PACKAGE

record module_meta =
  mm_path :: path
  mm_type :: module_type

text \<open>
  A \<^verbatim>\<open>ModuleMapItem\<close> is an object too: the items the installer makes come from
  \<^verbatim>\<open>Object.create(null)\<close>, the items of a cache come from \<^verbatim>\<open>JSON.parse\<close> and keep
  \<^verbatim>\<open>Object.prototype\<close> (\<^verbatim>\<open>_parse\<close> resets the prototype of the four tables only).
\<close>

type_synonym module_map_item = "module_meta table"

record haste_map =
  clocks :: "string table"
  files :: "file_meta table"
  map_tbl :: "module_map_item table"
  mocks :: "path table"

text \<open>The reply of the metadata worker: \<^verbatim>\<open>callback(error, metadata)\<close>.\<close>

record worker_metadata =
  wm_id :: string
  wm_module :: "module_meta option"
  wm_dependencies :: "string list option"

type_synonym worker_reply = "js_error option \<times> worker_metadata option"

datatype 'a settled = Rejected "js_error option" | Resolved 'a

section \<open>Options, collaborators and the state of an instance\<close>

text \<open>
  \<^verbatim>\<open>InternalOptions\<close>, as the constructor stores them. \<^verbatim>\<open>ignorePattern\<close> is the
  \<^verbatim>\<open>RegExp\<close> of the caller, of which the code calls \<^verbatim>\<open>test\<close>: from the \<^verbatim>\<open>lastIndex\<close> the
  expression has and the string, the result and the \<^verbatim>\<open>lastIndex\<close> the call leaves (an
  expression with the flag \<^verbatim>\<open>g\<close> or \<^verbatim>\<open>y\<close> starts at its \<^verbatim>\<open>lastIndex\<close> and moves it).
  \<^verbatim>\<open>mocksPattern\<close> is made by the constructor without flags, so its \<^verbatim>\<open>test\<close> is a predicate
  of the string.
\<close>

record options =
  cacheDirectory :: string
  extensions :: "string list"
  ignorePattern :: "nat \<Rightarrow> path \<Rightarrow> bool \<times> nat"
  maxWorkers :: int
  mocksPattern :: "(path \<Rightarrow> bool) option"
  name :: string
  platforms :: "string list"
  resetCache :: bool
  retainAllFiles :: bool
  roots :: "string list"
  throwOnModuleCollision :: bool
  useWatchman :: bool

datatype crawler = WatchmanCrawl | NodeCrawl

datatype crawl_outcome =
  CrawlThrows js_error | CrawlRejects js_error | CrawlResolves haste_map

datatype worker_fn = InProcess | Farmed

datatype farm = Farm (maxConcurrentWorkers: int)

datatype event =
  Warn string
  | ReadFile path
  | WriteFile path string
  | CrawlCall crawler "string list" "string list" "path \<Rightarrow> nat \<Rightarrow> bool \<times> nat" haste_map
  | FarmCreate int
  | FarmEnd farm
  | Submit path

text \<open>
  The modules \<^verbatim>\<open>index.js\<close> requires and that are not part of the sources at hand are
  parameters: \<^verbatim>\<open>path.sep\<close> and \<^verbatim>\<open>path.join\<close> of \<^verbatim>\<open>./fastpath\<close>, the MD5 digest of
  \<^verbatim>\<open>crypto\<close> in hexadecimal, \<^verbatim>\<open>os.tmpdir()\<close>, the version of \<^verbatim>\<open>package.json\<close>, whether
  \<^verbatim>\<open>NODE_ENV\<close> is \<^verbatim>\<open>test\<close>, the platform extractor (\<^verbatim>\<open>./lib/getPlatformExtension\<close>,
  \<open>None\<close> for a falsy result), \<^verbatim>\<open>path.basename(p, path.extname(p))\<close> of \<^verbatim>\<open>./fastpath\<close>, the
  metadata worker (\<^verbatim>\<open>./worker\<close>), the order in which the worker's replies arrive, the
  two crawlers, the probe for the watcher, the file system and JSON.

  The regular expressions of JavaScript are parameters as well. \<open>regexp\<close> is
  \<^verbatim>\<open>new RegExp(source)\<close>: the \<^verbatim>\<open>SyntaxError\<close> it throws, or the predicate \<^verbatim>\<open>test\<close> of the
  expression. \<open>regexp_g\<close> is \<^verbatim>\<open>new RegExp(source, 'g')\<close>: the \<^verbatim>\<open>SyntaxError\<close> it throws, or how
  many matches \<^verbatim>\<open>string.match(expression)\<close> collects in a string (none when it returns
  \<^verbatim>\<open>null\<close>).

  A crawler is handed the method \<^verbatim>\<open>_ignore\<close>, bound to the instance; what it returns in
  the run at hand is a function of its arguments.
\<close>

record env =
  sep :: char
  path_join :: "path \<Rightarrow> string \<Rightarrow> path"
  md5_hex :: "string \<Rightarrow> string"
  tmpdir :: path
  VERSION :: string
  regexp :: "string \<Rightarrow> js_error + (path \<Rightarrow> bool)"
  regexp_g :: "string \<Rightarrow> js_error + (path \<Rightarrow> nat)"
  isTest :: bool
  getPlatformExtension :: "path \<Rightarrow> string option"
  basename_stem :: "path \<Rightarrow> string"
  worker :: "path \<Rightarrow> worker_reply"
  completion_order :: "path list \<Rightarrow> path list"
  watchmanCrawl ::
    "string list \<Rightarrow> string list \<Rightarrow> (path \<Rightarrow> nat \<Rightarrow> bool \<times> nat) \<Rightarrow> haste_map \<Rightarrow> crawl_outcome"
  nodeCrawl ::
    "string list \<Rightarrow> string list \<Rightarrow> (path \<Rightarrow> nat \<Rightarrow> bool \<times> nat) \<Rightarrow> haste_map \<Rightarrow> crawl_outcome"
  canUseWatchman :: bool
  readFileSync :: "path \<Rightarrow> js_error + string"
  json_parse :: "string \<Rightarrow> js_error + haste_map"
  json_stringify :: "haste_map \<Rightarrow> string"
  writeFileSync :: "path \<Rightarrow> string \<Rightarrow> js_error option"

text \<open>
  The mutable fields of a \<^verbatim>\<open>HasteMap\<close> instance, and the trace of what it did to the
  console, the file system, the crawlers and the worker farm.
\<close>

record inst =
  hm_options :: options
  cachePath :: path
  whitelist :: "(path \<Rightarrow> nat) option"
  buildPromise :: "nat option"
  workerPromise :: "worker_fn option"
  workerFarm :: "farm option"
  events :: "event list"

section \<open>The module installer\<close>

text \<open>
  Modelled from the spec: \<^verbatim>\<open>H.GENERIC_PLATFORM\<close> of \<^verbatim>\<open>./constants\<close>, which is not among
  the sources; the spec's scenario 2 writes the generic platform \<^verbatim>\<open>g\<close>.
\<close>

definition GENERIC_PLATFORM :: string where
  "GENERIC_PLATFORM = ''g''"

definition newline :: string where
  "newline = [CHR 0x0A]"

definition collision_message :: "bool \<Rightarrow> string \<Rightarrow> path \<Rightarrow> path \<Rightarrow> string" where
  "collision_message throws ident new_path old_path =
     ''jest-haste-map: @providesModule naming collision:'' @ newline @
     ''  Duplicate module name: '' @ ident @ newline @
     ''  Paths: '' @ new_path @ '' collides with '' @
     old_path @ newline @ newline @ ''This '' @
     (if throws then ''error'' else ''warning'') @ '' '' @
     ''is caused by a @providesModule declaration '' @
     ''with the same name across two different files.''"

definition platform_of :: "env \<Rightarrow> path \<Rightarrow> string" where
  "platform_of e p =
     (case getPlatformExtension e p of
        None \<Rightarrow> GENERIC_PLATFORM
      | Some pl \<Rightarrow> if pl = [] then GENERIC_PLATFORM else pl)"

text \<open>
  \<^verbatim>\<open>setModule(id, module)\<close>, the closure of \<^verbatim>\<open>_buildHasteMap\<close>. Its state is the fresh
  \<^verbatim>\<open>map\<close> and the console; a \<^verbatim>\<open>throw\<close> is \<open>Inl\<close>. \<^verbatim>\<open>moduleMap[platform]\<close> is the own
  property of the item, and for an item with \<^verbatim>\<open>Object.prototype\<close> and no such own property
  the member of that name every object inherits: a function or an object, which is truthy
  and whose \<^verbatim>\<open>[H.PATH]\<close> is \<^verbatim>\<open>undefined\<close>, so the installer takes it for a module with
  another path and prints its path as \<^verbatim>\<open>undefined\<close>.
\<close>

definition setModule ::
  "options \<Rightarrow> env \<Rightarrow> string \<Rightarrow> module_meta \<Rightarrow>
   (string \<times> module_map_item) list \<times> event list \<Rightarrow>
   js_error + (string \<times> module_map_item) list \<times> event list" where
  "setModule opts e ident md st =
     (let (m, evs) = st;
          m1 = (case map_of m ident of None \<Rightarrow> m @ [(ident, object_create_null)] | Some _ \<Rightarrow> m);
          moduleMap = (case map_of m1 ident of None \<Rightarrow> object_create_null | Some mm \<Rightarrow> mm);
          platform = platform_of e (mm_path md);
          install =
            Inr (AList.update ident
                   (moduleMap\<lparr>props := AList.update platform md (props moduleMap)\<rparr>) m1, evs);
          collision = (\<lambda>old_path.
            let msg = collision_message (throwOnModuleCollision opts) ident (mm_path md) old_path
            in if throwOnModuleCollision opts then Inl (JsError ''Error'' msg)
               else Inr (m1, evs @ [Warn msg]))
      in case map_of (props moduleMap) platform of
           Some existingModule \<Rightarrow>
             if mm_path existingModule \<noteq> mm_path md then collision (mm_path existingModule)
             else install
         | None \<Rightarrow>
             if platform \<in> set (inherited_keys (proto moduleMap)) then collision ''undefined''
             else install)"

text \<open>The cell \<^verbatim>\<open>map[id][platform]\<close>, an own property of the item.\<close>

definition cell :: "(string \<times> module_map_item) list \<Rightarrow> string \<Rightarrow> string \<Rightarrow> module_meta option" where
  "cell m ident platform =
     (case map_of m ident of None \<Rightarrow> None | Some mm \<Rightarrow> map_of (props mm) platform)"

section \<open>The ignore predicate and the whitelist\<close>

definition NODE_MODULES :: "env \<Rightarrow> string" where
  "NODE_MODULES e = sep e # ''node_modules'' @ [sep e]"

text \<open>
  \<^verbatim>\<open>escapePathSeparator\<close>: where the separator is the backslash, every slash and every
  backslash of the string becomes two backslashes.
\<close>

definition escapePathSeparator :: "env \<Rightarrow> string \<Rightarrow> string" where
  "escapePathSeparator e str =
     (if sep e = CHR 0x5C
      then concat (map (\<lambda>c. if c = CHR ''/'' \<or> c = CHR 0x5C then [CHR 0x5C, CHR 0x5C] else [c]) str)
      else str)"

text \<open>\<^verbatim>\<open>list.join('|')\<close>\<close>

fun join_bar :: "string list \<Rightarrow> string" where
  "join_bar [] = []"
| "join_bar [x] = x"
| "join_bar (x # y # ys) = x @ ''|'' @ join_bar (y # ys)"

text \<open>The source of the expression \<^verbatim>\<open>getWhiteList\<close> compiles; the names go into it as they are.\<close>

definition whitelist_source :: "env \<Rightarrow> string list \<Rightarrow> string" where
  "whitelist_source e list =
     ''('' @ escapePathSeparator e (NODE_MODULES e) @
     ''(?:'' @ join_bar list @ '')(?=$|'' @ escapePathSeparator e [sep e] @ ''))''"

definition getWhiteList :: "env \<Rightarrow> string list option \<Rightarrow> js_error + (path \<Rightarrow> nat) option" where
  "getWhiteList e l =
     (case l of
        None \<Rightarrow> Inr None
      | Some list \<Rightarrow>
          if list \<noteq> [] then
            (case regexp_g e (whitelist_source e list) of
               Inl err \<Rightarrow> Inl err
             | Inr re \<Rightarrow> Inr (Some re))
          else Inr None)"

fun str_includes :: "string \<Rightarrow> string \<Rightarrow> bool" where
  "str_includes [] needle = (needle = [])"
| "str_includes (c # cs) needle = (prefix needle (c # cs) \<or> str_includes cs needle)"

text \<open>
  \<^verbatim>\<open>_isNodeModulesDir\<close>: \<^verbatim>\<open>filePath.match(this._whitelist)\<close> is \<^verbatim>\<open>null\<close> or the array of the
  matches.
\<close>

definition isNodeModulesDir :: "env \<Rightarrow> inst \<Rightarrow> path \<Rightarrow> bool" where
  "isNodeModulesDir e s filePath =
     (if \<not> str_includes filePath (NODE_MODULES e) then False
      else case whitelist s of
             Some re \<Rightarrow> (let n = re filePath in n = 0 \<or> n > 1)
           | None \<Rightarrow> True)"

text \<open>
  \<^verbatim>\<open>_ignore\<close>, given the \<^verbatim>\<open>lastIndex\<close> of \<^verbatim>\<open>ignorePattern\<close> at the call: the result and the
  \<^verbatim>\<open>lastIndex\<close> the call leaves.
\<close>

definition ignore_path :: "env \<Rightarrow> inst \<Rightarrow> path \<Rightarrow> nat \<Rightarrow> bool \<times> nat" where
  "ignore_path e s filePath lastIndex =
     (case ignorePattern (hm_options s) lastIndex filePath of
        (matched, lastIndex') \<Rightarrow>
          (matched \<or> (\<not> retainAllFiles (hm_options s) \<and> isNodeModulesDir e s filePath),
           lastIndex'))"

section \<open>The cache file path and the constructor\<close>

definition word_char :: "char \<Rightarrow> bool" where
  "word_char c =
     (let n = (of_char c :: nat)
      in (97 \<le> n \<and> n \<le> 122) \<or> (65 \<le> n \<and> n \<le> 90) \<or> (48 \<le> n \<and> n \<le> 57) \<or> n = 95)"

text \<open>\<^verbatim>\<open>name.replace(/\W/g, '-')\<close>\<close>

definition replace_nonword :: "string \<Rightarrow> string" where
  "replace_nonword s = map (\<lambda>c. if word_char c then c else CHR ''-'') s"

text \<open>
  \<^verbatim>\<open>hash.update(arg)\<close> appends to the data the digest is taken of; an argument that is
  \<^verbatim>\<open>undefined\<close> is a \<^verbatim>\<open>TypeError\<close>.
\<close>

fun hash_update :: "string option list \<Rightarrow> string \<Rightarrow> js_error + string" where
  "hash_update [] h = Inr h"
| "hash_update (None # args) h = Inl (JsError ''TypeError'' ''Not a string or buffer'')"
| "hash_update (Some a # args) h = hash_update args (h @ a)"

text \<open>
  \<^verbatim>\<open>getCacheFilePath(tmpdir, name, ...)\<close>: the digest is fed
  \<^verbatim>\<open>Array.from(arguments).slice(1)\<close>, that is the name and what follows it.
\<close>

definition getCacheFilePath :: "env \<Rightarrow> path \<Rightarrow> string \<Rightarrow> string option list \<Rightarrow> js_error + path" where
  "getCacheFilePath e dir nm args =
     (case hash_update (Some nm # args) [] of
        Inl err \<Rightarrow> Inl err
      | Inr h \<Rightarrow> Inr (path_join e dir (replace_nonword nm @ ''-'' @ md5_hex e h)))"

text \<open>\<^verbatim>\<open>xs.join(':')\<close>\<close>

fun join_colon :: "string list \<Rightarrow> string" where
  "join_colon [] = []"
| "join_colon [x] = x"
| "join_colon (x # y # ys) = x @ '':'' @ join_colon (y # ys)"

text \<open>The argument of the constructor (the type \<^verbatim>\<open>Options\<close>).\<close>

record user_options =
  u_cacheDirectory :: "string option"
  u_extensions :: "string list"
  u_ignorePattern :: "nat \<Rightarrow> path \<Rightarrow> bool \<times> nat"
  u_maxWorkers :: int
  u_mocksPattern :: "string option"
  u_name :: string
  u_platforms :: "string list"
  u_providesModuleNodeModules :: "string list option"
  u_resetCache :: "bool option"
  u_retainAllFiles :: bool
  u_roots :: "string list"
  u_throwOnModuleCollision :: "bool option"
  u_useWatchman :: "bool option"

text \<open>
  \<^verbatim>\<open>options.mocksPattern ? new RegExp(options.mocksPattern) : null\<close>, which throws for a
  source that is no regular expression.
\<close>

definition compile_mocksPattern :: "env \<Rightarrow> user_options \<Rightarrow> js_error + (path \<Rightarrow> bool) option" where
  "compile_mocksPattern e u =
     (case u_mocksPattern u of
        None \<Rightarrow> Inr None
      | Some p \<Rightarrow>
          if p = [] then Inr None
          else (case regexp e p of Inl err \<Rightarrow> Inl err | Inr re \<Rightarrow> Inr (Some re)))"

text \<open>
  The object \<^verbatim>\<open>this._options\<close> of a constructor call in which \<^verbatim>\<open>new RegExp\<close> does not
  throw; \<open>new_HasteMap\<close> below ends with the exception otherwise.
\<close>

definition internal_options :: "env \<Rightarrow> user_options \<Rightarrow> options" where
  "internal_options e u =
     \<lparr>cacheDirectory =
        (case u_cacheDirectory u of
           None \<Rightarrow> tmpdir e | Some d \<Rightarrow> if d = [] then tmpdir e else d),
      extensions = u_extensions u,
      ignorePattern = u_ignorePattern u,
      maxWorkers = u_maxWorkers u,
      mocksPattern = (case compile_mocksPattern e u of Inl err \<Rightarrow> None | Inr re \<Rightarrow> re),
      name = u_name u,
      platforms = u_platforms u,
      resetCache = (u_resetCache u = Some True),
      retainAllFiles = u_retainAllFiles u,
      roots = u_roots u,
      throwOnModuleCollision = (u_throwOnModuleCollision u = Some True),
      useWatchman = (case u_useWatchman u of None \<Rightarrow> True | Some b \<Rightarrow> b)\<rparr>"

definition constructor_cachePath :: "env \<Rightarrow> user_options \<Rightarrow> js_error + path" where
  "constructor_cachePath e u =
     (let opts = internal_options e u
      in getCacheFilePath e (cacheDirectory opts) (name opts)
           [Some (VERSION e), Some (join_colon (roots opts)),
            Some (join_colon (extensions opts)), Some (join_colon (platforms opts)),
            u_mocksPattern u])"

text \<open>
  The constructor, in the order of its statements: the options (with the mocks pattern
  compiled), the cache path, the whitelist. Each of the three can throw.
\<close>

definition new_HasteMap :: "env \<Rightarrow> user_options \<Rightarrow> js_error + inst" where
  "new_HasteMap e u =
     (case compile_mocksPattern e u of
        Inl err \<Rightarrow> Inl err
      | Inr re \<Rightarrow>
          (case constructor_cachePath e u of
             Inl err \<Rightarrow> Inl err
           | Inr p \<Rightarrow>
               (case getWhiteList e (u_providesModuleNodeModules u) of
                  Inl err \<Rightarrow> Inl err
                | Inr wl \<Rightarrow>
                    Inr \<lparr>hm_options = internal_options e u,
                         cachePath = p,
                         whitelist = wl,
                         buildPromise = None,
                         workerPromise = None,
                         workerFarm = None,
                         events = []\<rparr>)))"

section \<open>Stage 1: the cache loader\<close>

definition createEmptyMap :: haste_map where
  "createEmptyMap =
     \<lparr>clocks = object_create_null,
      files = object_create_null,
      map_tbl = object_create_null,
      mocks = object_create_null\<rparr>"

text \<open>
  \<^verbatim>\<open>_parse\<close>: \<^verbatim>\<open>JSON.parse\<close>, then \<^verbatim>\<open>Object.setPrototypeOf(hasteMap[key], null)\<close> for every
  key of the result.
\<close>

definition parse_hm :: "env \<Rightarrow> string \<Rightarrow> js_error + haste_map" where
  "parse_hm e content =
     (case json_parse e content of
        Inl err \<Rightarrow> Inl err
      | Inr h \<Rightarrow>
          Inr \<lparr>clocks = setPrototypeOf_null (clocks h),
               files = setPrototypeOf_null (files h),
               map_tbl = setPrototypeOf_null (map_tbl h),
               mocks = setPrototypeOf_null (mocks h)\<rparr>)"

text \<open>\<^verbatim>\<open>read()\<close>: \<^verbatim>\<open>this._parse(fs.readFileSync(this._cachePath, 'utf8'))\<close>\<close>

definition read_hm :: "env \<Rightarrow> inst \<Rightarrow> (js_error + haste_map) \<times> inst" where
  "read_hm e s =
     (let s1 = s\<lparr>events := events s @ [ReadFile (cachePath s)]\<rparr>
      in case readFileSync e (cachePath s) of
           Inl err \<Rightarrow> (Inl err, s1)
         | Inr content \<Rightarrow> (parse_hm e content, s1))"

text \<open>
  The first two links of the chain of \<^verbatim>\<open>_buildFileMap\<close>:
  \<^verbatim>\<open>.then(() => read.call(this)).catch(() => this._createEmptyMap())\<close>, where \<^verbatim>\<open>read\<close>
  is \<^verbatim>\<open>_createEmptyMap\<close> when \<^verbatim>\<open>resetCache\<close> is set.
\<close>

definition load_cache :: "env \<Rightarrow> inst \<Rightarrow> haste_map \<times> inst" where
  "load_cache e s =
     (if resetCache (hm_options s) then (createEmptyMap, s)
      else case read_hm e s of
             (Inl err, s1) \<Rightarrow> (createEmptyMap, s1)
           | (Inr h, s1) \<Rightarrow> (h, s1))"

section \<open>Stage 2: the crawler dispatch\<close>

text \<open>\<^verbatim>\<open>'' + error\<close> for an \<^verbatim>\<open>Error\<close> object.\<close>

definition error_to_string :: "js_error \<Rightarrow> string" where
  "error_to_string err =
     (if err_name err = [] then err_message err
      else if err_message err = [] then err_name err
      else err_name err @ '': '' @ err_message err)"

definition watchman_warning :: "js_error \<Rightarrow> string" where
  "watchman_warning err =
     ''jest-haste-map: Watchman crawl failed. Retrying once with node '' @
     ''crawler.'' @ newline @
     ''  Usually this happens when watchman isn't running. Create an '' @
     ''empty `.watchmanconfig` file in your project's root folder or '' @
     ''initialize a git or hg repository in your project.'' @ newline @
     ''  '' @ error_to_string err"

definition retry_message :: "js_error \<Rightarrow> js_error \<Rightarrow> string" where
  "retry_message err e2 =
     ''Crawler retry failed:'' @ newline @
     ''  Original error: '' @ err_message err @ newline @
     ''  Retry error: '' @ err_message e2 @ newline"

definition run_crawler ::
  "env \<Rightarrow> crawler \<Rightarrow> string list \<Rightarrow> string list \<Rightarrow> (path \<Rightarrow> nat \<Rightarrow> bool \<times> nat) \<Rightarrow>
   haste_map \<Rightarrow> crawl_outcome" where
  "run_crawler e c rs exts ign h =
     (case c of
        WatchmanCrawl \<Rightarrow> watchmanCrawl e rs exts ign h
      | NodeCrawl \<Rightarrow> nodeCrawl e rs exts ign h)"

text \<open>
  The closure \<^verbatim>\<open>retry\<close> of \<^verbatim>\<open>_crawl\<close>. An exception that leaves \<^verbatim>\<open>_crawl\<close> rejects the
  promise of the \<^verbatim>\<open>then\<close> that called it, so a rejection and an exception are both
  \<open>Inl\<close>.
\<close>

definition retry ::
  "env \<Rightarrow> inst \<Rightarrow> crawler \<Rightarrow> (path \<Rightarrow> nat \<Rightarrow> bool \<times> nat) \<Rightarrow> haste_map \<Rightarrow> js_error \<Rightarrow>
   (js_error + haste_map) \<times> inst" where
  "retry e s crawl ign h err =
     (if crawl = WatchmanCrawl then
        (let opts = hm_options s;
             s1 = s\<lparr>events := events s @
                    [Warn (watchman_warning err),
                     CrawlCall NodeCrawl (roots opts) (extensions opts) ign h]\<rparr>
         in case nodeCrawl e (roots opts) (extensions opts) ign h of
              CrawlThrows e2 \<Rightarrow> (Inl e2, s1)
            | CrawlRejects e2 \<Rightarrow> (Inl (JsError ''Error'' (retry_message err e2)), s1)
            | CrawlResolves h2 \<Rightarrow> (Inr h2, s1))
      else (Inl err, s))"

definition select_crawler :: "env \<Rightarrow> inst \<Rightarrow> crawler" where
  "select_crawler e s =
     (if canUseWatchman e \<and> useWatchman (hm_options s) then WatchmanCrawl else NodeCrawl)"

definition crawl_hm :: "env \<Rightarrow> inst \<Rightarrow> haste_map \<Rightarrow> (js_error + haste_map) \<times> inst" where
  "crawl_hm e s h =
     (let opts = hm_options s;
          ign = ignore_path e s;
          crawl = select_crawler e s;
          s1 = s\<lparr>events := events s @
                 [CrawlCall crawl (roots opts) (extensions opts) ign h]\<rparr>
      in case run_crawler e crawl (roots opts) (extensions opts) ign h of
           CrawlThrows err \<Rightarrow> retry e s1 crawl ign h err
         | CrawlRejects err \<Rightarrow> retry e s1 crawl ign h err
         | CrawlResolves h2 \<Rightarrow> (Inr h2, s1))"

definition buildFileMap :: "env \<Rightarrow> inst \<Rightarrow> (js_error + haste_map) \<times> inst" where
  "buildFileMap e s = (case load_cache e s of (h, s1) \<Rightarrow> crawl_hm e s1 h)"

section \<open>Stage 3: the metadata builder\<close>

text \<open>
  \<^verbatim>\<open>_getWorker()\<close>: the worker function is made once; with more than one worker it is
  a farm of \<^verbatim>\<open>worker-farm\<close>, which is created here.
\<close>

definition getWorker :: "inst \<Rightarrow> inst" where
  "getWorker s =
     (case workerPromise s of
        Some w \<Rightarrow> s
      | None \<Rightarrow>
          if maxWorkers (hm_options s) \<le> 1 then s\<lparr>workerPromise := Some InProcess\<rparr>
          else s\<lparr>workerFarm := Some (Farm (maxWorkers (hm_options s))),
                 workerPromise := Some Farmed,
                 events := events s @ [FarmCreate (maxWorkers (hm_options s))]\<rparr>)"

text \<open>
  The promise \<^verbatim>\<open>_workerPromise\<close> makes of a reply:
  \<^verbatim>\<open>if (error || !metadata) reject(error) else resolve(metadata)\<close>.
\<close>

definition worker_promise :: "env \<Rightarrow> path \<Rightarrow> worker_metadata settled" where
  "worker_promise e filePath =
     (case worker e filePath of
        (None, Some metadata) \<Rightarrow> Resolved metadata
      | (err, _) \<Rightarrow> Rejected err)"

text \<open>
  The state of \<^verbatim>\<open>_buildHasteMap\<close>: the own properties of \<^verbatim>\<open>hasteMap.files\<close>, the fresh
  \<^verbatim>\<open>map\<close> and \<^verbatim>\<open>mocks\<close>, the paths handed to the worker (one promise each, in the order
  of \<^verbatim>\<open>promises\<close>) and the instance.
\<close>

record build_state =
  bs_files :: "(path \<times> file_meta) list"
  bs_map :: "(string \<times> module_map_item) list"
  bs_mocks :: "(string \<times> path) list"
  bs_jobs :: "path list"
  bs_inst :: inst

text \<open>
  The body of \<^verbatim>\<open>for (const filePath in hasteMap.files)\<close>. \<open>old_map\<close> is the own
  properties of \<^verbatim>\<open>hasteMap.map\<close>, the map of the cache. The callbacks of the promise
  run after the loop, so the body only hands the path to the worker. The item the loop
  copies is the object of the cached map itself, and the installer later assigns into it;
  the cached map is read in the loop only and replaced when the stage ends, so the
  sharing is not observable and the item is copied as a value, with its prototype.
  \<^verbatim>\<open>hasteMap.map\<close> is the table the loader made, which has no prototype, so
  \<^verbatim>\<open>hasteMap.map[id]\<close> is an own property or \<^verbatim>\<open>undefined\<close>.
\<close>

definition visit_file ::
  "env \<Rightarrow> (string \<times> module_map_item) list \<Rightarrow> path \<times> file_meta \<Rightarrow> build_state \<Rightarrow> build_state" where
  "visit_file e old_map entry st =
     (let filePath = fst entry;
          fileMetadata = snd entry;
          s = bs_inst st
      in if retainAllFiles (hm_options s) \<and> isNodeModulesDir e s filePath then st
         else
           (let st1 =
                  (case mocksPattern (hm_options s) of
                     None \<Rightarrow> st
                   | Some re \<Rightarrow>
                       if re filePath
                       then st\<lparr>bs_mocks :=
                                 AList.update (basename_stem e filePath) filePath (bs_mocks st)\<rparr>
                       else st);
                moduleMetadata = map_of old_map (fm_id fileMetadata);
                submit =
                  st1\<lparr>bs_jobs := bs_jobs st1 @ [filePath],
                      bs_inst := (getWorker s)\<lparr>events := events (getWorker s) @ [Submit filePath]\<rparr>\<rparr>
            in if fm_visited fileMetadata \<noteq> 0 then
                 (if fm_id fileMetadata = [] then st1
                  else case moduleMetadata of
                         Some item \<Rightarrow>
                           st1\<lparr>bs_map := AList.update (fm_id fileMetadata) item (bs_map st1)\<rparr>
                       | None \<Rightarrow> submit)
               else submit))"

text \<open>The callback of a fulfilled worker promise.\<close>

definition onFulfilled :: "env \<Rightarrow> path \<Rightarrow> worker_metadata \<Rightarrow> build_state \<Rightarrow> js_error + build_state" where
  "onFulfilled e filePath metadata st =
     (let fs1 = AList.map_entry filePath (\<lambda>fm. fm\<lparr>fm_visited := 1\<rparr>) (bs_files st);
          deps = (case wm_dependencies metadata of None \<Rightarrow> [] | Some ds \<Rightarrow> ds)
      in case wm_module metadata of
           None \<Rightarrow>
             Inr (st\<lparr>bs_files :=
                       AList.map_entry filePath (\<lambda>fm. fm\<lparr>fm_dependencies := deps\<rparr>) fs1\<rparr>)
         | Some metadataModule \<Rightarrow>
             if wm_id metadata = [] then
               Inr (st\<lparr>bs_files :=
                         AList.map_entry filePath (\<lambda>fm. fm\<lparr>fm_dependencies := deps\<rparr>) fs1\<rparr>)
             else
               (let fs2 = AList.map_entry filePath (\<lambda>fm. fm\<lparr>fm_id := wm_id metadata\<rparr>) fs1
                in case setModule (hm_options (bs_inst st)) e (wm_id metadata) metadataModule
                          (bs_map st, events (bs_inst st)) of
                     Inl err \<Rightarrow> Inl err
                   | Inr (m, evs) \<Rightarrow>
                       Inr (st\<lparr>bs_files :=
                                 AList.map_entry filePath (\<lambda>fm. fm\<lparr>fm_dependencies := deps\<rparr>) fs2,
                               bs_map := m,
                               bs_inst := (bs_inst st)\<lparr>events := evs\<rparr>\<rparr>)))"

text \<open>The callback of a rejected worker promise.\<close>

definition onRejected :: "path \<Rightarrow> build_state \<Rightarrow> build_state" where
  "onRejected filePath st = st\<lparr>bs_files := AList.delete filePath (bs_files st)\<rparr>"

text \<open>
  The callbacks run one at a time, in the order in which the replies arrive. The first
  exception rejects \<^verbatim>\<open>Promise.all(promises)\<close>; it is returned with the state it left.
\<close>

fun run_callbacks :: "env \<Rightarrow> path list \<Rightarrow> build_state \<Rightarrow> js_error option \<times> build_state" where
  "run_callbacks e [] st = (None, st)"
| "run_callbacks e (filePath # ps) st =
     (case worker_promise e filePath of
        Rejected err \<Rightarrow> run_callbacks e ps (onRejected filePath st)
      | Resolved metadata \<Rightarrow>
          (case onFulfilled e filePath metadata st of
             Inl err \<Rightarrow> (Some err, st)
           | Inr st1 \<Rightarrow> run_callbacks e ps st1))"

text \<open>The first \<^verbatim>\<open>then\<close> behind \<^verbatim>\<open>Promise.all(promises)\<close>.\<close>

definition teardown :: "inst \<Rightarrow> inst" where
  "teardown s =
     (let s1 = (case workerFarm s of
                  Some f \<Rightarrow> s\<lparr>events := events s @ [FarmEnd f]\<rparr>
                | None \<Rightarrow> s)
      in s1\<lparr>workerFarm := None, workerPromise := None\<rparr>)"

definition scan_files :: "env \<Rightarrow> haste_map \<Rightarrow> inst \<Rightarrow> build_state" where
  "scan_files e h s =
     fold (visit_file e (props (map_tbl h))) (props (files h))
       \<lparr>bs_files = props (files h), bs_map = [], bs_mocks = [], bs_jobs = [], bs_inst = s\<rparr>"

definition buildHasteMap :: "env \<Rightarrow> haste_map \<Rightarrow> inst \<Rightarrow> (js_error + haste_map) \<times> inst" where
  "buildHasteMap e h s =
     (let st = scan_files e h s
      in case run_callbacks e (completion_order e (bs_jobs st)) st of
           (Some err, st1) \<Rightarrow> (Inl err, bs_inst st1)
         | (None, st1) \<Rightarrow>
             (Inr (h\<lparr>files := (files h)\<lparr>props := bs_files st1\<rparr>,
                     map_tbl := \<lparr>proto = NullProto, props = bs_map st1\<rparr>,
                     mocks := \<lparr>proto = NullProto, props = bs_mocks st1\<rparr>\<rparr>),
              teardown (bs_inst st1)))"

section \<open>Stage 4 and the shared build promise\<close>

definition persist :: "env \<Rightarrow> haste_map \<Rightarrow> inst \<Rightarrow> (js_error + haste_map) \<times> inst" where
  "persist e h s =
     (let s1 = s\<lparr>events := events s @ [WriteFile (cachePath s) (json_stringify e h)]\<rparr>
      in case writeFileSync e (cachePath s) (json_stringify e h) of
           Some err \<Rightarrow> (Inl err, s1)
         | None \<Rightarrow> (Inr h, s1))"

text \<open>What the build promise is fulfilled with.\<close>

record published =
  hasteFS :: "file_meta table"
  moduleMap_map :: "module_map_item table"
  moduleMap_mocks :: "path table"
  hasteMapForTest :: "haste_map option"

definition publish :: "env \<Rightarrow> haste_map \<Rightarrow> published" where
  "publish e h =
     \<lparr>hasteFS = files h,
      moduleMap_map = map_tbl h,
      moduleMap_mocks = mocks h,
      hasteMapForTest = (if isTest e then Some h else None)\<rparr>"

text \<open>The chain of promises \<^verbatim>\<open>build()\<close> makes, run to its end.\<close>

definition pipeline :: "env \<Rightarrow> inst \<Rightarrow> (js_error + published) \<times> inst" where
  "pipeline e s =
     (case buildFileMap e s of
        (Inl err, s1) \<Rightarrow> (Inl err, s1)
      | (Inr fileMap, s1) \<Rightarrow>
          (case buildHasteMap e fileMap s1 of
             (Inl err, s2) \<Rightarrow> (Inl err, s2)
           | (Inr internalHasteMap, s2) \<Rightarrow>
               (case persist e internalHasteMap s2 of
                  (Inl err, s3) \<Rightarrow> (Inl err, s3)
                | (Inr h, s3) \<Rightarrow> (Inr (publish e h), s3))))"

text \<open>
  A session is an instance together with the promises of the program: how many pipelines
  were started (each start makes a new promise, named by its number) and what the
  settled ones were settled with. \<open>build\<close> is the method; \<open>settle\<close> is the event loop
  running the pending pipeline of the build promise to its end.
\<close>

record session =
  the_inst :: inst
  started :: nat
  outcomes :: "(nat \<times> (js_error + published)) list"

definition build :: "session \<Rightarrow> nat \<times> session" where
  "build w =
     (case buildPromise (the_inst w) of
        None \<Rightarrow>
          (started w,
           w\<lparr>the_inst := (the_inst w)\<lparr>buildPromise := Some (started w)\<rparr>,
             started := Suc (started w)\<rparr>)
      | Some p \<Rightarrow> (p, w))"

definition settle :: "env \<Rightarrow> session \<Rightarrow> session" where
  "settle e w =
     (case buildPromise (the_inst w) of
        None \<Rightarrow> w
      | Some p \<Rightarrow>
          (case map_of (outcomes w) p of
             Some r \<Rightarrow> w
           | None \<Rightarrow>
               (case pipeline e (the_inst w) of
                  (r, s1) \<Rightarrow> w\<lparr>the_inst := s1, outcomes := outcomes w @ [(p, r)]\<rparr>)))"

datatype step = CallBuild | RunEventLoop

fun run_steps :: "env \<Rightarrow> step list \<Rightarrow> session \<Rightarrow> nat list \<times> session" where
  "run_steps e [] w = ([], w)"
| "run_steps e (CallBuild # ks) w =
     (case build w of (p, w1) \<Rightarrow>
        (case run_steps e ks w1 of (ps, w2) \<Rightarrow> (p # ps, w2)))"
| "run_steps e (RunEventLoop # ks) w = run_steps e ks (settle e w)"

definition new_session :: "inst \<Rightarrow> session" where
  "new_session s = \<lparr>the_inst = s, started = 0, outcomes = []\<rparr>"

section \<open>The cells a build writes\<close>

text \<open>
  A build writes the cell \<^verbatim>\<open>map[id][platform]\<close> in two places. The loop assigns
  \<^verbatim>\<open>map[id] = hasteMap.map[id]\<close> for a visited file that has an id and whose id is in
  the cached map: \<open>copied_cells\<close> lists the cells of the items so copied, as the triple
  of id, platform and path. The callback of a worker promise calls the installer:
  \<open>installed_cells\<close> lists, for the paths handed to the worker, the id, the platform and
  the path of the module of each call.
\<close>

definition copied_cells :: "env \<Rightarrow> haste_map \<Rightarrow> inst \<Rightarrow> (string \<times> string \<times> path) list" where
  "copied_cells e h s =
     concat (map (\<lambda>entry.
        if retainAllFiles (hm_options s) \<and> isNodeModulesDir e s (fst entry) then []
        else if fm_visited (snd entry) \<noteq> 0 \<and> fm_id (snd entry) \<noteq> [] then
          (case map_of (props (map_tbl h)) (fm_id (snd entry)) of
             None \<Rightarrow> []
           | Some item \<Rightarrow>
               map (\<lambda>c. (fm_id (snd entry), fst c, mm_path (snd c)))
                 (filter (\<lambda>c. map_of (props item) (fst c) = Some (snd c)) (props item)))
        else []) (props (files h)))"

definition installed_cells :: "env \<Rightarrow> path list \<Rightarrow> (string \<times> string \<times> path) list" where
  "installed_cells e ps =
     concat (map (\<lambda>p.
        case worker_promise e p of
          Rejected err \<Rightarrow> []
        | Resolved metadata \<Rightarrow>
            (case wm_module metadata of
               None \<Rightarrow> []
             | Some md \<Rightarrow>
                 if wm_id metadata = [] then []
                 else [(wm_id metadata, platform_of e (mm_path md), mm_path md)])) ps)"

definition built_cells :: "env \<Rightarrow> haste_map \<Rightarrow> inst \<Rightarrow> (string \<times> string \<times> path) list" where
  "built_cells e h s =
     copied_cells e h s @
     installed_cells e (completion_order e (bs_jobs (scan_files e h s)))"

text \<open>Every item of the fresh map is the item of the cached map under the same id.\<close>

definition within :: "(string \<times> module_map_item) list \<Rightarrow> (string \<times> module_map_item) list \<Rightarrow> bool" where
  "within m old \<longleftrightarrow> (\<forall>i item. map_of m i = Some item \<longrightarrow> map_of old i = Some item)"

section \<open>The whitelist expression, its names read literally\<close>

text \<open>
  The expression of the whitelist is \<^verbatim>\<open>(/node_modules/(?:n1|n2|...)(?=$|/))\<close>. For names
  that hold no character with a meaning in a regular expression, the expression matches
  where \<^verbatim>\<open>/node_modules/\<close> is followed by one of the names and then by the end of the
  string or by a separator. The three functions below count these matches; they are what
  the regular expressions of the examples do, and what the expression of a whitelist is
  compared with. \<open>nm\<close> is the string \<^verbatim>\<open>/node_modules/\<close> and \<open>sp\<close> the separator.

  The first alternative that matches at the head of \<open>rest\<close> and is followed by the end
  of the string or by a separator (the lookahead).
\<close>

fun first_name :: "char \<Rightarrow> string list \<Rightarrow> string \<Rightarrow> string option" where
  "first_name sp [] rest = None"
| "first_name sp (n # ns) rest =
     (if prefix n rest \<and> (case drop (length n) rest of [] \<Rightarrow> True | c # _ \<Rightarrow> c = sp)
      then Some n else first_name sp ns rest)"

text \<open>The length of the match at the head of the string, if any.\<close>

definition match_at :: "string \<Rightarrow> char \<Rightarrow> string list \<Rightarrow> string \<Rightarrow> nat option" where
  "match_at nm sp names s =
     (if prefix nm s then
        (case first_name sp names (drop (length nm) s) of
           None \<Rightarrow> None
         | Some n \<Rightarrow> Some (length nm + length n))
      else None)"

text \<open>
  The matches from left to right, as the flag \<^verbatim>\<open>g\<close> has it: the search goes on behind each
  match.
\<close>

fun match_count :: "string \<Rightarrow> char \<Rightarrow> string list \<Rightarrow> string \<Rightarrow> nat" where
  "match_count nm sp names [] = 0"
| "match_count nm sp names (c # cs) =
     (case match_at nm sp names (c # cs) of
        None \<Rightarrow> match_count nm sp names cs
      | Some k \<Rightarrow> Suc (match_count nm sp names (drop (k - 1) cs)))"

section \<open>Example runs\<close>

text \<open>
  A small project for the concrete runs below. The collaborators are tables: the
  platform extractor knows \<^verbatim>\<open>/src/P.ios.js\<close> and \<^verbatim>\<open>/src/P.android.js\<close>; the worker finds
  the module \<^verbatim>\<open>X\<close> both in \<^verbatim>\<open>/src/a.js\<close> and in \<^verbatim>\<open>/src/b.js\<close>, cannot read
  \<^verbatim>\<open>/src/__mocks__/m.js\<close> and finds no module elsewhere; replies arrive in the order of
  submission; the digest is the identity (no digest tells more data apart); an
  expression without flags finds its source as a substring, and the one expression with
  the flag \<^verbatim>\<open>g\<close> is the whitelist of the packages \<^verbatim>\<open>react\<close> and \<^verbatim>\<open>fbjs\<close>.
\<close>

definition module_a :: module_meta where
  "module_a = \<lparr>mm_path = ''/src/a.js'', mm_type = MODULE\<rparr>"

definition module_b :: module_meta where
  "module_b = \<lparr>mm_path = ''/src/b.js'', mm_type = MODULE\<rparr>"

definition module_ios :: module_meta where
  "module_ios = \<lparr>mm_path = ''/src/P.ios.js'', mm_type = MODULE\<rparr>"

definition module_android :: module_meta where
  "module_android = \<lparr>mm_path = ''/src/P.android.js'', mm_type = MODULE\<rparr>"

definition ex_worker :: "path \<Rightarrow> worker_reply" where
  "ex_worker p =
     (if p = ''/src/a.js'' then
        (None, Some \<lparr>wm_id = ''X'', wm_module = Some module_a, wm_dependencies = Some []\<rparr>)
      else if p = ''/src/b.js'' then
        (None, Some \<lparr>wm_id = ''X'', wm_module = Some module_b, wm_dependencies = Some []\<rparr>)
      else if p = ''/src/__mocks__/m.js'' then
        (Some (JsError ''Error'' ''ENOENT''), None)
      else (None, Some \<lparr>wm_id = [], wm_module = None, wm_dependencies = None\<rparr>))"

definition ex_platform :: "path \<Rightarrow> string option" where
  "ex_platform p =
     (if p = ''/src/P.ios.js'' then Some ''ios''
      else if p = ''/src/P.android.js'' then Some ''android''
      else None)"

definition ex_stem :: "path \<Rightarrow> string" where
  "ex_stem p = (if p = ''/src/__mocks__/m.js'' then ''m'' else p)"

definition ex_regexp_g :: "string \<Rightarrow> js_error + (path \<Rightarrow> nat)" where
  "ex_regexp_g src =
     (if src = ''(/node_modules/(?:react|fbjs)(?=$|/))''
      then Inr (match_count ''/node_modules/'' CHR ''/'' [''react'', ''fbjs''])
      else Inr (\<lambda>p. 0))"

definition ex_env :: env where
  "ex_env =
     \<lparr>sep = CHR ''/'',
      path_join = (\<lambda>d f. d @ ''/'' @ f),
      md5_hex = (\<lambda>d. d),
      tmpdir = ''/tmp'',
      VERSION = ''18.0.0'',
      regexp = (\<lambda>src. Inr (\<lambda>p. str_includes p src)),
      regexp_g = ex_regexp_g,
      isTest = False,
      getPlatformExtension = ex_platform,
      basename_stem = ex_stem,
      worker = ex_worker,
      completion_order = (\<lambda>ps. ps),
      watchmanCrawl = (\<lambda>rs exts ign h. CrawlRejects (JsError ''Error'' ''watchman is not running'')),
      nodeCrawl = (\<lambda>rs exts ign h. CrawlResolves h),
      canUseWatchman = False,
      readFileSync = (\<lambda>p. Inl (JsError ''Error'' ''ENOENT'')),
      json_parse = (\<lambda>c. Inl (JsError ''SyntaxError'' ''Unexpected end of input'')),
      json_stringify = (\<lambda>h. ''{}''),
      writeFileSync = (\<lambda>p c. None)\<rparr>"

definition ex_options :: options where
  "ex_options =
     \<lparr>cacheDirectory = ''/tmp'',
      extensions = [''js''],
      ignorePattern = (\<lambda>lastIndex p. (False, lastIndex)),
      maxWorkers = 1,
      mocksPattern = None,
      name = ''jest'',
      platforms = [''ios'', ''android''],
      resetCache = False,
      retainAllFiles = False,
      roots = [''/src''],
      throwOnModuleCollision = True,
      useWatchman = True\<rparr>"

definition ex_inst :: inst where
  "ex_inst =
     \<lparr>hm_options = ex_options,
      cachePath = ''/tmp/jest-cache'',
      whitelist = None,
      buildPromise = None,
      workerPromise = None,
      workerFarm = None,
      events = []\<rparr>"

definition new_file :: file_meta where
  "new_file = \<lparr>fm_id = [], fm_mtime = 0, fm_visited = 0, fm_dependencies = []\<rparr>"

definition seen_P :: file_meta where
  "seen_P = \<lparr>fm_id = ''P'', fm_mtime = 7, fm_visited = 1, fm_dependencies = []\<rparr>"

text \<open>
  The cache of a project with the two platform files of the module \<^verbatim>\<open>P\<close>, as
  \<^verbatim>\<open>JSON.parse\<close> gives it: every object has \<^verbatim>\<open>Object.prototype\<close>.
\<close>

definition item_P :: module_map_item where
  "item_P = \<lparr>proto = ObjectProto, props = [(''ios'', module_ios), (''android'', module_android)]\<rparr>"

definition item_X :: module_map_item where
  "item_X = \<lparr>proto = NullProto, props = [(''g'', module_a)]\<rparr>"

definition item_X_parsed :: module_map_item where
  "item_X_parsed = \<lparr>proto = ObjectProto, props = [(''g'', module_a)]\<rparr>"

definition cached_P :: haste_map where
  "cached_P =
     \<lparr>clocks = \<lparr>proto = ObjectProto, props = []\<rparr>,
      files = \<lparr>proto = ObjectProto,
               props = [(''/src/P.ios.js'', seen_P), (''/src/P.android.js'', seen_P)]\<rparr>,
      map_tbl = \<lparr>proto = ObjectProto, props = [(''P'', item_P)]\<rparr>,
      mocks = \<lparr>proto = ObjectProto, props = []\<rparr>\<rparr>"

text \<open>
  The project of the first run: the cache is there, and the crawler finds the two
  files of the cache and the new file \<^verbatim>\<open>/src/a.js\<close>.
\<close>

definition env_one :: env where
  "env_one =
     ex_env\<lparr>readFileSync := (\<lambda>p. Inr ''cache''),
            json_parse := (\<lambda>c. Inr cached_P),
            nodeCrawl := (\<lambda>rs exts ign h.
              CrawlResolves (h\<lparr>files := (files h)\<lparr>props :=
                props (files h) @ [(''/src/a.js'', new_file)]\<rparr>\<rparr>))\<rparr>"

text \<open>What the crawler of the first run returns, and what that run publishes.\<close>

definition crawled_one :: haste_map where
  "crawled_one =
     \<lparr>clocks = \<lparr>proto = NullProto, props = []\<rparr>,
      files = \<lparr>proto = NullProto,
               props = [(''/src/P.ios.js'', seen_P), (''/src/P.android.js'', seen_P),
                        (''/src/a.js'', new_file)]\<rparr>,
      map_tbl = \<lparr>proto = NullProto,
                 props = [(''P'', item_P)]\<rparr>,
      mocks = \<lparr>proto = NullProto, props = []\<rparr>\<rparr>"

definition published_one :: published where
  "published_one =
     \<lparr>hasteFS = \<lparr>proto = NullProto,
                 props = [(''/src/P.ios.js'', seen_P), (''/src/P.android.js'', seen_P),
                          (''/src/a.js'', \<lparr>fm_id = ''X'', fm_mtime = 0, fm_visited = 1,
                                           fm_dependencies = []\<rparr>)]\<rparr>,
      moduleMap_map = \<lparr>proto = NullProto,
                       props = [(''P'', item_P), (''X'', item_X)]\<rparr>,
      moduleMap_mocks = \<lparr>proto = NullProto, props = []\<rparr>,
      hasteMapForTest = None\<rparr>"

text \<open>
  Variations of the example: the cache reset, a cache file that is not JSON, the watcher
  chosen while both crawlers fail, and a mocks pattern.
\<close>

definition inst_reset :: inst where
  "inst_reset = ex_inst\<lparr>hm_options := ex_options\<lparr>resetCache := True\<rparr>\<rparr>"

definition env_corrupt :: env where
  "env_corrupt = ex_env\<lparr>readFileSync := (\<lambda>p. Inr ''{'')\<rparr>"

definition env_watchman :: env where
  "env_watchman =
     ex_env\<lparr>canUseWatchman := True,
            nodeCrawl := (\<lambda>rs exts ign h. CrawlRejects (JsError ''Error'' ''EACCES''))\<rparr>"

definition inst_mocks :: inst where
  "inst_mocks =
     ex_inst\<lparr>hm_options := ex_options\<lparr>mocksPattern := Some (\<lambda>p. str_includes p ''__mocks__'')\<rparr>\<rparr>"

definition crawled_mock :: haste_map where
  "crawled_mock =
     createEmptyMap\<lparr>files := \<lparr>proto = NullProto,
                               props = [(''/src/__mocks__/m.js'', new_file)]\<rparr>\<rparr>"

text \<open>Whether the promise of the worker for a path is fulfilled.\<close>

definition fulfilled :: "env \<Rightarrow> path \<Rightarrow> bool" where
  "fulfilled e p = (case worker_promise e p of Rejected err \<Rightarrow> False | Resolved metadata \<Rightarrow> True)"

text \<open>Two configurations that differ in their roots and in their extensions.\<close>

definition uo_one :: user_options where
  "uo_one =
     \<lparr>u_cacheDirectory = Some ''/tmp'',
      u_extensions = [''js'', ''json''],
      u_ignorePattern = (\<lambda>lastIndex p. (False, lastIndex)),
      u_maxWorkers = 1,
      u_mocksPattern = Some ''__mocks__'',
      u_name = ''jest'',
      u_platforms = [''ios'', ''android''],
      u_providesModuleNodeModules = None,
      u_resetCache = None,
      u_retainAllFiles = False,
      u_roots = [''/src''],
      u_throwOnModuleCollision = None,
      u_useWatchman = None\<rparr>"

definition uo_two :: user_options where
  "uo_two = uo_one\<lparr>u_roots := [''/srcj''], u_extensions := [''s'', ''json'']\<rparr>"

text \<open>An instance with a whitelist of two packages.\<close>

definition inst_whitelist :: inst where
  "inst_whitelist =
     ex_inst\<lparr>whitelist := Some (match_count ''/node_modules/'' CHR ''/'' [''react'', ''fbjs''])\<rparr>"

text \<open>The positions at which a string occurs in another.\<close>

fun occurrences :: "string \<Rightarrow> string \<Rightarrow> nat list" where
  "occurrences needle [] = (if needle = [] then [0] else [])"
| "occurrences needle (c # cs) =
     (if prefix needle (c # cs) then [0] else []) @ map Suc (occurrences needle cs)"

text \<open>
  Invariant I1 of the data model: every path of the map is a key of \<^verbatim>\<open>files\<close>.
\<close>

definition invariant_I1 :: "file_meta table \<Rightarrow> module_map_item table \<Rightarrow> bool" where
  "invariant_I1 fs m =
     list_all (\<lambda>item. list_all (\<lambda>c. mm_path (snd c) \<in> fst ` set (props fs)) (props (snd item)))
       (props m)"

text \<open>
  The second run: the cache of the project with the two platform files is there, and
  \<^verbatim>\<open>/src/P.android.js\<close> has been removed from the disk, so the crawler leaves it out of
  \<^verbatim>\<open>files\<close>.
\<close>

definition env_removed :: env where
  "env_removed =
     ex_env\<lparr>readFileSync := (\<lambda>p. Inr ''cache''),
            json_parse := (\<lambda>c. Inr cached_P),
            nodeCrawl := (\<lambda>rs exts ign h.
              CrawlResolves (h\<lparr>files := (files h)\<lparr>props :=
                AList.delete ''/src/P.android.js'' (props (files h))\<rparr>\<rparr>))\<rparr>"

definition published_removed :: published where
  "published_removed =
     \<lparr>hasteFS = \<lparr>proto = NullProto, props = [(''/src/P.ios.js'', seen_P)]\<rparr>,
      moduleMap_map = \<lparr>proto = NullProto,
                       props = [(''P'', item_P)]\<rparr>,
      moduleMap_mocks = \<lparr>proto = NullProto, props = []\<rparr>,
      hasteMapForTest = None\<rparr>"

text \<open>
  The third run: \<^verbatim>\<open>/src/P.android.js\<close> has changed, so the crawler has reset its record,
  and the worker cannot read it.
\<close>

definition env_unreadable :: env where
  "env_unreadable =
     ex_env\<lparr>worker := (\<lambda>p. if p = ''/src/P.android.js''
                          then (Some (JsError ''Error'' ''EACCES''), None) else ex_worker p)\<rparr>"

definition crawled_changed :: haste_map where
  "crawled_changed =
     \<lparr>clocks = \<lparr>proto = NullProto, props = []\<rparr>,
      files = \<lparr>proto = NullProto,
               props = [(''/src/P.ios.js'', seen_P), (''/src/P.android.js'', new_file)]\<rparr>,
      map_tbl = \<lparr>proto = NullProto,
                 props = [(''P'', item_P)]\<rparr>,
      mocks = \<lparr>proto = NullProto, props = []\<rparr>\<rparr>"

text \<open>
  The fourth run: two workers, and two new files that both declare the module \<^verbatim>\<open>X\<close>.
\<close>

definition inst_farm :: inst where
  "inst_farm = ex_inst\<lparr>hm_options := ex_options\<lparr>maxWorkers := 2\<rparr>\<rparr>"

definition crawled_ab :: haste_map where
  "crawled_ab =
     createEmptyMap\<lparr>files := \<lparr>proto = NullProto,
                               props = [(''/src/a.js'', new_file), (''/src/b.js'', new_file)]\<rparr>\<rparr>"

text \<open>
  The fifth run: no cache, one worker, and the crawler finds the two new files that both
  declare the module \<^verbatim>\<open>X\<close>.
\<close>

definition env_ab :: env where
  "env_ab = ex_env\<lparr>nodeCrawl := (\<lambda>rs exts ign h. CrawlResolves crawled_ab)\<rparr>"

section \<open>Invariant I3 and the cache of a build that warns\<close>

text \<open>
  Invariant I3 of the data model, in its words: no two distinct paths collide at the same
  id and platform. A path of \<^verbatim>\<open>files\<close> is at the id its record holds (when the record is
  visited and the id is not empty) and at the platform of its file name.
\<close>

definition collides :: "env \<Rightarrow> path \<times> file_meta \<Rightarrow> path \<times> file_meta \<Rightarrow> bool" where
  "collides e a b \<longleftrightarrow>
     fm_visited (snd a) \<noteq> 0 \<and> fm_visited (snd b) \<noteq> 0 \<and>
     fm_id (snd a) \<noteq> [] \<and> fm_id (snd a) = fm_id (snd b) \<and>
     platform_of e (fst a) = platform_of e (fst b) \<and> fst a \<noteq> fst b"

definition invariant_I3 :: "env \<Rightarrow> file_meta table \<Rightarrow> bool" where
  "invariant_I3 e fs =
     list_all (\<lambda>a. list_all (\<lambda>b. \<not> collides e a b) (props fs)) (props fs)"

text \<open>
  The sixth run is the fifth with a policy that warns. The seventh run is a build with the
  policy that throws, on the cache the sixth run wrote (as \<^verbatim>\<open>JSON.parse\<close> gives it) and with
  no file changed.
\<close>

definition inst_warn :: inst where
  "inst_warn = ex_inst\<lparr>hm_options := ex_options\<lparr>throwOnModuleCollision := False\<rparr>\<rparr>"

definition seen_X :: file_meta where
  "seen_X = \<lparr>fm_id = ''X'', fm_mtime = 0, fm_visited = 1, fm_dependencies = []\<rparr>"

definition cached_ab :: haste_map where
  "cached_ab =
     \<lparr>clocks = \<lparr>proto = ObjectProto, props = []\<rparr>,
      files = \<lparr>proto = ObjectProto, props = [(''/src/a.js'', seen_X), (''/src/b.js'', seen_X)]\<rparr>,
      map_tbl = \<lparr>proto = ObjectProto, props = [(''X'', item_X_parsed)]\<rparr>,
      mocks = \<lparr>proto = ObjectProto, props = []\<rparr>\<rparr>"

definition env_cached_ab :: env where
  "env_cached_ab =
     ex_env\<lparr>readFileSync := (\<lambda>p. Inr ''cache''), json_parse := (\<lambda>c. Inr cached_ab)\<rparr>"

definition published_warn :: published where
  "published_warn =
     \<lparr>hasteFS = \<lparr>proto = NullProto, props = [(''/src/a.js'', seen_X), (''/src/b.js'', seen_X)]\<rparr>,
      moduleMap_map = \<lparr>proto = NullProto, props = [(''X'', item_X)]\<rparr>,
      moduleMap_mocks = \<lparr>proto = NullProto, props = []\<rparr>,
      hasteMapForTest = None\<rparr>"

definition published_ab :: published where
  "published_ab =
     \<lparr>hasteFS = \<lparr>proto = NullProto, props = [(''/src/a.js'', seen_X), (''/src/b.js'', seen_X)]\<rparr>,
      moduleMap_map = \<lparr>proto = NullProto, props = [(''X'', item_X_parsed)]\<rparr>,
      moduleMap_mocks = \<lparr>proto = NullProto, props = []\<rparr>,
      hasteMapForTest = None\<rparr>"

text \<open>
  What makes invariant I3 survive a build. A record of \<^verbatim>\<open>files\<close> that has an id agrees with
  the map when it is visited, the loop does not skip it, and the cell of its id and of the
  platform of its name holds its path (invariant I2, at the platform of the file). The
  worker is true to a path when the module it returns for the path has that path.
\<close>

definition own_cell :: "env \<Rightarrow> inst \<Rightarrow> haste_map \<Rightarrow> path \<times> file_meta \<Rightarrow> bool" where
  "own_cell e s h entry \<longleftrightarrow>
     fm_visited (snd entry) \<noteq> 0 \<and>
     \<not> (retainAllFiles (hm_options s) \<and> isNodeModulesDir e s (fst entry)) \<and>
     (case cell (props (map_tbl h)) (fm_id (snd entry)) (platform_of e (fst entry)) of
        None \<Rightarrow> False
      | Some md \<Rightarrow> mm_path md = fst entry)"

definition cache_consistent :: "env \<Rightarrow> inst \<Rightarrow> haste_map \<Rightarrow> bool" where
  "cache_consistent e s h =
     list_all (\<lambda>entry. fm_id (snd entry) = [] \<or> own_cell e s h entry) (props (files h))"

definition worker_honest :: "env \<Rightarrow> path list \<Rightarrow> bool" where
  "worker_honest e ps =
     list_all (\<lambda>p. case worker_promise e p of
                     Rejected err \<Rightarrow> True
                   | Resolved metadata \<Rightarrow>
                       (case wm_module metadata of None \<Rightarrow> True | Some md \<Rightarrow> mm_path md = p)) ps"

text \<open>The file map the seventh run loads and crawls.\<close>

definition loaded_ab :: haste_map where
  "loaded_ab =
     \<lparr>clocks = \<lparr>proto = NullProto, props = []\<rparr>,
      files = \<lparr>proto = NullProto, props = [(''/src/a.js'', seen_X), (''/src/b.js'', seen_X)]\<rparr>,
      map_tbl = \<lparr>proto = NullProto, props = [(''X'', item_X_parsed)]\<rparr>,
      mocks = \<lparr>proto = NullProto, props = []\<rparr>\<rparr>"

text \<open>
  A project with a platform extractor that takes \<^verbatim>\<open>constructor\<close> for a platform, as an
  extractor does that looks the platform up in an object literal.
\<close>

definition env_ctor :: env where
  "env_ctor =
     ex_env\<lparr>getPlatformExtension :=
       (\<lambda>p. if p = ''/src/X.constructor.js'' then Some ''constructor'' else None)\<rparr>"

definition module_ctor :: module_meta where
  "module_ctor = \<lparr>mm_path = ''/src/X.constructor.js'', mm_type = MODULE\<rparr>"

section \<open>Association lists and strings\<close>

lemma update_same: "map_of al k = Some v \<Longrightarrow> AList.update k v al = al"
  by (induction al) (auto split: if_splits)

lemma map_of_snoc_new:
  "map_of m k = None \<Longrightarrow> map_of (m @ [(k, v)]) k' = (if k' = k then Some v else map_of m k')"
  by (auto simp: map_add_def split: option.splits)

lemma sublist_in_right: "sublist a ys \<Longrightarrow> sublist a (xs @ ys)"
  by (auto simp: sublist_def) (metis append.assoc)

lemma str_includes_iff: "str_includes s n \<longleftrightarrow> sublist n s"
  by (induction s) (auto simp: sublist_Cons_right)

section \<open>The installer\<close>

lemma collision_message_names:
  "sublist a (collision_message t i a b)" "sublist b (collision_message t i a b)"
proof -
  show "sublist a (collision_message t i a b)"
    unfolding collision_message_def
    apply (rule sublist_in_right)
    apply (rule sublist_in_right)
    apply (rule sublist_in_right)
    apply (rule sublist_in_right)
    apply (rule sublist_in_right)
    apply (rule sublist_in_right)
    apply (rule sublist_append_rightI)
    done
  show "sublist b (collision_message t i a b)"
    unfolding collision_message_def
    apply (rule sublist_in_right)
    apply (rule sublist_in_right)
    apply (rule sublist_in_right)
    apply (rule sublist_in_right)
    apply (rule sublist_in_right)
    apply (rule sublist_in_right)
    apply (rule sublist_in_right)
    apply (rule sublist_in_right)
    apply (rule sublist_append_rightI)
    done
qed

lemma setModule_fresh_id:
  assumes "map_of m ident = None"
  shows "setModule opts e ident md (m, evs) =
           Inr (AList.update ident \<lparr>proto = NullProto, props = [(platform_of e (mm_path md), md)]\<rparr>
                  (m @ [(ident, object_create_null)]), evs)"
  using assms
  by (simp add: setModule_def Let_def map_add_def object_create_null_def inherited_keys_def)

lemma setModule_fresh_platform:
  assumes "map_of m ident = Some mm" "map_of (props mm) (platform_of e (mm_path md)) = None"
      and "platform_of e (mm_path md) \<notin> set (inherited_keys (proto mm))"
  shows "setModule opts e ident md (m, evs) =
           Inr (AList.update ident
                  (mm\<lparr>props := AList.update (platform_of e (mm_path md)) md (props mm)\<rparr>) m, evs)"
  using assms by (simp add: setModule_def Let_def)

lemma setModule_inherited:
  assumes "map_of m ident = Some mm" "map_of (props mm) (platform_of e (mm_path md)) = None"
      and "platform_of e (mm_path md) \<in> set (inherited_keys (proto mm))"
  shows "setModule opts e ident md (m, evs) =
           (if ''undefined'' \<noteq> mm_path md then
              (if throwOnModuleCollision opts
               then Inl (JsError ''Error'' (collision_message True ident (mm_path md) ''undefined''))
               else Inr (m, evs @ [Warn (collision_message False ident (mm_path md) ''undefined'')]))
            else
              (if throwOnModuleCollision opts
               then Inl (JsError ''Error'' (collision_message True ident (mm_path md) ''undefined''))
               else Inr (m, evs @ [Warn (collision_message False ident (mm_path md) ''undefined'')])))"
  using assms by (simp add: setModule_def Let_def)

lemma setModule_occupied:
  assumes "map_of m ident = Some mm" "map_of (props mm) (platform_of e (mm_path md)) = Some ex"
  shows "setModule opts e ident md (m, evs) =
           (if mm_path ex \<noteq> mm_path md then
              (if throwOnModuleCollision opts
               then Inl (JsError ''Error'' (collision_message True ident (mm_path md) (mm_path ex)))
               else Inr (m, evs @ [Warn (collision_message False ident (mm_path md) (mm_path ex))]))
            else Inr (AList.update ident
                        (mm\<lparr>props := AList.update (platform_of e (mm_path md)) md (props mm)\<rparr>) m,
                      evs))"
  using assms by (simp add: setModule_def Let_def)

text \<open>The four cases of the installer, by what it returns.\<close>

lemma setModule_cases:
  assumes "setModule opts e ident md (m, evs) = Inr (m', evs')"
  shows "(m' = m \<and> \<not> throwOnModuleCollision opts) \<or>
         (\<exists>mm. m' = AList.update ident
                  (mm\<lparr>props := AList.update (platform_of e (mm_path md)) md (props mm)\<rparr>)
                  (case map_of m ident of None \<Rightarrow> m @ [(ident, object_create_null)] | Some _ \<Rightarrow> m) \<and>
               (case map_of m ident of None \<Rightarrow> mm = object_create_null | Some old \<Rightarrow> mm = old))"
proof (cases "map_of m ident")
  case None
  then show ?thesis using assms by (auto simp: setModule_fresh_id object_create_null_def)
next
  case (Some mm)
  show ?thesis
  proof (cases "map_of (props mm) (platform_of e (mm_path md))")
    case None
    show ?thesis
    proof (cases "platform_of e (mm_path md) \<in> set (inherited_keys (proto mm))")
      case True
      then show ?thesis using assms Some None
        by (auto simp: setModule_inherited split: if_splits)
    next
      case False
      then show ?thesis using assms Some None
        by (auto simp: setModule_fresh_platform)
    qed
  next
    case (Some ex)
    then show ?thesis using assms \<open>map_of m ident = Some mm\<close>
      by (auto simp: setModule_occupied split: if_splits)
  qed
qed

lemma cell_update_update:
  "cell (AList.update ident (mm\<lparr>props := AList.update pl md (props mm)\<rparr>) m) i p =
     (if i = ident then (if p = pl then Some md else map_of (props mm) p) else cell m i p)"
  by (simp add: cell_def update_conv')

lemma cell_update_item:
  "cell (AList.update ident item m) i p =
     (if i = ident then map_of (props item) p else cell m i p)"
  by (simp add: cell_def update_conv')

lemma cell_snoc_new:
  "map_of m ident = None \<Longrightarrow> props item = [] \<Longrightarrow> cell (m @ [(ident, item)]) i p = cell m i p"
  by (simp add: cell_def map_add_def split: option.splits)

lemma cell_setModule_other:
  assumes "setModule opts e ident md (m, evs) = Inr (m', evs')"
      and "(i, pl) \<noteq> (ident, platform_of e (mm_path md))"
    shows "cell m' i pl = cell m i pl"
proof -
  from setModule_cases[OF assms(1)] show ?thesis
  proof (elim disjE exE conjE)
    assume "m' = m" then show ?thesis by simp
  next
    fix mm
    assume m': "m' = AList.update ident
                  (mm\<lparr>props := AList.update (platform_of e (mm_path md)) md (props mm)\<rparr>)
                  (case map_of m ident of None \<Rightarrow> m @ [(ident, object_create_null)] | Some _ \<Rightarrow> m)"
      and mm: "case map_of m ident of None \<Rightarrow> mm = object_create_null | Some old \<Rightarrow> mm = old"
    show ?thesis
    proof (cases "map_of m ident")
      case None
      then show ?thesis using m' mm assms(2)
        by (auto simp: cell_update_item cell_snoc_new object_create_null_def) (simp add: cell_def)
    next
      case (Some old)
      then show ?thesis using m' mm assms(2)
        by (auto simp: cell_update_update) (simp add: cell_def)
    qed
  qed
qed

lemma cell_setModule_this:
  assumes "setModule opts e ident md (m, evs) = Inr (m', evs')"
      and "throwOnModuleCollision opts"
    shows "cell m' ident (platform_of e (mm_path md)) = Some md"
  using setModule_cases[OF assms(1)] assms(2) by (auto simp: cell_update_update)

lemma cell_setModule_stable:
  assumes "setModule opts e ident md (m, evs) = Inr (m', evs')"
      and "throwOnModuleCollision opts"
      and "cell m i pl = Some old"
    shows "\<exists>new. cell m' i pl = Some new \<and> mm_path new = mm_path old"
proof (cases "(i, pl) = (ident, platform_of e (mm_path md))")
  case False
  then show ?thesis using cell_setModule_other[OF assms(1) False] assms(3) by simp
next
  case True
  then obtain mm where mm: "map_of m ident = Some mm"
      "map_of (props mm) (platform_of e (mm_path md)) = Some old"
    using assms(3) by (auto simp: cell_def split: option.splits)
  have "mm_path old = mm_path md"
    using assms(1,2) by (simp add: setModule_occupied[OF mm] split: if_splits)
  then show ?thesis using cell_setModule_this[OF assms(1,2)] True by simp
qed

lemma setModule_throw:
  assumes "cell m ident (platform_of e (mm_path md)) = Some ex"
      and "mm_path ex \<noteq> mm_path md" and "throwOnModuleCollision opts"
    shows "setModule opts e ident md (m, evs) =
             Inl (JsError ''Error'' (collision_message True ident (mm_path md) (mm_path ex)))"
proof -
  obtain mm where mm: "map_of m ident = Some mm"
      "map_of (props mm) (platform_of e (mm_path md)) = Some ex"
    using assms(1) by (auto simp: cell_def split: option.splits)
  show ?thesis using assms(2,3) by (simp add: setModule_occupied[OF mm])
qed

lemma setModule_warn:
  assumes "cell m ident (platform_of e (mm_path md)) = Some ex"
      and "mm_path ex \<noteq> mm_path md" and "\<not> throwOnModuleCollision opts"
    shows "setModule opts e ident md (m, evs) =
             Inr (m, evs @ [Warn (collision_message False ident (mm_path md) (mm_path ex))])"
proof -
  obtain mm where mm: "map_of m ident = Some mm"
      "map_of (props mm) (platform_of e (mm_path md)) = Some ex"
    using assms(1) by (auto simp: cell_def split: option.splits)
  show ?thesis using assms(2,3) by (simp add: setModule_occupied[OF mm])
qed

lemma update_item_same:
  "map_of m ident = Some mm \<Longrightarrow> map_of (props mm) pl = Some md \<Longrightarrow>
   AList.update ident (mm\<lparr>props := AList.update pl md (props mm)\<rparr>) m = m"
  by (simp add: update_same)

lemma setModule_same_path:
  assumes "cell m ident (platform_of e (mm_path md)) = Some ex"
      and "mm_path ex = mm_path md"
    shows "\<exists>m'. setModule opts e ident md (m, evs) = Inr (m', evs) \<and>
             cell m' ident (platform_of e (mm_path md)) = Some md \<and>
             (ex = md \<longrightarrow> m' = m)"
proof -
  obtain mm where mm: "map_of m ident = Some mm"
      "map_of (props mm) (platform_of e (mm_path md)) = Some ex"
    using assms(1) by (auto simp: cell_def split: option.splits)
  show ?thesis using assms(2) mm
    by (simp add: setModule_occupied[OF mm] cell_update_update update_item_same)
qed

section \<open>The loop over the files\<close>

lemma visit_file_opts [simp]:
  "hm_options (bs_inst (visit_file e old entry st)) = hm_options (bs_inst st)"
  "whitelist (bs_inst (visit_file e old entry st)) = whitelist (bs_inst st)"
  "bs_files (visit_file e old entry st) = bs_files st"
  by (auto simp: visit_file_def Let_def getWorker_def split: option.splits)

lemma isNodeModulesDir_cong:
  "whitelist s = whitelist s' \<Longrightarrow> isNodeModulesDir e s p = isNodeModulesDir e s' p"
  by (simp add: isNodeModulesDir_def)

lemma visit_file_within:
  "within (bs_map st) old \<Longrightarrow> within (bs_map (visit_file e old entry st)) old"
  by (auto simp: visit_file_def Let_def within_def update_conv' split: option.splits if_splits)

lemma visit_file_keeps:
  "within (bs_map st) old \<Longrightarrow> map_of (bs_map st) i = Some item \<Longrightarrow>
   map_of (bs_map (visit_file e old entry st)) i = Some item"
  by (auto simp: visit_file_def Let_def within_def update_conv' split: option.splits if_splits)

lemma visit_file_copies:
  assumes "\<not> (retainAllFiles (hm_options (bs_inst st)) \<and> isNodeModulesDir e (bs_inst st) (fst entry))"
      and "fm_visited (snd entry) \<noteq> 0" "fm_id (snd entry) \<noteq> []"
      and "map_of old (fm_id (snd entry)) = Some item"
    shows "map_of (bs_map (visit_file e old entry st)) (fm_id (snd entry)) = Some item"
  using assms
  by (auto simp: visit_file_def Let_def update_conv' split: option.splits if_splits)

lemma fold_visit_opts [simp]:
  "hm_options (bs_inst (fold (visit_file e old) es st)) = hm_options (bs_inst st)"
  "whitelist (bs_inst (fold (visit_file e old) es st)) = whitelist (bs_inst st)"
  "bs_files (fold (visit_file e old) es st) = bs_files st"
  by (induction es arbitrary: st) auto

lemma fold_visit_within:
  "within (bs_map st) old \<Longrightarrow> within (bs_map (fold (visit_file e old) es st)) old"
  by (induction es arbitrary: st) (auto intro: visit_file_within)

lemma fold_visit_keeps:
  "within (bs_map st) old \<Longrightarrow> map_of (bs_map st) i = Some item \<Longrightarrow>
   map_of (bs_map (fold (visit_file e old) es st)) i = Some item"
  by (induction es arbitrary: st) (auto intro: visit_file_within visit_file_keeps)

lemma fold_visit_copies:
  assumes "within (bs_map st) old" "entry \<in> set es"
      and "\<not> (retainAllFiles (hm_options (bs_inst st)) \<and> isNodeModulesDir e (bs_inst st) (fst entry))"
      and "fm_visited (snd entry) \<noteq> 0" "fm_id (snd entry) \<noteq> []"
      and "map_of old (fm_id (snd entry)) = Some item"
    shows "map_of (bs_map (fold (visit_file e old) es st)) (fm_id (snd entry)) = Some item"
  using assms
proof (induction es arbitrary: st)
  case Nil
  then show ?case by simp
next
  case (Cons x es)
  have w: "within (bs_map (visit_file e old x st)) old"
    using Cons.prems(1) by (rule visit_file_within)
  have nm: "isNodeModulesDir e (bs_inst (visit_file e old x st)) (fst entry) = isNodeModulesDir e (bs_inst st) (fst entry)"
    by (rule isNodeModulesDir_cong) simp
  show ?case
  proof (cases "entry = x")
    case True
    have "map_of (bs_map (visit_file e old x st)) (fm_id (snd entry)) = Some item"
      using Cons.prems True by (auto intro: visit_file_copies)
    then show ?thesis using w by (simp add: fold_visit_keeps)
  next
    case False
    then have "entry \<in> set es" using Cons.prems(2) by simp
    then show ?thesis
      using Cons.IH[OF w] Cons.prems nm by simp
  qed
qed

section \<open>The callbacks of the worker promises\<close>

lemma onFulfilled_frame:
  assumes "onFulfilled e p metadata st = Inr st'"
  shows "hm_options (bs_inst st') = hm_options (bs_inst st)"
    and "whitelist (bs_inst st') = whitelist (bs_inst st)"
    and "workerFarm (bs_inst st') = workerFarm (bs_inst st)"
    and "workerPromise (bs_inst st') = workerPromise (bs_inst st)"
    and "bs_mocks st' = bs_mocks st"
    and "bs_jobs st' = bs_jobs st"
  using assms
  by (auto simp: onFulfilled_def Let_def split: option.splits if_splits sum.splits)

lemma onFulfilled_map:
  assumes "onFulfilled e p metadata st = Inr st'"
  shows "(case wm_module metadata of
            None \<Rightarrow> bs_map st' = bs_map st
          | Some md \<Rightarrow>
              if wm_id metadata = [] then bs_map st' = bs_map st
              else \<exists>evs'. setModule (hm_options (bs_inst st)) e (wm_id metadata) md
                             (bs_map st, events (bs_inst st)) = Inr (bs_map st', evs'))"
  using assms
  by (auto simp: onFulfilled_def Let_def split: option.splits if_splits sum.splits)

lemma onFulfilled_stable:
  assumes "onFulfilled e p metadata st = Inr st'"
      and "throwOnModuleCollision (hm_options (bs_inst st))"
      and "cell (bs_map st) i pl = Some old"
    shows "\<exists>new. cell (bs_map st') i pl = Some new \<and> mm_path new = mm_path old"
  using onFulfilled_map[OF assms(1)] assms(2,3)
  by (auto split: option.splits if_splits dest: cell_setModule_stable)

lemma onFulfilled_installs:
  assumes "onFulfilled e p metadata st = Inr st'"
      and "throwOnModuleCollision (hm_options (bs_inst st))"
      and "wm_module metadata = Some md" "wm_id metadata \<noteq> []"
    shows "cell (bs_map st') (wm_id metadata) (platform_of e (mm_path md)) = Some md"
  using onFulfilled_map[OF assms(1)] assms(2,3,4)
  by (auto dest: cell_setModule_this)

lemma onRejected_frame [simp]:
  "bs_map (onRejected p st) = bs_map st"
  "bs_mocks (onRejected p st) = bs_mocks st"
  "bs_jobs (onRejected p st) = bs_jobs st"
  "bs_inst (onRejected p st) = bs_inst st"
  "bs_files (onRejected p st) = AList.delete p (bs_files st)"
  by (simp_all add: onRejected_def)

lemma run_callbacks_opts:
  "run_callbacks e ps st = (r, st') \<Longrightarrow> hm_options (bs_inst st') = hm_options (bs_inst st)"
proof (induction ps arbitrary: st)
  case Nil
  then show ?case by simp
next
  case (Cons p ps)
  then show ?case
    by (auto split: settled.splits sum.splits dest: onFulfilled_frame(1))
qed

lemma run_callbacks_stable:
  assumes "run_callbacks e ps st = (None, st')"
      and "throwOnModuleCollision (hm_options (bs_inst st))"
      and "cell (bs_map st) i pl = Some old"
    shows "\<exists>new. cell (bs_map st') i pl = Some new \<and> mm_path new = mm_path old"
  using assms
proof (induction ps arbitrary: st old)
  case Nil
  then show ?case by simp
next
  case (Cons p ps)
  show ?case
  proof (cases "worker_promise e p")
    case (Rejected err)
    then have "run_callbacks e ps (onRejected p st) = (None, st')"
      using Cons.prems(1) by simp
    from Cons.IH[OF this] Cons.prems(2,3) show ?thesis by simp
  next
    case (Resolved metadata)
    then obtain st1 where st1: "onFulfilled e p metadata st = Inr st1"
      and rest: "run_callbacks e ps st1 = (None, st')"
      using Cons.prems(1) by (auto split: sum.splits)
    obtain mid where mid: "cell (bs_map st1) i pl = Some mid" "mm_path mid = mm_path old"
      using onFulfilled_stable[OF st1 Cons.prems(2,3)] by blast
    have t: "throwOnModuleCollision (hm_options (bs_inst st1))"
      using onFulfilled_frame(1)[OF st1] Cons.prems(2) by simp
    from Cons.IH[OF rest t mid(1)] mid(2) show ?thesis by simp
  qed
qed

lemma run_callbacks_installed:
  assumes "run_callbacks e ps st = (None, st')"
      and "throwOnModuleCollision (hm_options (bs_inst st))"
      and "(i, pl, pth) \<in> set (installed_cells e ps)"
    shows "\<exists>new. cell (bs_map st') i pl = Some new \<and> mm_path new = pth"
  using assms
proof (induction ps arbitrary: st)
  case Nil
  then show ?case by (simp add: installed_cells_def)
next
  case (Cons p ps)
  have split_cells: "installed_cells e (p # ps) = installed_cells e [p] @ installed_cells e ps"
    by (simp add: installed_cells_def)
  show ?case
  proof (cases "worker_promise e p")
    case (Rejected err)
    then have rest: "run_callbacks e ps (onRejected p st) = (None, st')"
      using Cons.prems(1) by simp
    have "(i, pl, pth) \<in> set (installed_cells e ps)"
      using Cons.prems(3) Rejected by (simp add: installed_cells_def)
    from Cons.IH[OF rest _ this] Cons.prems(2) show ?thesis by simp
  next
    case (Resolved metadata)
    then obtain st1 where st1: "onFulfilled e p metadata st = Inr st1"
      and rest: "run_callbacks e ps st1 = (None, st')"
      using Cons.prems(1) by (auto split: sum.splits)
    have t: "throwOnModuleCollision (hm_options (bs_inst st1))"
      using onFulfilled_frame(1)[OF st1] Cons.prems(2) by simp
    show ?thesis
    proof (cases "(i, pl, pth) \<in> set (installed_cells e ps)")
      case True
      from Cons.IH[OF rest t True] show ?thesis .
    next
      case False
      then have "(i, pl, pth) \<in> set (installed_cells e [p])"
        using Cons.prems(3) split_cells by simp
      then obtain md where md: "wm_module metadata = Some md" "wm_id metadata \<noteq> []"
        "i = wm_id metadata" "pl = platform_of e (mm_path md)" "pth = mm_path md"
        using Resolved by (cases "wm_module metadata") (auto simp: installed_cells_def split: if_splits)
      have "cell (bs_map st1) i pl = Some md"
        using onFulfilled_installs[OF st1 Cons.prems(2) md(1,2)] md by simp
      from run_callbacks_stable[OF rest t this] md(5) show ?thesis by simp
    qed
  qed
qed

section \<open>The metadata stage and the pipeline\<close>

lemma scan_files_frame [simp]:
  "hm_options (bs_inst (scan_files e h s)) = hm_options s"
  "whitelist (bs_inst (scan_files e h s)) = whitelist s"
  "bs_files (scan_files e h s) = props (files h)"
  by (simp_all add: scan_files_def)

lemma within_Nil [simp]: "within [] old"
  by (simp add: within_def)

lemma copied_cells_elim:
  assumes "(i, pl, pth) \<in> set (copied_cells e h s)"
  shows "\<exists>entry item md. entry \<in> set (props (files h)) \<and>
      \<not> (retainAllFiles (hm_options s) \<and> isNodeModulesDir e s (fst entry)) \<and>
      fm_visited (snd entry) \<noteq> 0 \<and> fm_id (snd entry) \<noteq> [] \<and>
      map_of (props (map_tbl h)) (fm_id (snd entry)) = Some item \<and>
      map_of (props item) pl = Some md \<and> i = fm_id (snd entry) \<and> pth = mm_path md"
proof -
  from assms obtain entry where in_files: "entry \<in> set (props (files h))"
    and off: "(i, pl, pth) \<in> set
        (if retainAllFiles (hm_options s) \<and> isNodeModulesDir e s (fst entry) then []
         else if fm_visited (snd entry) \<noteq> 0 \<and> fm_id (snd entry) \<noteq> [] then
           (case map_of (props (map_tbl h)) (fm_id (snd entry)) of
              None \<Rightarrow> []
            | Some item \<Rightarrow>
                map (\<lambda>c. (fm_id (snd entry), fst c, mm_path (snd c)))
                  (filter (\<lambda>c. map_of (props item) (fst c) = Some (snd c)) (props item)))
         else [])" (is "_ \<in> set (if ?R then [] else if ?V then ?C else [])")
    by (auto simp only: copied_cells_def set_concat set_map)
  have r: "\<not> ?R"
  proof
    assume "?R"
    then have "(if ?R then [] else if ?V then ?C else []) = []" by (rule if_P)
    with off show False by simp
  qed
  from off have off2: "(i, pl, pth) \<in> set (if ?V then ?C else [])"
    unfolding if_not_P[OF r] .
  have v: "?V"
  proof (rule ccontr)
    assume nv: "\<not> ?V"
    from off2 have "(i, pl, pth) \<in> set []" unfolding if_not_P[OF nv] .
    then show False by simp
  qed
  from off2 have c: "(i, pl, pth) \<in> set ?C"
    unfolding if_P[OF v] .
  show ?thesis
  proof (cases "map_of (props (map_tbl h)) (fm_id (snd entry))")
    case None
    then show ?thesis using c by simp
  next
    case (Some item)
    then have "(i, pl, pth) \<in> set (map (\<lambda>c. (fm_id (snd entry), fst c, mm_path (snd c)))
                  (filter (\<lambda>c. map_of (props item) (fst c) = Some (snd c)) (props item)))"
      using c by simp
    then obtain cc where "cc \<in> set (props item)" "map_of (props item) (fst cc) = Some (snd cc)"
      "i = fm_id (snd entry)" "pl = fst cc" "pth = mm_path (snd cc)"
      by auto
    then show ?thesis using in_files r v Some by blast
  qed
qed


lemma scan_files_copies:
  assumes "(i, pl, pth) \<in> set (copied_cells e h s)"
  shows "\<exists>md. cell (bs_map (scan_files e h s)) i pl = Some md \<and> mm_path md = pth"
proof -
  obtain entry item md where in_files: "entry \<in> set (props (files h))"
    and skip: "\<not> (retainAllFiles (hm_options s) \<and> isNodeModulesDir e s (fst entry))"
    and vis: "fm_visited (snd entry) \<noteq> 0" "fm_id (snd entry) \<noteq> []"
    and item: "map_of (props (map_tbl h)) (fm_id (snd entry)) = Some item"
    and c: "map_of (props item) pl = Some md" "i = fm_id (snd entry)" "pth = mm_path md"
    using copied_cells_elim[OF assms] by blast
  have "map_of (bs_map (fold (visit_file e (props (map_tbl h))) (props (files h))
          \<lparr>bs_files = props (files h), bs_map = [], bs_mocks = [], bs_jobs = [], bs_inst = s\<rparr>))
          (fm_id (snd entry)) = Some item"
    by (rule fold_visit_copies) (use in_files skip vis item in simp_all)
  then show ?thesis using c by (simp add: cell_def scan_files_def)
qed

lemma buildHasteMap_success:
  assumes "buildHasteMap e h s = (Inr h', s')"
  shows "\<exists>st1. run_callbacks e (completion_order e (bs_jobs (scan_files e h s))) (scan_files e h s) = (None, st1) \<and>
           h' = h\<lparr>files := (files h)\<lparr>props := bs_files st1\<rparr>,
                  map_tbl := \<lparr>proto = NullProto, props = bs_map st1\<rparr>,
                  mocks := \<lparr>proto = NullProto, props = bs_mocks st1\<rparr>\<rparr> \<and>
           s' = teardown (bs_inst st1)"
  using assms
  by (auto simp: buildHasteMap_def Let_def split: prod.splits option.splits)

lemma buildHasteMap_cells:
  assumes "buildHasteMap e h s = (Inr h', s')"
      and "throwOnModuleCollision (hm_options s)"
      and "(i, pl, pth) \<in> set (built_cells e h s)"
    shows "\<exists>md. cell (props (map_tbl h')) i pl = Some md \<and> mm_path md = pth"
proof -
  obtain st1 where run: "run_callbacks e (completion_order e (bs_jobs (scan_files e h s))) (scan_files e h s) = (None, st1)"
    and h': "props (map_tbl h') = bs_map st1"
    using buildHasteMap_success[OF assms(1)] by auto
  have t: "throwOnModuleCollision (hm_options (bs_inst (scan_files e h s)))"
    using assms(2) by simp
  from assms(3) consider
    (copied) "(i, pl, pth) \<in> set (copied_cells e h s)"
    | (installed) "(i, pl, pth) \<in> set (installed_cells e (completion_order e (bs_jobs (scan_files e h s))))"
    by (auto simp: built_cells_def)
  then show ?thesis
  proof cases
    case copied
    then obtain md where "cell (bs_map (scan_files e h s)) i pl = Some md" "mm_path md = pth"
      using scan_files_copies by blast
    with run_callbacks_stable[OF run t this(1)] h' show ?thesis by simp
  next
    case installed
    with run_callbacks_installed[OF run t installed] h' show ?thesis by simp
  qed
qed

lemma retry_frame:
  assumes "retry e s c ign h err = (r, s')"
  shows "hm_options s' = hm_options s" "whitelist s' = whitelist s" "cachePath s' = cachePath s"
    "buildPromise s' = buildPromise s" "workerFarm s' = workerFarm s" "workerPromise s' = workerPromise s"
  using assms by (auto simp: retry_def Let_def split: if_splits crawl_outcome.splits)

lemma crawl_hm_frame:
  assumes "crawl_hm e s h = (r, s')"
  shows "hm_options s' = hm_options s" "whitelist s' = whitelist s" "cachePath s' = cachePath s"
    "buildPromise s' = buildPromise s" "workerFarm s' = workerFarm s" "workerPromise s' = workerPromise s"
  using assms
  by (auto simp: crawl_hm_def Let_def split: crawl_outcome.splits dest: retry_frame)

lemma load_cache_frame:
  assumes "load_cache e s = (h, s')"
  shows "hm_options s' = hm_options s" "whitelist s' = whitelist s" "cachePath s' = cachePath s"
    "buildPromise s' = buildPromise s" "workerFarm s' = workerFarm s" "workerPromise s' = workerPromise s"
  using assms
  by (auto simp: load_cache_def read_hm_def Let_def split: if_splits sum.splits prod.splits)

lemma buildFileMap_frame:
  assumes "buildFileMap e s = (r, s')"
  shows "hm_options s' = hm_options s" "whitelist s' = whitelist s" "cachePath s' = cachePath s"
    "buildPromise s' = buildPromise s" "workerFarm s' = workerFarm s" "workerPromise s' = workerPromise s"
proof -
  obtain h0 s0 where l: "load_cache e s = (h0, s0)" and c: "crawl_hm e s0 h0 = (r, s')"
    using assms by (auto simp: buildFileMap_def split: prod.splits)
  show "hm_options s' = hm_options s" "whitelist s' = whitelist s" "cachePath s' = cachePath s"
    "buildPromise s' = buildPromise s" "workerFarm s' = workerFarm s" "workerPromise s' = workerPromise s"
    using load_cache_frame[OF l] crawl_hm_frame[OF c] by simp_all
qed

lemma persist_result:
  "persist e h s = (Inr h', s') \<Longrightarrow> h' = h"
  by (auto simp: persist_def Let_def split: option.splits)

lemma pipeline_success:
  assumes "pipeline e s = (Inr pub, s')"
  shows "\<exists>fileMap s1 h' s2.
           buildFileMap e s = (Inr fileMap, s1) \<and>
           buildHasteMap e fileMap s1 = (Inr h', s2) \<and>
           pub = publish e h'"
  using assms
  by (auto simp: pipeline_def split: prod.splits sum.splits dest: persist_result)

lemma pipeline_cells:
  assumes "pipeline e s = (Inr pub, s')"
      and "buildFileMap e s = (Inr fileMap, s1)"
      and "throwOnModuleCollision (hm_options s)"
      and "(i, pl, pth) \<in> set (built_cells e fileMap s1)"
    shows "\<exists>md. cell (props (moduleMap_map pub)) i pl = Some md \<and> mm_path md = pth"
proof -
  obtain h' s2 where b: "buildHasteMap e fileMap s1 = (Inr h', s2)" and p: "pub = publish e h'"
    using pipeline_success[OF assms(1)] assms(2) by auto
  have "throwOnModuleCollision (hm_options s1)"
    using buildFileMap_frame(1)[OF assms(2)] assms(3) by simp
  from buildHasteMap_cells[OF b this assms(4)] p show ?thesis
    by (simp add: publish_def)
qed

section \<open>The example runs\<close>

lemma ex_env_sel:
  "sep ex_env = CHR ''/''"
  "path_join ex_env = (\<lambda>d f. d @ ''/'' @ f)"
  "md5_hex ex_env = (\<lambda>d. d)"
  "tmpdir ex_env = ''/tmp''"
  "VERSION ex_env = ''18.0.0''"
  "regexp ex_env = (\<lambda>src. Inr (\<lambda>p. str_includes p src))"
  "regexp_g ex_env = ex_regexp_g"
  "isTest ex_env = False"
  "getPlatformExtension ex_env = ex_platform"
  "basename_stem ex_env = ex_stem"
  "worker ex_env = ex_worker"
  "completion_order ex_env = (\<lambda>ps. ps)"
  "watchmanCrawl ex_env = (\<lambda>rs exts ign h. CrawlRejects (JsError ''Error'' ''watchman is not running''))"
  "nodeCrawl ex_env = (\<lambda>rs exts ign h. CrawlResolves h)"
  "canUseWatchman ex_env = False"
  "readFileSync ex_env = (\<lambda>p. Inl (JsError ''Error'' ''ENOENT''))"
  "json_parse ex_env = (\<lambda>c. Inl (JsError ''SyntaxError'' ''Unexpected end of input''))"
  "json_stringify ex_env = (\<lambda>h. ''{}'')"
  "writeFileSync ex_env = (\<lambda>p c. None)"
  by (simp_all add: ex_env_def)

lemma env_one_sel:
  "sep env_one = CHR ''/''"
  "isTest env_one = False"
  "getPlatformExtension env_one = ex_platform"
  "basename_stem env_one = ex_stem"
  "worker env_one = ex_worker"
  "completion_order env_one = (\<lambda>ps. ps)"
  "canUseWatchman env_one = False"
  "readFileSync env_one = (\<lambda>p. Inr ''cache'')"
  "json_parse env_one = (\<lambda>c. Inr cached_P)"
  "nodeCrawl env_one = (\<lambda>rs exts ign h.
              CrawlResolves (h\<lparr>files := (files h)\<lparr>props :=
                props (files h) @ [(''/src/a.js'', new_file)]\<rparr>\<rparr>))"
  "json_stringify env_one = (\<lambda>h. ''{}'')"
  "writeFileSync env_one = (\<lambda>p c. None)"
  by (simp_all add: env_one_def ex_env_sel)

lemma ex_options_sel:
  "cacheDirectory ex_options = ''/tmp''"
  "extensions ex_options = [''js'']"
  "ignorePattern ex_options = (\<lambda>lastIndex p. (False, lastIndex))"
  "maxWorkers ex_options = 1"
  "mocksPattern ex_options = None"
  "name ex_options = ''jest''"
  "platforms ex_options = [''ios'', ''android'']"
  "resetCache ex_options = False"
  "retainAllFiles ex_options = False"
  "roots ex_options = [''/src'']"
  "throwOnModuleCollision ex_options = True"
  "useWatchman ex_options = True"
  by (simp_all add: ex_options_def)

lemma ex_inst_sel:
  "hm_options ex_inst = ex_options"
  "cachePath ex_inst = ''/tmp/jest-cache''"
  "whitelist ex_inst = None"
  "buildPromise ex_inst = None"
  "workerPromise ex_inst = None"
  "workerFarm ex_inst = None"
  "events ex_inst = []"
  by (simp_all add: ex_inst_def)

lemmas sels = env_one_sel ex_options_sel ex_inst_sel

lemmas load_defs = buildFileMap_def load_cache_def read_hm_def parse_hm_def crawl_hm_def
    select_crawler_def run_crawler_def retry_def Let_def setPrototypeOf_null_def

lemmas build_defs = buildHasteMap_def scan_files_def visit_file_def getWorker_def
    worker_promise_def onFulfilled_def onRejected_def teardown_def setModule_def
    platform_of_def GENERIC_PLATFORM_def isNodeModulesDir_def Let_def
    object_create_null_def inherited_keys_def

lemmas small_defs = module_a_def module_b_def module_ios_def module_android_def
    new_file_def seen_P_def ex_worker_def ex_platform_def ex_stem_def item_P_def item_X_def

lemma run_one_crawl:
  "buildFileMap env_one ex_inst =
     (Inr crawled_one,
      ex_inst\<lparr>events :=
        [ReadFile ''/tmp/jest-cache'',
         CrawlCall NodeCrawl [''/src''] [''js'']
           (ignore_path env_one (ex_inst\<lparr>events := [ReadFile ''/tmp/jest-cache'']\<rparr>))
           (crawled_one\<lparr>files := \<lparr>proto = NullProto,
              props = [(''/src/P.ios.js'', seen_P), (''/src/P.android.js'', seen_P)]\<rparr>\<rparr>)]\<rparr>)"
  by (simp add: load_defs sels cached_P_def crawled_one_def)

lemma run_one_build:
  "fst (buildHasteMap env_one crawled_one (ex_inst\<lparr>events := E\<rparr>)) =
     Inr (crawled_one\<lparr>files := hasteFS published_one, map_tbl := moduleMap_map published_one\<rparr>)"
  by (simp add: build_defs sels small_defs crawled_one_def published_one_def)

lemma run_one_pipeline: "fst (pipeline env_one ex_inst) = Inr published_one"
proof -
  obtain s2 where b: "buildHasteMap env_one crawled_one (snd (buildFileMap env_one ex_inst)) =
      (Inr (crawled_one\<lparr>files := hasteFS published_one, map_tbl := moduleMap_map published_one\<rparr>), s2)"
    using run_one_build[of "events (snd (buildFileMap env_one ex_inst))"]
    by (cases "buildHasteMap env_one crawled_one (snd (buildFileMap env_one ex_inst))")
       (simp add: run_one_crawl)
  show ?thesis
    using b by (simp add: pipeline_def run_one_crawl persist_def publish_def sels Let_def
        crawled_one_def published_one_def)
qed

lemma run_one_cells:
  "built_cells env_one crawled_one (snd (buildFileMap env_one ex_inst)) =
     [(''P'', ''ios'', ''/src/P.ios.js''), (''P'', ''android'', ''/src/P.android.js''),
      (''P'', ''ios'', ''/src/P.ios.js''), (''P'', ''android'', ''/src/P.android.js''),
      (''X'', ''g'', ''/src/a.js'')]"
  by (simp add: run_one_crawl built_cells_def copied_cells_def installed_cells_def build_defs sels
      small_defs crawled_one_def)

section \<open>The cache loader\<close>

lemma createEmptyMap_tables:
  "props (clocks createEmptyMap) = []" "props (files createEmptyMap) = []"
  "props (map_tbl createEmptyMap) = []" "props (mocks createEmptyMap) = []"
  "observable_keys (clocks createEmptyMap) = {}" "observable_keys (files createEmptyMap) = {}"
  "observable_keys (map_tbl createEmptyMap) = {}" "observable_keys (mocks createEmptyMap) = {}"
  by (simp_all add: createEmptyMap_def object_create_null_def observable_keys_def inherited_keys_def)

lemma parse_hm_null_proto:
  assumes "parse_hm e content = Inr h"
  shows "proto (clocks h) = NullProto" "proto (files h) = NullProto"
    "proto (map_tbl h) = NullProto" "proto (mocks h) = NullProto"
  using assms by (auto simp: parse_hm_def setPrototypeOf_null_def split: sum.splits)

section \<open>The crawler dispatch\<close>

lemma retry_message_names:
  "sublist (err_message err) (retry_message err e2)"
  "sublist (err_message e2) (retry_message err e2)"
proof -
  show "sublist (err_message err) (retry_message err e2)"
    unfolding retry_message_def
    apply (rule sublist_in_right)
    apply (rule sublist_in_right)
    apply (rule sublist_in_right)
    apply (rule sublist_append_rightI)
    done
  show "sublist (err_message e2) (retry_message err e2)"
    unfolding retry_message_def
    apply (rule sublist_in_right)
    apply (rule sublist_in_right)
    apply (rule sublist_in_right)
    apply (rule sublist_in_right)
    apply (rule sublist_in_right)
    apply (rule sublist_in_right)
    apply (rule sublist_append_rightI)
    done
qed

lemma crawl_hm_watchman_fails:
  assumes "select_crawler e s = WatchmanCrawl"
      and "watchmanCrawl e (roots (hm_options s)) (extensions (hm_options s)) (ignore_path e s) h = CrawlThrows err \<or>
           watchmanCrawl e (roots (hm_options s)) (extensions (hm_options s)) (ignore_path e s) h = CrawlRejects err"
    shows "crawl_hm e s h =
             (case nodeCrawl e (roots (hm_options s)) (extensions (hm_options s)) (ignore_path e s) h of
                CrawlThrows e2 \<Rightarrow> Inl e2
              | CrawlRejects e2 \<Rightarrow> Inl (JsError ''Error'' (retry_message err e2))
              | CrawlResolves h2 \<Rightarrow> Inr h2,
              s\<lparr>events := events s @
                 [CrawlCall WatchmanCrawl (roots (hm_options s)) (extensions (hm_options s))
                    (ignore_path e s) h,
                  Warn (watchman_warning err),
                  CrawlCall NodeCrawl (roots (hm_options s)) (extensions (hm_options s))
                    (ignore_path e s) h]\<rparr>)"
  using assms
  by (auto simp: crawl_hm_def retry_def run_crawler_def Let_def split: crawl_outcome.splits)

lemma crawl_hm_node_fails:
  assumes "select_crawler e s = NodeCrawl"
      and "nodeCrawl e (roots (hm_options s)) (extensions (hm_options s)) (ignore_path e s) h = CrawlThrows err \<or>
           nodeCrawl e (roots (hm_options s)) (extensions (hm_options s)) (ignore_path e s) h = CrawlRejects err"
    shows "crawl_hm e s h =
             (Inl err,
              s\<lparr>events := events s @
                 [CrawlCall NodeCrawl (roots (hm_options s)) (extensions (hm_options s))
                    (ignore_path e s) h]\<rparr>)"
  using assms
  by (auto simp: crawl_hm_def retry_def run_crawler_def Let_def split: crawl_outcome.splits)

lemma env_watchman_sel:
  "canUseWatchman env_watchman = True"
  "watchmanCrawl env_watchman = (\<lambda>rs exts ign h. CrawlRejects (JsError ''Error'' ''watchman is not running''))"
  "nodeCrawl env_watchman = (\<lambda>rs exts ign h. CrawlRejects (JsError ''Error'' ''EACCES''))"
  by (simp_all add: env_watchman_def ex_env_sel)

section \<open>Worker errors\<close>

lemma map_fst_map_entry: "map fst (AList.map_entry k f xs) = map fst xs"
  by (induction xs) auto

lemma onFulfilled_key_list:
  assumes "onFulfilled e p metadata st = Inr st'"
  shows "map fst (bs_files st') = map fst (bs_files st)"
  using assms
  by (auto simp: onFulfilled_def Let_def map_fst_map_entry split: option.splits if_splits sum.splits)

lemma onFulfilled_keys:
  assumes "onFulfilled e p metadata st = Inr st'"
  shows "fst ` set (bs_files st') = fst ` set (bs_files st)"
  using onFulfilled_key_list[OF assms] by (metis set_map)

lemma run_callbacks_keys:
  "run_callbacks e ps st = (r, st') \<Longrightarrow> fst ` set (bs_files st') \<subseteq> fst ` set (bs_files st)"
proof (induction ps arbitrary: st)
  case Nil
  then show ?case by simp
next
  case (Cons p ps)
  show ?case
  proof (cases "worker_promise e p")
    case (Rejected err)
    then have "run_callbacks e ps (onRejected p st) = (r, st')"
      using Cons.prems by simp
    from Cons.IH[OF this] dom_delete_subset[of p "bs_files st"] show ?thesis by auto
  next
    case (Resolved metadata)
    show ?thesis
    proof (cases "onFulfilled e p metadata st")
      case (Inl err)
      then show ?thesis using Cons.prems Resolved by auto
    next
      case (Inr st1)
      then have "run_callbacks e ps st1 = (r, st')"
        using Cons.prems Resolved by simp
      from Cons.IH[OF this] onFulfilled_keys[OF Inr] show ?thesis by simp
    qed
  qed
qed

lemma run_callbacks_deleted:
  assumes "run_callbacks e ps st = (None, st')"
      and "p \<in> set ps" and "worker_promise e p = Rejected err"
    shows "p \<notin> fst ` set (bs_files st')"
  using assms
proof (induction ps arbitrary: st)
  case Nil
  then show ?case by simp
next
  case (Cons q ps)
  show ?case
  proof (cases "worker_promise e q")
    case (Rejected err')
    then have rest: "run_callbacks e ps (onRejected q st) = (None, st')"
      using Cons.prems(1) by simp
    show ?thesis
    proof (cases "p = q")
      case True
      have "p \<notin> fst ` set (bs_files (onRejected q st))"
        using True by (simp add: delete_notin_dom)
      with run_callbacks_keys[OF rest] show ?thesis by blast
    next
      case False
      then have "p \<in> set ps" using Cons.prems(2) by simp
      from Cons.IH[OF rest this Cons.prems(3)] show ?thesis .
    qed
  next
    case (Resolved metadata)
    then obtain st1 where "onFulfilled e q metadata st = Inr st1"
      and rest: "run_callbacks e ps st1 = (None, st')"
      using Cons.prems(1) by (auto split: sum.splits)
    have "p \<noteq> q" using Resolved Cons.prems(3) by auto
    then have "p \<in> set ps" using Cons.prems(2) by simp
    from Cons.IH[OF rest this Cons.prems(3)] show ?thesis .
  qed
qed

lemma onFulfilled_cong:
  assumes "bs_map st = bs_map st2" "bs_inst st = bs_inst st2" "bs_mocks st = bs_mocks st2"
  shows "(case onFulfilled e p metadata st of
            Inl err \<Rightarrow> onFulfilled e p metadata st2 = Inl err
          | Inr st1 \<Rightarrow> (\<exists>st3. onFulfilled e p metadata st2 = Inr st3 \<and> bs_map st1 = bs_map st3 \<and>
                              bs_inst st1 = bs_inst st3 \<and> bs_mocks st1 = bs_mocks st3))"
  using assms
  by (auto simp: onFulfilled_def Let_def split: option.splits sum.splits)

lemma run_callbacks_skip_rejected:
  assumes "bs_map st = bs_map st2" "bs_inst st = bs_inst st2" "bs_mocks st = bs_mocks st2"
  shows "fst (run_callbacks e ps st) = fst (run_callbacks e (filter (fulfilled e) ps) st2) \<and>
         bs_map (snd (run_callbacks e ps st)) = bs_map (snd (run_callbacks e (filter (fulfilled e) ps) st2)) \<and>
         bs_mocks (snd (run_callbacks e ps st)) = bs_mocks (snd (run_callbacks e (filter (fulfilled e) ps) st2)) \<and>
         bs_inst (snd (run_callbacks e ps st)) = bs_inst (snd (run_callbacks e (filter (fulfilled e) ps) st2))"
  using assms
proof (induction ps arbitrary: st st2)
  case Nil
  then show ?case by simp
next
  case (Cons p ps)
  show ?case
  proof (cases "worker_promise e p")
    case (Rejected err)
    have "bs_map (onRejected p st) = bs_map st2" "bs_inst (onRejected p st) = bs_inst st2"
      "bs_mocks (onRejected p st) = bs_mocks st2"
      using Cons.prems by simp_all
    from Cons.IH[OF this] Rejected show ?thesis by (simp add: fulfilled_def)
  next
    case (Resolved metadata)
    note cong = onFulfilled_cong[OF Cons.prems, of e p metadata]
    show ?thesis
    proof (cases "onFulfilled e p metadata st")
      case (Inl err)
      then have "onFulfilled e p metadata st2 = Inl err" using cong by simp
      then show ?thesis using Inl Resolved Cons.prems by (simp add: fulfilled_def)
    next
      case (Inr st1)
      then obtain st3 where st3: "onFulfilled e p metadata st2 = Inr st3" "bs_map st1 = bs_map st3"
        "bs_inst st1 = bs_inst st3" "bs_mocks st1 = bs_mocks st3"
        using cong by auto
      from Cons.IH[OF st3(2,3,4)] Inr st3(1) Resolved show ?thesis by (simp add: fulfilled_def)
    qed
  qed
qed

lemma inst_mocks_sel:
  "retainAllFiles (hm_options inst_mocks) = False"
  "mocksPattern (hm_options inst_mocks) = Some (\<lambda>p. str_includes p ''__mocks__'')"
  "maxWorkers (hm_options inst_mocks) = 1"
  "throwOnModuleCollision (hm_options inst_mocks) = True"
  "whitelist inst_mocks = None"
  "workerPromise inst_mocks = None"
  "workerFarm inst_mocks = None"
  "events inst_mocks = []"
  by (simp_all add: inst_mocks_def ex_inst_sel ex_options_sel)

lemma crawled_mock_sel:
  "files crawled_mock = \<lparr>proto = NullProto, props = [(''/src/__mocks__/m.js'', new_file)]\<rparr>"
  "props (map_tbl crawled_mock) = []"
  by (simp_all add: crawled_mock_def createEmptyMap_def object_create_null_def)

lemma run_mock_scan:
  "scan_files ex_env crawled_mock inst_mocks =
     \<lparr>bs_files = [(''/src/__mocks__/m.js'', new_file)], bs_map = [],
      bs_mocks = [(''m'', ''/src/__mocks__/m.js'')], bs_jobs = [''/src/__mocks__/m.js''],
      bs_inst = inst_mocks\<lparr>workerPromise := Some InProcess,
                            events := [Submit ''/src/__mocks__/m.js'']\<rparr>\<rparr>"
  by (simp add: scan_files_def visit_file_def getWorker_def Let_def isNodeModulesDir_def
      inst_mocks_sel crawled_mock_sel ex_env_sel ex_stem_def new_file_def)

lemma run_mock_worker:
  "worker_promise ex_env ''/src/__mocks__/m.js'' = Rejected (Some (JsError ''Error'' ''ENOENT''))"
  by (simp add: worker_promise_def ex_env_sel ex_worker_def)

lemma run_mock_build:
  "fst (buildHasteMap ex_env crawled_mock inst_mocks) =
     Inr (crawled_mock\<lparr>files := \<lparr>proto = NullProto, props = []\<rparr>,
                       map_tbl := \<lparr>proto = NullProto, props = []\<rparr>,
                       mocks := \<lparr>proto = NullProto, props = [(''m'', ''/src/__mocks__/m.js'')]\<rparr>\<rparr>)"
  by (simp add: buildHasteMap_def Let_def run_mock_scan run_mock_worker ex_env_sel onRejected_def
      crawled_mock_sel)

section \<open>The cache file path\<close>

lemma hash_update_all:
  "hash_update (map Some ts) h = Inr (h @ concat ts)"
  by (induction ts arbitrary: h) simp_all

lemma getCacheFilePath_strings:
  "getCacheFilePath e dir nm (map Some ts) =
     Inr (path_join e dir (replace_nonword nm @ ''-'' @ md5_hex e (nm @ concat ts)))"
  using hash_update_all[of "nm # ts" "[]"] by (simp add: getCacheFilePath_def)

lemma replace_nonword_chars:
  "length (replace_nonword n) = length n"
  "c \<in> set (replace_nonword n) \<Longrightarrow> word_char c \<or> c = CHR ''-''"
  by (auto simp: replace_nonword_def)

lemma same_length_suffix:
  assumes "a @ x = b @ y" "length x = length y"
  shows "x = y"
  using assms by (metis append_eq_append_conv)

lemma uo_sel:
  "u_cacheDirectory uo_one = Some ''/tmp''" "u_cacheDirectory uo_two = Some ''/tmp''"
  "u_name uo_one = ''jest''" "u_name uo_two = ''jest''"
  "u_roots uo_one = [''/src'']" "u_roots uo_two = [''/srcj'']"
  "u_extensions uo_one = [''js'', ''json'']" "u_extensions uo_two = [''s'', ''json'']"
  "u_platforms uo_one = [''ios'', ''android'']" "u_platforms uo_two = [''ios'', ''android'']"
  "u_mocksPattern uo_one = Some ''__mocks__''" "u_mocksPattern uo_two = Some ''__mocks__''"
  by (simp_all add: uo_one_def uo_two_def)

lemma internal_options_sel:
  "cacheDirectory (internal_options e u) =
     (case u_cacheDirectory u of None \<Rightarrow> tmpdir e | Some d \<Rightarrow> if d = [] then tmpdir e else d)"
  "name (internal_options e u) = u_name u"
  "roots (internal_options e u) = u_roots u"
  "extensions (internal_options e u) = u_extensions u"
  "platforms (internal_options e u) = u_platforms u"
  by (simp_all add: internal_options_def)

lemma constructor_cachePath_mocks:
  assumes "u_mocksPattern u = Some mp"
  shows "constructor_cachePath e u =
     Inr (path_join e (cacheDirectory (internal_options e u))
       (replace_nonword (u_name u) @ ''-'' @
        md5_hex e (u_name u @ VERSION e @ join_colon (u_roots u) @ join_colon (u_extensions u) @
                   join_colon (u_platforms u) @ mp)))"
  using getCacheFilePath_strings[of e "cacheDirectory (internal_options e u)" "u_name u"
      "[VERSION e, join_colon (u_roots u), join_colon (u_extensions u), join_colon (u_platforms u), mp]"]
    assms
  by (simp add: constructor_cachePath_def Let_def internal_options_sel)

section \<open>The whitelist\<close>

lemma NODE_MODULES_length [simp]: "length (NODE_MODULES e) = 14"
  by (simp add: NODE_MODULES_def)

lemma NODE_MODULES_not_Nil [simp]: "NODE_MODULES e \<noteq> []"
  by (simp add: NODE_MODULES_def)

lemma match_at_Some_prefix: "match_at (NODE_MODULES e) (sep e) names s = Some k \<Longrightarrow> prefix (NODE_MODULES e) s"
  by (auto simp: match_at_def split: if_splits)

lemma occurrences_Nil_tail:
  "occurrences needle (c # cs) = [] \<Longrightarrow> occurrences needle cs = []"
  by (auto split: if_splits)

lemma occurrences_Nil_drop:
  "occurrences needle s = [] \<Longrightarrow> occurrences needle (drop k s) = []"
proof (induction k arbitrary: s)
  case 0
  then show ?case by simp
next
  case (Suc k)
  then show ?case
    by (cases s) (auto split: if_splits)
qed

lemma match_count_no_occurrence:
  "occurrences (NODE_MODULES e) s = [] \<Longrightarrow> match_count (NODE_MODULES e) (sep e) names s = 0"
proof (induction s)
  case Nil
  then show ?case by simp
next
  case (Cons c cs)
  have "\<not> prefix (NODE_MODULES e) (c # cs)"
    using Cons.prems by (auto split: if_splits)
  then have "match_at (NODE_MODULES e) (sep e) names (c # cs) = None"
    by (simp add: match_at_def)
  moreover have "occurrences (NODE_MODULES e) cs = []"
    using Cons.prems by (rule occurrences_Nil_tail)
  ultimately show ?case using Cons.IH by simp
qed

lemma first_name_single:
  assumes "sp \<notin> set n" "\<forall>m \<in> set names. sp \<notin> set m"
  shows "first_name sp names (n @ sp # rest) = (if n \<in> set names then Some n else None)"
  using assms(2)
proof (induction names)
  case Nil
  then show ?case by simp
next
  case (Cons m names)
  have m_free: "sp \<notin> set m" using Cons.prems by simp
  have qualifies: "(prefix m (n @ sp # rest) \<and>
      (case drop (length m) (n @ sp # rest) of [] \<Rightarrow> True | c # _ \<Rightarrow> c = sp)) \<longleftrightarrow> m = n"
  proof
    assume q: "prefix m (n @ sp # rest) \<and>
      (case drop (length m) (n @ sp # rest) of [] \<Rightarrow> True | c # _ \<Rightarrow> c = sp)"
    show "m = n"
    proof (rule ccontr)
      assume neq: "m \<noteq> n"
      consider (shorter) "length m < length n" | (same) "length m = length n"
        | (longer) "length m > length n" by linarith
      then show False
      proof cases
        case shorter
        then have "drop (length m) (n @ sp # rest) = (n ! length m) # drop (Suc (length m)) n @ sp # rest"
          by (simp add: Cons_nth_drop_Suc)
        then have "n ! length m = sp" using q by simp
        then show False using assms(1) shorter by (metis nth_mem)
      next
        case same
        have "m = take (length m) (n @ sp # rest)"
          using q by (metis append_eq_conv_conj prefix_def)
        then show False using same neq by simp
      next
        case longer
        have "m = take (length m) (n @ sp # rest)"
          using q by (metis append_eq_conv_conj prefix_def)
        then have "m ! length n = (n @ sp # rest) ! length n"
          using longer by (metis nth_take)
        then have "m ! length n = sp" by simp
        then show False using m_free longer by (metis nth_mem)
      qed
    qed
  next
    assume "m = n"
    then show "prefix m (n @ sp # rest) \<and>
      (case drop (length m) (n @ sp # rest) of [] \<Rightarrow> True | c # _ \<Rightarrow> c = sp)"
      by simp
  qed
  show ?case
  proof (cases "m = n")
    case True
    then show ?thesis using qualifies by simp
  next
    case False
    then show ?thesis using qualifies Cons by auto
  qed
qed

lemma match_count_skip:
  assumes "\<forall>i < length pre. \<not> prefix (NODE_MODULES e) (drop i (pre @ s))"
  shows "match_count (NODE_MODULES e) (sep e) names (pre @ s) = match_count (NODE_MODULES e) (sep e) names s"
  using assms
proof (induction pre)
  case Nil
  then show ?case by simp
next
  case (Cons c pre)
  have "\<not> prefix (NODE_MODULES e) (c # pre @ s)"
    using Cons.prems by force
  then have none: "match_at (NODE_MODULES e) (sep e) names (c # pre @ s) = None"
    by (simp add: match_at_def)
  have "\<forall>i < length pre. \<not> prefix (NODE_MODULES e) (drop i (pre @ s))"
  proof (intro allI impI)
    fix i assume "i < length pre"
    then have "\<not> prefix (NODE_MODULES e) (drop (Suc i) ((c # pre) @ s))"
      using Cons.prems by (metis Suc_less_eq length_Cons)
    then show "\<not> prefix (NODE_MODULES e) (drop i (pre @ s))" by simp
  qed
  from Cons.IH[OF this] none show ?case by simp
qed

lemma occurrences_positions:
  "i \<in> set (occurrences needle s) \<longleftrightarrow> i \<le> length s \<and> prefix needle (drop i s)"
proof (induction s arbitrary: i)
  case Nil
  then show ?case by auto
next
  case (Cons c cs)
  show ?case
  proof (cases i)
    case 0
    then show ?thesis by auto
  next
    case (Suc j)
    then show ?thesis using Cons.IH[of j] by auto
  qed
qed

lemma occurrences_empty_iff:
  "occurrences needle s = [] \<longleftrightarrow> (\<forall>i \<le> length s. \<not> prefix needle (drop i s))"
proof -
  have "occurrences needle s = [] \<longleftrightarrow> set (occurrences needle s) = {}" by simp
  also have "\<dots> \<longleftrightarrow> (\<forall>i. i \<notin> set (occurrences needle s))" by auto
  also have "\<dots> \<longleftrightarrow> (\<forall>i \<le> length s. \<not> prefix needle (drop i s))"
    by (simp add: occurrences_positions)
  finally show ?thesis .
qed

lemma match_count_single:
  assumes p: "p = pre @ NODE_MODULES e @ n @ sep e # rest"
      and occ: "occurrences (NODE_MODULES e) p = [length pre]"
      and n: "sep e \<notin> set n"
      and names: "\<forall>m \<in> set names. sep e \<notin> set m"
    shows "match_count (NODE_MODULES e) (sep e) names p = (if n \<in> set names then 1 else 0)"
proof -
  let ?NM = "NODE_MODULES e"
  let ?t = "?NM @ n @ sep e # rest"
  have only: "i \<le> length p \<and> prefix ?NM (drop i p) \<longleftrightarrow> i = length pre" for i
    using occurrences_positions[of i ?NM p] occ by simp
  have before: "\<forall>i < length pre. \<not> prefix ?NM (drop i (pre @ ?t))"
  proof (intro allI impI)
    fix i assume i: "i < length pre"
    then have "i \<le> length p" using p by simp
    then show "\<not> prefix ?NM (drop i (pre @ ?t))"
      using only[of i] i p by auto
  qed
  have skip: "match_count (NODE_MODULES e) (sep e) names p = match_count (NODE_MODULES e) (sep e) names ?t"
    unfolding p by (rule match_count_skip[OF before])
  obtain cs where cs: "?t = sep e # cs"
    by (simp add: NODE_MODULES_def)
  have after: "occurrences ?NM cs = []"
    unfolding occurrences_empty_iff
  proof (intro allI impI)
    fix j assume j: "j \<le> length cs"
    have "drop (length pre + Suc j) p = drop j cs"
      using p cs by (metis append_eq_conv_conj drop_Suc_Cons drop_drop add.commute)
    moreover have "length pre + Suc j \<le> length p"
      using j p cs by (metis add_le_cancel_left length_Cons length_append Suc_le_mono)
    ultimately show "\<not> prefix ?NM (drop j cs)"
      using only[of "length pre + Suc j"] by auto
  qed
  have d: "drop (length ?NM) ?t = n @ sep e # rest" by simp
  have at: "match_at (NODE_MODULES e) (sep e) names ?t =
      (if n \<in> set names then Some (length ?NM + length n) else None)"
    using first_name_single[OF n names, of rest]
    by (simp add: match_at_def d del: NODE_MODULES_length)
  have rest0: "match_count (NODE_MODULES e) (sep e) names (drop k cs) = 0" for k
    by (rule match_count_no_occurrence) (rule occurrences_Nil_drop[OF after])
  have "match_count (NODE_MODULES e) (sep e) names (sep e # cs) = (if n \<in> set names then 1 else 0)"
    using at rest0[of 0] rest0 unfolding cs by simp
  then show ?thesis using skip cs by simp
qed

lemma inst_whitelist_sel:
  "whitelist inst_whitelist = Some (match_count ''/node_modules/'' CHR ''/'' [''react'', ''fbjs''])"
  "hm_options inst_whitelist = ex_options"
  by (simp_all add: inst_whitelist_def ex_inst_sel)

lemma NODE_MODULES_ex: "NODE_MODULES ex_env = ''/node_modules/''"
  by (simp add: NODE_MODULES_def ex_env_sel)

lemma match_at_ex:
  "match_at ''/node_modules/'' CHR ''/'' names s =
     (if prefix ''/node_modules/'' s then
        (case first_name CHR ''/'' names (drop 14 s) of
           None \<Rightarrow> None
         | Some n \<Rightarrow> Some (14 + length n))
      else None)"
  by (simp add: match_at_def eval_nat_numeral cong: option.case_cong)

lemma count_nested:
  "match_count ''/node_modules/'' CHR ''/'' [''react'', ''fbjs'']
     ''/app/node_modules/react/node_modules/fbjs/index.js'' = 2"
  by (simp add: match_at_ex)

lemma count_single:
  "match_count ''/node_modules/'' CHR ''/'' [''react'', ''fbjs'']
     ''/app/node_modules/react/index.js'' = 1"
  by (simp add: match_at_ex)

lemma count_foreign:
  "match_count ''/node_modules/'' CHR ''/'' [''react'', ''fbjs'']
     ''/app/node_modules/react/node_modules/left-pad/index.js'' = 1"
  by (simp add: match_at_ex)

lemma ex_nested_ignored:
  "isNodeModulesDir ex_env inst_whitelist ''/app/node_modules/react/node_modules/fbjs/index.js''"
  by (simp add: isNodeModulesDir_def inst_whitelist_sel count_nested NODE_MODULES_ex
      del: match_count.simps)

lemma ex_single_kept:
  "\<not> isNodeModulesDir ex_env inst_whitelist ''/app/node_modules/react/index.js''"
  by (simp add: isNodeModulesDir_def inst_whitelist_sel count_single NODE_MODULES_ex
      del: match_count.simps)

lemma ex_foreign_kept:
  "\<not> isNodeModulesDir ex_env inst_whitelist ''/app/node_modules/react/node_modules/left-pad/index.js''"
  by (simp add: isNodeModulesDir_def inst_whitelist_sel count_foreign NODE_MODULES_ex
      del: match_count.simps)

lemma whitelist_source_ex:
  "whitelist_source ex_env [''react'', ''fbjs''] = ''(/node_modules/(?:react|fbjs)(?=$|/))''"
  by (simp add: whitelist_source_def escapePathSeparator_def NODE_MODULES_ex ex_env_sel)

lemma getWhiteList_ex:
  "getWhiteList ex_env (Some [''react'', ''fbjs'']) =
     Inr (Some (match_count ''/node_modules/'' CHR ''/'' [''react'', ''fbjs'']))"
  by (simp add: getWhiteList_def whitelist_source_ex ex_env_sel ex_regexp_g_def)

section \<open>The shared build promise\<close>

lemma getWorker_frame [simp]:
  "hm_options (getWorker s) = hm_options s" "whitelist (getWorker s) = whitelist s"
  "cachePath (getWorker s) = cachePath s" "buildPromise (getWorker s) = buildPromise s"
  by (simp_all add: getWorker_def split: option.splits)

lemma teardown_frame [simp]:
  "hm_options (teardown s) = hm_options s" "whitelist (teardown s) = whitelist s"
  "cachePath (teardown s) = cachePath s" "buildPromise (teardown s) = buildPromise s"
  "workerFarm (teardown s) = None" "workerPromise (teardown s) = None"
  by (simp_all add: teardown_def Let_def split: option.splits)

lemma teardown_events:
  "events (teardown s) =
     events s @ (case workerFarm s of None \<Rightarrow> [] | Some f \<Rightarrow> [FarmEnd f])"
  by (simp add: teardown_def Let_def split: option.splits)

lemma teardown_idem: "teardown (teardown s) = teardown s"
  by (simp add: teardown_def Let_def split: option.splits)

lemma teardown_never_created:
  "workerFarm s = None \<Longrightarrow> teardown s = s\<lparr>workerFarm := None, workerPromise := None\<rparr>"
  by (simp add: teardown_def)

lemma visit_file_promise [simp]:
  "buildPromise (bs_inst (visit_file e old entry st)) = buildPromise (bs_inst st)"
  "cachePath (bs_inst (visit_file e old entry st)) = cachePath (bs_inst st)"
  by (auto simp: visit_file_def Let_def split: option.splits)

lemma fold_visit_promise [simp]:
  "buildPromise (bs_inst (fold (visit_file e old) es st)) = buildPromise (bs_inst st)"
  "cachePath (bs_inst (fold (visit_file e old) es st)) = cachePath (bs_inst st)"
  by (induction es arbitrary: st) auto

lemma onFulfilled_promise:
  assumes "onFulfilled e p metadata st = Inr st'"
  shows "buildPromise (bs_inst st') = buildPromise (bs_inst st)"
    and "cachePath (bs_inst st') = cachePath (bs_inst st)"
  using assms
  by (auto simp: onFulfilled_def Let_def split: option.splits if_splits sum.splits)

lemma run_callbacks_promise:
  "run_callbacks e ps st = (r, st') \<Longrightarrow>
     buildPromise (bs_inst st') = buildPromise (bs_inst st) \<and>
     cachePath (bs_inst st') = cachePath (bs_inst st)"
proof (induction ps arbitrary: st)
  case Nil
  then show ?case by simp
next
  case (Cons p ps)
  then show ?case
    by (auto split: settled.splits sum.splits dest: onFulfilled_promise)
qed

lemma buildHasteMap_promise:
  assumes "buildHasteMap e h s = (r, s')"
  shows "buildPromise s' = buildPromise s"
proof -
  obtain r1 st1 where run: "run_callbacks e (completion_order e (bs_jobs (scan_files e h s)))
      (scan_files e h s) = (r1, st1)"
    by (cases "run_callbacks e (completion_order e (bs_jobs (scan_files e h s))) (scan_files e h s)")
  have "buildPromise (bs_inst st1) = buildPromise s"
    using run_callbacks_promise[OF run] by (simp add: scan_files_def)
  then show ?thesis
    using assms run by (cases r1) (auto simp: buildHasteMap_def Let_def)
qed

lemma persist_promise:
  "persist e h s = (r, s') \<Longrightarrow> buildPromise s' = buildPromise s"
  by (auto simp: persist_def Let_def split: option.splits)

lemma pipeline_promise:
  assumes "pipeline e s = (r, s')"
  shows "buildPromise s' = buildPromise s"
proof -
  obtain r1 s1 where f: "buildFileMap e s = (r1, s1)" by (cases "buildFileMap e s")
  note p1 = buildFileMap_frame(4)[OF f]
  show ?thesis
  proof (cases r1)
    case (Inl err)
    then show ?thesis using assms f p1 by (simp add: pipeline_def)
  next
    case (Inr fileMap)
    obtain r2 s2 where b: "buildHasteMap e fileMap s1 = (r2, s2)"
      by (cases "buildHasteMap e fileMap s1")
    note p2 = buildHasteMap_promise[OF b]
    show ?thesis
    proof (cases r2)
      case (Inl err)
      then show ?thesis using assms f b Inr p1 p2 by (simp add: pipeline_def)
    next
      case (Inr h)
      obtain r3 s3 where w: "persist e h s2 = (r3, s3)" by (cases "persist e h s2")
      note p3 = persist_promise[OF w]
      show ?thesis
        using assms f b w \<open>r1 = Inr fileMap\<close> Inr p1 p2 p3
        by (cases r3) (simp_all add: pipeline_def)
    qed
  qed
qed

lemma settle_frame [simp]:
  "buildPromise (the_inst (settle e w)) = buildPromise (the_inst w)"
  "started (settle e w) = started w"
  by (auto simp: settle_def split: option.splits prod.splits dest: pipeline_promise)

lemma build_latched:
  "buildPromise (the_inst w) = Some p \<Longrightarrow> build w = (p, w)"
  by (simp add: build_def)

lemma build_first:
  "buildPromise (the_inst w) = None \<Longrightarrow>
     build w = (started w,
                w\<lparr>the_inst := (the_inst w)\<lparr>buildPromise := Some (started w)\<rparr>,
                  started := Suc (started w)\<rparr>)"
  by (simp add: build_def)

lemma run_steps_latched:
  assumes "buildPromise (the_inst w) = Some p" "run_steps e ks w = (ps, w')"
  shows "set ps \<subseteq> {p} \<and> buildPromise (the_inst w') = Some p \<and> started w' = started w"
  using assms
proof (induction ks arbitrary: w ps)
  case Nil
  then show ?case by simp
next
  case (Cons k ks)
  show ?case
  proof (cases k)
    case CallBuild
    then obtain ps1 where r: "run_steps e ks w = (ps1, w')" and ps: "ps = p # ps1"
      using Cons.prems by (auto simp: build_latched split: prod.splits)
    from Cons.IH[OF Cons.prems(1) r] ps show ?thesis by simp
  next
    case RunEventLoop
    then have r: "run_steps e ks (settle e w) = (ps, w')"
      using Cons.prems by simp
    have "buildPromise (the_inst (settle e w)) = Some p"
      using Cons.prems(1) by simp
    from Cons.IH[OF this r] show ?thesis by simp
  qed
qed

lemma settle_idle:
  "buildPromise (the_inst w) = None \<Longrightarrow> settle e w = w"
  by (simp add: settle_def)

lemma run_steps_fresh:
  assumes "buildPromise (the_inst w) = None" "run_steps e ks w = (ps, w')"
  shows "set ps \<subseteq> {started w} \<and>
         started w' = (if CallBuild \<in> set ks then Suc (started w) else started w) \<and>
         buildPromise (the_inst w') = (if CallBuild \<in> set ks then Some (started w) else None)"
  using assms
proof (induction ks arbitrary: ps)
  case Nil
  then show ?case by simp
next
  case (Cons k ks)
  show ?case
  proof (cases k)
    case CallBuild
    let ?w1 = "w\<lparr>the_inst := (the_inst w)\<lparr>buildPromise := Some (started w)\<rparr>,
                  started := Suc (started w)\<rparr>"
    obtain ps1 where r: "run_steps e ks ?w1 = (ps1, w')" and ps: "ps = started w # ps1"
      using Cons.prems CallBuild by (auto simp: build_first split: prod.splits)
    have "buildPromise (the_inst ?w1) = Some (started w)" by simp
    from run_steps_latched[OF this r] ps CallBuild show ?thesis by simp
  next
    case RunEventLoop
    then have "run_steps e ks w = (ps, w')"
      using Cons.prems by (simp add: settle_idle)
    from Cons.IH[OF Cons.prems(1) this] RunEventLoop show ?thesis by simp
  qed
qed

lemma run_steps_length:
  "run_steps e ks w = (ps, w') \<Longrightarrow> length ps = length (filter (\<lambda>k. k = CallBuild) ks)"
proof (induction ks arbitrary: w ps)
  case Nil
  then show ?case by simp
next
  case (Cons k ks)
  then show ?case by (cases k) (auto split: prod.splits)
qed

lemma settle_pending:
  assumes "buildPromise (the_inst w) = Some p" "map_of (outcomes w) p = None"
  shows "settle e w =
           w\<lparr>the_inst := snd (pipeline e (the_inst w)),
             outcomes := outcomes w @ [(p, fst (pipeline e (the_inst w)))]\<rparr>"
  using assms by (simp add: settle_def split: prod.splits)

lemma settle_settled:
  assumes "buildPromise (the_inst w) = Some p" "map_of (outcomes w) p = Some r"
  shows "settle e w = w"
  using assms by (simp add: settle_def)

lemma settle_single:
  assumes "buildPromise (the_inst w) = Some p"
      and "outcomes w = [] \<or> (\<exists>r. outcomes w = [(p, r)])"
    shows "\<exists>r. outcomes (settle e w) = [(p, r)]"
  using assms
  by (auto simp: settle_pending settle_settled)

lemma run_steps_single_latched:
  assumes "buildPromise (the_inst w) = Some p"
      and "outcomes w = [] \<or> (\<exists>r. outcomes w = [(p, r)])"
      and "run_steps e ks w = (ps, w')"
    shows "outcomes w' = [] \<or> (\<exists>r. outcomes w' = [(p, r)])"
  using assms
proof (induction ks arbitrary: w ps)
  case Nil
  then show ?case by simp
next
  case (Cons k ks)
  show ?case
  proof (cases k)
    case CallBuild
    then obtain ps1 where r: "run_steps e ks w = (ps1, w')"
      using Cons.prems by (auto simp: build_latched split: prod.splits)
    from Cons.IH[OF Cons.prems(1,2) r] show ?thesis .
  next
    case RunEventLoop
    then have r: "run_steps e ks (settle e w) = (ps, w')"
      using Cons.prems by simp
    have 1: "buildPromise (the_inst (settle e w)) = Some p"
      using Cons.prems(1) by simp
    have 2: "outcomes (settle e w) = [] \<or> (\<exists>r. outcomes (settle e w) = [(p, r)])"
      using settle_single[OF Cons.prems(1,2)] by blast
    from Cons.IH[OF 1 2 r] show ?thesis .
  qed
qed

lemma run_steps_single_fresh:
  assumes "buildPromise (the_inst w) = None" "outcomes w = []" "run_steps e ks w = (ps, w')"
  shows "length (outcomes w') \<le> 1"
  using assms
proof (induction ks arbitrary: ps)
  case Nil
  then show ?case by simp
next
  case (Cons k ks)
  show ?case
  proof (cases k)
    case CallBuild
    let ?w1 = "w\<lparr>the_inst := (the_inst w)\<lparr>buildPromise := Some (started w)\<rparr>,
                  started := Suc (started w)\<rparr>"
    obtain ps1 where r: "run_steps e ks ?w1 = (ps1, w')"
      using Cons.prems CallBuild by (auto simp: build_first split: prod.splits)
    have 1: "buildPromise (the_inst ?w1) = Some (started w)" by simp
    have 2: "outcomes ?w1 = [] \<or> (\<exists>r. outcomes ?w1 = [(started w, r)])"
      using Cons.prems(2) by simp
    from run_steps_single_latched[OF 1 2 r] show ?thesis by auto
  next
    case RunEventLoop
    then have "run_steps e ks w = (ps, w')"
      using Cons.prems by (simp add: settle_idle)
    from Cons.IH[OF Cons.prems(1,2) this] show ?thesis .
  qed
qed

lemma run_steps_settled:
  assumes "buildPromise (the_inst w) = Some p" "map_of (outcomes w) p = Some r"
  shows "run_steps e ks w = (replicate (length (filter (\<lambda>k. k = CallBuild) ks)) p, w)"
proof (induction ks)
  case Nil
  then show ?case by simp
next
  case (Cons k ks)
  then show ?case
    using assms by (cases k) (simp_all add: build_latched settle_settled)
qed

lemma all_equal_replicate:
  "set ps \<subseteq> {p} \<Longrightarrow> ps = replicate (length ps) p"
  by (induction ps) auto

lemma new_session_sel [simp]:
  "the_inst (new_session s) = s" "started (new_session s) = 0" "outcomes (new_session s) = []"
  by (simp_all add: new_session_def)

lemma run_watchman_pipeline:
  assumes "hm_options s = ex_options"
  shows "fst (pipeline env_watchman s) =
     Inl (JsError ''Error''
       (retry_message (JsError ''Error'' ''watchman is not running'') (JsError ''Error'' ''EACCES'')))"
proof -
  have sel: "canUseWatchman env_watchman" "readFileSync env_watchman = (\<lambda>p. Inl (JsError ''Error'' ''ENOENT''))"
    "watchmanCrawl env_watchman = (\<lambda>rs exts ign h. CrawlRejects (JsError ''Error'' ''watchman is not running''))"
    "nodeCrawl env_watchman = (\<lambda>rs exts ign h. CrawlRejects (JsError ''Error'' ''EACCES''))"
    by (simp_all add: env_watchman_def ex_env_sel)
  show ?thesis
    by (simp add: pipeline_def buildFileMap_def load_cache_def read_hm_def crawl_hm_def
        retry_def run_crawler_def select_crawler_def Let_def sel assms ex_options_sel)
qed

section \<open>Teardown of the worker farm\<close>

lemma buildHasteMap_success_teardown:
  assumes "buildHasteMap e h s = (Inr h', s')"
  shows "workerFarm s' = None" "workerPromise s' = None"
  using buildHasteMap_success[OF assms] by auto

lemma inst_farm_sel:
  "hm_options inst_farm = ex_options\<lparr>maxWorkers := 2\<rparr>"
  "whitelist inst_farm = None" "workerPromise inst_farm = None" "workerFarm inst_farm = None"
  "events inst_farm = []"
  by (simp_all add: inst_farm_def ex_inst_sel)

lemma crawled_ab_sel:
  "files crawled_ab =
     \<lparr>proto = NullProto, props = [(''/src/a.js'', new_file), (''/src/b.js'', new_file)]\<rparr>"
  "props (map_tbl crawled_ab) = []"
  by (simp_all add: crawled_ab_def createEmptyMap_def object_create_null_def)

lemma run_farm_scan:
  "scan_files ex_env crawled_ab inst_farm =
     \<lparr>bs_files = [(''/src/a.js'', new_file), (''/src/b.js'', new_file)], bs_map = [],
      bs_mocks = [], bs_jobs = [''/src/a.js'', ''/src/b.js''],
      bs_inst = inst_farm\<lparr>workerFarm := Some (Farm 2), workerPromise := Some Farmed,
                           events := [FarmCreate 2, Submit ''/src/a.js'', Submit ''/src/b.js'']\<rparr>\<rparr>"
  by (simp add: scan_files_def visit_file_def getWorker_def Let_def isNodeModulesDir_def
      inst_farm_sel crawled_ab_sel ex_options_sel new_file_def)

lemma run_farm_callbacks:
  "run_callbacks ex_env [''/src/a.js'', ''/src/b.js'']
     \<lparr>bs_files = [(''/src/a.js'', new_file), (''/src/b.js'', new_file)], bs_map = [],
      bs_mocks = [], bs_jobs = [''/src/a.js'', ''/src/b.js''],
      bs_inst = inst_farm\<lparr>workerFarm := Some (Farm 2), workerPromise := Some Farmed,
                           events := [FarmCreate 2, Submit ''/src/a.js'', Submit ''/src/b.js'']\<rparr>\<rparr> =
   (Some (JsError ''Error'' (collision_message True ''X'' ''/src/b.js'' ''/src/a.js'')),
    \<lparr>bs_files = [(''/src/a.js'', \<lparr>fm_id = ''X'', fm_mtime = 0, fm_visited = 1,
                                   fm_dependencies = []\<rparr>), (''/src/b.js'', new_file)],
      bs_map = [(''X'', item_X)],
      bs_mocks = [], bs_jobs = [''/src/a.js'', ''/src/b.js''],
      bs_inst = inst_farm\<lparr>workerFarm := Some (Farm 2), workerPromise := Some Farmed,
                           events := [FarmCreate 2, Submit ''/src/a.js'', Submit ''/src/b.js'']\<rparr>\<rparr>)"
  by (simp add: worker_promise_def onFulfilled_def setModule_def platform_of_def Let_def
      GENERIC_PLATFORM_def ex_env_sel ex_worker_def ex_platform_def inst_farm_sel ex_options_sel
      module_a_def module_b_def new_file_def item_X_def object_create_null_def inherited_keys_def)

section \<open>Teardown and failure\<close>

lemma run_callbacks_farm:
  "run_callbacks e ps st = (r, st') \<Longrightarrow>
     workerFarm (bs_inst st') = workerFarm (bs_inst st) \<and>
     workerPromise (bs_inst st') = workerPromise (bs_inst st) \<and>
     filter (\<lambda>ev. \<exists>f. ev = FarmEnd f) (events (bs_inst st')) =
       filter (\<lambda>ev. \<exists>f. ev = FarmEnd f) (events (bs_inst st))"
proof (induction ps arbitrary: st)
  case Nil
  then show ?case by simp
next
  case (Cons p ps)
  show ?case
  proof (cases "worker_promise e p")
    case (Rejected err)
    then have "run_callbacks e ps (onRejected p st) = (r, st')"
      using Cons.prems by simp
    from Cons.IH[OF this] show ?thesis by simp
  next
    case (Resolved metadata)
    show ?thesis
    proof (cases "onFulfilled e p metadata st")
      case (Inl err)
      then show ?thesis using Cons.prems Resolved by auto
    next
      case (Inr st1)
      then have rest: "run_callbacks e ps st1 = (r, st')"
        using Cons.prems Resolved by simp
      have ev: "filter (\<lambda>ev. \<exists>f. ev = FarmEnd f) (events (bs_inst st1)) =
          filter (\<lambda>ev. \<exists>f. ev = FarmEnd f) (events (bs_inst st))"
        using Inr
        by (auto simp: onFulfilled_def setModule_def Let_def
            split: option.splits if_splits sum.splits)
      from Cons.IH[OF rest] onFulfilled_frame(3,4)[OF Inr] ev show ?thesis by simp
    qed
  qed
qed

lemma buildHasteMap_failure_keeps_farm:
  assumes "buildHasteMap e h s = (Inl err, s')"
  shows "workerFarm s' = workerFarm (bs_inst (scan_files e h s))"
    and "filter (\<lambda>ev. \<exists>f. ev = FarmEnd f) (events s') =
         filter (\<lambda>ev. \<exists>f. ev = FarmEnd f) (events (bs_inst (scan_files e h s)))"
proof -
  obtain r1 st1 where run: "run_callbacks e (completion_order e (bs_jobs (scan_files e h s)))
      (scan_files e h s) = (r1, st1)"
    by (cases "run_callbacks e (completion_order e (bs_jobs (scan_files e h s))) (scan_files e h s)")
  have s': "s' = bs_inst st1"
    using assms run by (cases r1) (auto simp: buildHasteMap_def Let_def)
  show "workerFarm s' = workerFarm (bs_inst (scan_files e h s))"
    using run_callbacks_farm[OF run] s' by simp
  show "filter (\<lambda>ev. \<exists>f. ev = FarmEnd f) (events s') =
         filter (\<lambda>ev. \<exists>f. ev = FarmEnd f) (events (bs_inst (scan_files e h s)))"
    using run_callbacks_farm[OF run] s' by simp
qed

lemma buildHasteMap_success_ends_farm:
  assumes "buildHasteMap e h s = (Inr h', s')"
  shows "\<exists>s1. s' = teardown s1 \<and>
           events s' = events s1 @ (case workerFarm s1 of None \<Rightarrow> [] | Some f \<Rightarrow> [FarmEnd f])"
  using buildHasteMap_success[OF assms] teardown_events by blast

subsection \<open>A throwing installer rejects the build\<close>

text \<open>
  An exception thrown by \<^verbatim>\<open>setModule\<close> inside a worker callback rejects that callback's
  promise, so \<^verbatim>\<open>Promise.all\<close> and with it the whole build reject with the same error. The
  fifth run shows it on two files that declare the same module.
\<close>

lemma run_callbacks_collision:
  assumes "worker_promise e p = Resolved metadata" "wm_id metadata \<noteq> []"
      and "wm_module metadata = Some md"
      and "cell (bs_map st) (wm_id metadata) (platform_of e (mm_path md)) = Some ex"
      and "mm_path ex \<noteq> mm_path md" "throwOnModuleCollision (hm_options (bs_inst st))"
    shows "run_callbacks e (p # ps) st =
             (Some (JsError ''Error''
                (collision_message True (wm_id metadata) (mm_path md) (mm_path ex))), st)"
  using assms setModule_throw[OF assms(4,5,6), of "events (bs_inst st)"]
  by (simp add: onFulfilled_def Let_def)

lemma pipeline_rejects_with_stage:
  assumes "buildFileMap e s = (Inr fileMap, s1)"
      and "fst (run_callbacks e (completion_order e (bs_jobs (scan_files e fileMap s1)))
             (scan_files e fileMap s1)) = Some err"
    shows "fst (pipeline e s) = Inl err"
  using assms
  by (cases "run_callbacks e (completion_order e (bs_jobs (scan_files e fileMap s1)))
             (scan_files e fileMap s1)")
     (simp add: pipeline_def buildHasteMap_def Let_def)

lemma env_ab_sel:
  "sep env_ab = CHR ''/''"
  "getPlatformExtension env_ab = ex_platform"
  "basename_stem env_ab = ex_stem"
  "worker env_ab = ex_worker"
  "completion_order env_ab = (\<lambda>ps. ps)"
  "canUseWatchman env_ab = False"
  "readFileSync env_ab = (\<lambda>p. Inl (JsError ''Error'' ''ENOENT''))"
  "nodeCrawl env_ab = (\<lambda>rs exts ign h. CrawlResolves crawled_ab)"
  by (simp_all add: env_ab_def ex_env_sel)

lemma run_ab_crawl:
  "buildFileMap env_ab ex_inst =
     (Inr crawled_ab,
      ex_inst\<lparr>events :=
        [ReadFile ''/tmp/jest-cache'',
         CrawlCall NodeCrawl [''/src''] [''js'']
           (ignore_path env_ab (ex_inst\<lparr>events := [ReadFile ''/tmp/jest-cache'']\<rparr>))
           createEmptyMap]\<rparr>)"
  by (simp add: load_defs env_ab_sel ex_inst_sel ex_options_sel)

lemma run_ab_scan:
  assumes "hm_options s = ex_options" "whitelist s = None" "workerPromise s = None"
  shows "scan_files env_ab crawled_ab s =
     \<lparr>bs_files = [(''/src/a.js'', new_file), (''/src/b.js'', new_file)], bs_map = [],
      bs_mocks = [], bs_jobs = [''/src/a.js'', ''/src/b.js''],
      bs_inst = s\<lparr>workerPromise := Some InProcess,
                   events := events s @ [Submit ''/src/a.js'', Submit ''/src/b.js'']\<rparr>\<rparr>"
  by (simp add: scan_files_def visit_file_def getWorker_def Let_def isNodeModulesDir_def
      assms crawled_ab_sel ex_options_sel new_file_def)

lemma run_ab_first:
  assumes "hm_options (bs_inst st) = ex_options" "bs_map st = []"
  shows "\<exists>st1. onFulfilled env_ab ''/src/a.js''
            \<lparr>wm_id = ''X'', wm_module = Some module_a, wm_dependencies = Some []\<rparr> st = Inr st1 \<and>
          bs_map st1 = [(''X'', item_X)] \<and> bs_inst st1 = bs_inst st"
  by (simp add: onFulfilled_def setModule_def platform_of_def Let_def GENERIC_PLATFORM_def
      assms env_ab_sel ex_options_sel ex_platform_def module_a_def item_X_def
      object_create_null_def inherited_keys_def)

lemma run_ab_workers:
  "worker_promise env_ab ''/src/a.js'' =
     Resolved \<lparr>wm_id = ''X'', wm_module = Some module_a, wm_dependencies = Some []\<rparr>"
  "worker_promise env_ab ''/src/b.js'' =
     Resolved \<lparr>wm_id = ''X'', wm_module = Some module_b, wm_dependencies = Some []\<rparr>"
  by (simp_all add: worker_promise_def env_ab_sel ex_worker_def)

subsection \<open>A build on the cache of a build that warned\<close>

lemma env_cached_ab_sel:
  "sep env_cached_ab = CHR ''/''"
  "isTest env_cached_ab = False"
  "getPlatformExtension env_cached_ab = ex_platform"
  "basename_stem env_cached_ab = ex_stem"
  "worker env_cached_ab = ex_worker"
  "completion_order env_cached_ab = (\<lambda>ps. ps)"
  "canUseWatchman env_cached_ab = False"
  "readFileSync env_cached_ab = (\<lambda>p. Inr ''cache'')"
  "json_parse env_cached_ab = (\<lambda>c. Inr cached_ab)"
  "nodeCrawl env_cached_ab = (\<lambda>rs exts ign h. CrawlResolves h)"
  "json_stringify env_cached_ab = (\<lambda>h. ''{}'')"
  "writeFileSync env_cached_ab = (\<lambda>p c. None)"
  by (simp_all add: env_cached_ab_def ex_env_sel)

lemma inst_warn_sel:
  "hm_options inst_warn = ex_options\<lparr>throwOnModuleCollision := False\<rparr>"
  "cachePath inst_warn = ''/tmp/jest-cache''"
  "whitelist inst_warn = None" "workerPromise inst_warn = None" "workerFarm inst_warn = None"
  "events inst_warn = []" "buildPromise inst_warn = None"
  by (simp_all add: inst_warn_def ex_inst_sel)

lemma run_warn_pipeline:
  "pipeline env_ab inst_warn =
     (Inr published_warn,
      inst_warn\<lparr>events :=
        [ReadFile ''/tmp/jest-cache'',
         CrawlCall NodeCrawl [''/src''] [''js'']
           (ignore_path env_ab (inst_warn\<lparr>events := [ReadFile ''/tmp/jest-cache'']\<rparr>))
           createEmptyMap,
         Submit ''/src/a.js'', Submit ''/src/b.js'',
         Warn (collision_message False ''X'' ''/src/b.js'' ''/src/a.js''),
         WriteFile ''/tmp/jest-cache'' ''{}'']\<rparr>)"
  by (simp add: pipeline_def load_defs build_defs persist_def publish_def env_ab_sel ex_env_sel
      env_ab_def inst_warn_sel ex_options_sel crawled_ab_sel crawled_ab_def createEmptyMap_def
      object_create_null_def small_defs published_warn_def seen_X_def)

lemma run_cached_pipeline:
  "pipeline env_cached_ab ex_inst =
     (Inr published_ab,
      ex_inst\<lparr>events :=
        [ReadFile ''/tmp/jest-cache'',
         CrawlCall NodeCrawl [''/src''] [''js'']
           (ignore_path env_cached_ab (ex_inst\<lparr>events := [ReadFile ''/tmp/jest-cache'']\<rparr>))
           (cached_ab\<lparr>clocks := \<lparr>proto = NullProto, props = []\<rparr>,
              files := \<lparr>proto = NullProto,
                        props = [(''/src/a.js'', seen_X), (''/src/b.js'', seen_X)]\<rparr>,
              map_tbl := \<lparr>proto = NullProto, props = [(''X'', item_X_parsed)]\<rparr>,
              mocks := \<lparr>proto = NullProto, props = []\<rparr>\<rparr>),
         WriteFile ''/tmp/jest-cache'' ''{}'']\<rparr>)"
  by (simp add: pipeline_def load_defs build_defs persist_def publish_def env_cached_ab_sel
      ex_inst_sel ex_options_sel cached_ab_def small_defs published_ab_def seen_X_def
      item_X_parsed_def)

subsection \<open>The cache path and the collision policy\<close>

lemma constructor_cachePath_policy:
  "constructor_cachePath e (u\<lparr>u_throwOnModuleCollision := b\<rparr>) = constructor_cachePath e u"
  by (simp add: constructor_cachePath_def internal_options_def compile_mocksPattern_def Let_def)

section \<open>Invariant I3 after a build on a consistent file map\<close>

lemma map_of_map_entry_id:
  "map_of (AList.map_entry k f xs) p =
     (if p = k then map_option f (map_of xs k) else map_of xs p)"
  by (induction xs) auto

lemma map_of_delete_id:
  "map_of (AList.delete k xs) p = (if p = k then None else map_of xs p)"
  by (simp add: delete_conv')

text \<open>The id a callback leaves in the record of a path.\<close>

lemma onFulfilled_record:
  assumes "onFulfilled e p0 metadata st = Inr st1"
  shows "map_of (bs_files st1) p =
     (if p = p0 then
        map_option (\<lambda>fm. fm\<lparr>fm_visited := 1,
             fm_id := (case wm_module metadata of
                         None \<Rightarrow> fm_id fm
                       | Some md \<Rightarrow> if wm_id metadata = [] then fm_id fm else wm_id metadata),
             fm_dependencies := (case wm_dependencies metadata of None \<Rightarrow> [] | Some ds \<Rightarrow> ds)\<rparr>)
          (map_of (bs_files st) p0)
      else map_of (bs_files st) p)"
  using assms
  by (auto simp: onFulfilled_def Let_def map_of_map_entry_id option.map_comp comp_def
      split: option.splits if_splits sum.splits)

lemma run_callbacks_record:
  assumes "run_callbacks e ps st = (r, st')"
      and "map_of (bs_files st') p = Some fp'" and "fm_id fp' \<noteq> []"
    shows "(\<exists>fp. map_of (bs_files st) p = Some fp \<and> fm_id fp = fm_id fp') \<or>
           (p \<in> set ps \<and> (\<exists>metadata md. worker_promise e p = Resolved metadata \<and>
               wm_module metadata = Some md \<and> wm_id metadata \<noteq> [] \<and>
               fm_id fp' = wm_id metadata))"
  using assms
proof (induction ps arbitrary: st)
  case Nil
  then show ?case by simp
next
  case (Cons p0 ps)
  show ?case
  proof (cases "worker_promise e p0")
    case (Rejected err)
    then have rest: "run_callbacks e ps (onRejected p0 st) = (r, st')"
      using Cons.prems(1) by simp
    from Cons.IH[OF rest Cons.prems(2,3)] show ?thesis
      by (auto simp: map_of_delete_id split: if_splits)
  next
    case (Resolved metadata)
    show ?thesis
    proof (cases "onFulfilled e p0 metadata st")
      case (Inl err)
      then have "st' = st" using Cons.prems(1) Resolved by simp
      then show ?thesis using Cons.prems(2,3) by simp
    next
      case (Inr st1)
      then have rest: "run_callbacks e ps st1 = (r, st')"
        using Cons.prems(1) Resolved by simp
      note rec = onFulfilled_record[OF Inr, of p]
      from Cons.IH[OF rest Cons.prems(2,3)] show ?thesis
      proof
        assume "\<exists>fp. map_of (bs_files st1) p = Some fp \<and> fm_id fp = fm_id fp'"
        then obtain fp1 where fp1: "map_of (bs_files st1) p = Some fp1" "fm_id fp1 = fm_id fp'"
          by blast
        show ?thesis
        proof (cases "p = p0")
          case False
          then show ?thesis using fp1 rec by simp
        next
          case True
          then obtain fp where fp: "map_of (bs_files st) p0 = Some fp"
            using fp1 rec by (cases "map_of (bs_files st) p0") auto
          show ?thesis
          proof (cases "wm_module metadata")
            case None
            then show ?thesis using fp fp1 rec True by auto
          next
            case (Some md)
            show ?thesis
            proof (cases "wm_id metadata = []")
              case True
              then show ?thesis using fp fp1 rec \<open>p = p0\<close> Some by auto
            next
              case False
              then have "fm_id fp1 = wm_id metadata"
                using fp fp1 rec \<open>p = p0\<close> Some by auto
              then show ?thesis using Resolved Some False fp1(2) \<open>p = p0\<close> by auto
            qed
          qed
        qed
      next
        assume "p \<in> set ps \<and> (\<exists>metadata md. worker_promise e p = Resolved metadata \<and>
               wm_module metadata = Some md \<and> wm_id metadata \<noteq> [] \<and>
               fm_id fp' = wm_id metadata)"
        then show ?thesis by auto
      qed
    qed
  qed
qed


lemma run_callbacks_distinct:
  "run_callbacks e ps st = (r, st') \<Longrightarrow> distinct (map fst (bs_files st)) \<Longrightarrow>
   distinct (map fst (bs_files st'))"
proof (induction ps arbitrary: st)
  case Nil
  then show ?case by simp
next
  case (Cons p ps)
  show ?case
  proof (cases "worker_promise e p")
    case (Rejected err)
    then have rest: "run_callbacks e ps (onRejected p st) = (r, st')"
      using Cons.prems(1) by simp
    have "distinct (map fst (bs_files (onRejected p st)))"
      using Cons.prems(2) by (simp add: distinct_delete)
    from Cons.IH[OF rest this] show ?thesis .
  next
    case (Resolved metadata)
    show ?thesis
    proof (cases "onFulfilled e p metadata st")
      case (Inl err)
      then show ?thesis using Cons.prems Resolved by auto
    next
      case (Inr st1)
      then have rest: "run_callbacks e ps st1 = (r, st')"
        using Cons.prems(1) Resolved by simp
      have "distinct (map fst (bs_files st1))"
        using onFulfilled_key_list[OF Inr] Cons.prems(2) by simp
      from Cons.IH[OF rest this] show ?thesis .
    qed
  qed
qed

lemma copied_cells_intro:
  assumes "entry \<in> set (props (files h))"
      and "\<not> (retainAllFiles (hm_options s) \<and> isNodeModulesDir e s (fst entry))"
      and "fm_visited (snd entry) \<noteq> 0" "fm_id (snd entry) \<noteq> []"
      and "map_of (props (map_tbl h)) (fm_id (snd entry)) = Some item"
      and "map_of (props item) pl = Some md"
    shows "(fm_id (snd entry), pl, mm_path md) \<in> set (copied_cells e h s)"
proof -
  have "(pl, md) \<in> set (props item)"
    using assms(6) by (rule map_of_SomeD)
  then have "(fm_id (snd entry), pl, mm_path md) \<in>
      set (map (\<lambda>c. (fm_id (snd entry), fst c, mm_path (snd c)))
             (filter (\<lambda>c. map_of (props item) (fst c) = Some (snd c)) (props item)))"
    using assms(6) by force
  then have "(fm_id (snd entry), pl, mm_path md) \<in> set
        (if retainAllFiles (hm_options s) \<and> isNodeModulesDir e s (fst entry) then []
         else if fm_visited (snd entry) \<noteq> 0 \<and> fm_id (snd entry) \<noteq> [] then
           (case map_of (props (map_tbl h)) (fm_id (snd entry)) of
              None \<Rightarrow> []
            | Some item \<Rightarrow>
                map (\<lambda>c. (fm_id (snd entry), fst c, mm_path (snd c)))
                  (filter (\<lambda>c. map_of (props item) (fst c) = Some (snd c)) (props item)))
         else [])"
    using assms(2,3,4,5) by simp
  then show ?thesis
    unfolding copied_cells_def set_concat set_map
    using assms(1) by blast
qed

lemma installed_cells_intro:
  assumes "p \<in> set ps" "worker_promise e p = Resolved metadata"
      and "wm_module metadata = Some md" "wm_id metadata \<noteq> []"
    shows "(wm_id metadata, platform_of e (mm_path md), mm_path md) \<in> set (installed_cells e ps)"
proof -
  have "(wm_id metadata, platform_of e (mm_path md), mm_path md) \<in> set
        (case worker_promise e p of
           Rejected err \<Rightarrow> []
         | Resolved metadata \<Rightarrow>
             (case wm_module metadata of
                None \<Rightarrow> []
              | Some md \<Rightarrow>
                  if wm_id metadata = [] then []
                  else [(wm_id metadata, platform_of e (mm_path md), mm_path md)]))"
    using assms(2,3,4) by simp
  then show ?thesis
    unfolding installed_cells_def set_concat set_map
    using assms(1) by blast
qed

lemma worker_honest_path:
  assumes "worker_honest e ps" "p \<in> set ps" "worker_promise e p = Resolved metadata"
      and "wm_module metadata = Some md"
    shows "mm_path md = p"
  using assms by (auto simp: worker_honest_def list_all_iff split: settled.splits option.splits)

text \<open>
  After a successful build that throws on a collision, the cell of every record with an id
  holds the path of the record.
\<close>

lemma buildHasteMap_own_cells:
  assumes b: "buildHasteMap e h s = (Inr h', s')"
      and t: "throwOnModuleCollision (hm_options s)"
      and d: "distinct (map fst (props (files h)))"
      and c: "cache_consistent e s h"
      and w: "worker_honest e (completion_order e (bs_jobs (scan_files e h s)))"
      and f: "(p, fp') \<in> set (props (files h'))" "fm_id fp' \<noteq> []"
    shows "\<exists>md. cell (props (map_tbl h')) (fm_id fp') (platform_of e p) = Some md \<and> mm_path md = p"
proof -
  let ?C = "completion_order e (bs_jobs (scan_files e h s))"
  obtain st1 where run: "run_callbacks e ?C (scan_files e h s) = (None, st1)"
    and h': "props (files h') = bs_files st1"
    using buildHasteMap_success[OF b] by auto
  have "distinct (map fst (bs_files st1))"
    using run_callbacks_distinct[OF run] d by simp
  then have m: "map_of (bs_files st1) p = Some fp'"
    using f(1) h' by simp
  from run_callbacks_record[OF run m f(2)] show ?thesis
  proof
    assume "\<exists>fp. map_of (bs_files (scan_files e h s)) p = Some fp \<and> fm_id fp = fm_id fp'"
    then obtain fp where fp: "map_of (props (files h)) p = Some fp" "fm_id fp = fm_id fp'"
      by auto
    then have in_files: "(p, fp) \<in> set (props (files h))"
      by (auto dest: map_of_SomeD)
    then have "fm_id fp = [] \<or> own_cell e s h (p, fp)"
      using c by (auto simp: cache_consistent_def list_all_iff)
    then have own: "own_cell e s h (p, fp)"
      using fp(2) f(2) by simp
    then obtain item md where item: "map_of (props (map_tbl h)) (fm_id fp) = Some item"
      and md: "map_of (props item) (platform_of e p) = Some md" "mm_path md = p"
      by (auto simp: own_cell_def cell_def split: option.splits)
    have "(fm_id (snd (p, fp)), platform_of e p, mm_path md) \<in> set (copied_cells e h s)"
      by (rule copied_cells_intro[OF in_files _ _ _ _ md(1)])
         (use own item fp(2) f(2) in \<open>auto simp: own_cell_def\<close>)
    then have "(fm_id fp', platform_of e p, p) \<in> set (built_cells e h s)"
      using fp(2) md(2) by (simp add: built_cells_def)
    from buildHasteMap_cells[OF b t this] show ?thesis .
  next
    assume "p \<in> set ?C \<and> (\<exists>metadata md. worker_promise e p = Resolved metadata \<and>
               wm_module metadata = Some md \<and> wm_id metadata \<noteq> [] \<and>
               fm_id fp' = wm_id metadata)"
    then obtain metadata md where p: "p \<in> set ?C" and x: "worker_promise e p = Resolved metadata"
      "wm_module metadata = Some md" "wm_id metadata \<noteq> []" "fm_id fp' = wm_id metadata"
      by blast
    have path: "mm_path md = p"
      by (rule worker_honest_path[OF w p x(1,2)])
    have "(wm_id metadata, platform_of e (mm_path md), mm_path md) \<in> set (installed_cells e ?C)"
      by (rule installed_cells_intro[OF p x(1,2,3)])
    then have "(fm_id fp', platform_of e p, p) \<in> set (built_cells e h s)"
      using x(4) path by (simp add: built_cells_def)
    from buildHasteMap_cells[OF b t this] show ?thesis .
  qed
qed

lemma buildHasteMap_I3:
  assumes "buildHasteMap e h s = (Inr h', s')"
      and "throwOnModuleCollision (hm_options s)"
      and "distinct (map fst (props (files h)))"
      and "cache_consistent e s h"
      and "worker_honest e (completion_order e (bs_jobs (scan_files e h s)))"
    shows "invariant_I3 e (files h')"
  unfolding invariant_I3_def list_all_iff
proof (intro ballI notI)
  fix a b
  assume a: "a \<in> set (props (files h'))" and b: "b \<in> set (props (files h'))"
    and col: "collides e a b"
  from col have ids: "fm_id (snd a) \<noteq> []" "fm_id (snd b) \<noteq> []" "fm_id (snd a) = fm_id (snd b)"
    "platform_of e (fst a) = platform_of e (fst b)" "fst a \<noteq> fst b"
    by (auto simp: collides_def)
  obtain md where md: "cell (props (map_tbl h')) (fm_id (snd a)) (platform_of e (fst a)) = Some md"
      "mm_path md = fst a"
    using buildHasteMap_own_cells[OF assms, of "fst a" "snd a"] a ids(1) by auto
  obtain md2 where md2: "cell (props (map_tbl h')) (fm_id (snd b)) (platform_of e (fst b)) = Some md2"
      "mm_path md2 = fst b"
    using buildHasteMap_own_cells[OF assms, of "fst b" "snd b"] b ids(2) by auto
  from md md2 ids show False by simp
qed

lemma pipeline_I3:
  assumes "pipeline e s = (Inr pub, s')"
      and "buildFileMap e s = (Inr fileMap, s1)"
      and "throwOnModuleCollision (hm_options s)"
      and "distinct (map fst (props (files fileMap)))"
      and "cache_consistent e s1 fileMap"
      and "worker_honest e (completion_order e (bs_jobs (scan_files e fileMap s1)))"
    shows "invariant_I3 e (hasteFS pub)"
proof -
  obtain h' s2 where b: "buildHasteMap e fileMap s1 = (Inr h', s2)" and p: "pub = publish e h'"
    using pipeline_success[OF assms(1)] assms(2) by auto
  have "throwOnModuleCollision (hm_options s1)"
    using buildFileMap_frame(1)[OF assms(2)] assms(3) by simp
  from buildHasteMap_I3[OF b this assms(4,5,6)] p show ?thesis
    by (simp add: publish_def)
qed

lemma cache_consistent_cong:
  assumes "hm_options s' = hm_options s" "whitelist s' = whitelist s"
  shows "cache_consistent e s' h = cache_consistent e s h"
  using assms by (simp add: cache_consistent_def own_cell_def isNodeModulesDir_def)

lemma run_cached_crawl:
  "fst (buildFileMap env_cached_ab ex_inst) = Inr loaded_ab"
  by (simp add: load_defs env_cached_ab_sel ex_inst_sel ex_options_sel cached_ab_def loaded_ab_def)

lemma loaded_ab_inconsistent: "\<not> cache_consistent env_cached_ab ex_inst loaded_ab"
  by (simp add: cache_consistent_def own_cell_def loaded_ab_def seen_X_def cell_def
      item_X_parsed_def module_a_def platform_of_def env_cached_ab_sel ex_platform_def
      GENERIC_PLATFORM_def)

lemma run_one_consistent:
  "distinct (map fst (props (files crawled_one)))"
  "cache_consistent env_one ex_inst crawled_one"
  by (simp_all add: cache_consistent_def own_cell_def crawled_one_def seen_P_def new_file_def
      cell_def item_P_def module_ios_def module_android_def platform_of_def env_one_sel
      ex_platform_def ex_inst_sel ex_options_sel)

lemma run_one_jobs:
  "bs_jobs (scan_files env_one crawled_one (snd (buildFileMap env_one ex_inst))) = [''/src/a.js'']"
  by (simp add: run_one_crawl build_defs sels small_defs crawled_one_def)

lemma run_one_honest:
  "worker_honest env_one
     (completion_order env_one
        (bs_jobs (scan_files env_one crawled_one (snd (buildFileMap env_one ex_inst)))))"
  by (simp add: run_one_jobs worker_honest_def worker_promise_def env_one_sel ex_worker_def
      module_a_def)

section \<open>The claims\<close>

text \<open>
  C1. As the claim states it, after a successful build with \<^verbatim>\<open>throwOnModuleCollision\<close> no
  two distinct paths are at one id and platform, the entries copied through from the
  cached map included. The loop copies the item of the cached map for a visited file and
  does not look at the path of the file. A build that warns records the id \<^verbatim>\<open>X\<close> in
  \<^verbatim>\<open>/src/a.js\<close> and in \<^verbatim>\<open>/src/b.js\<close> and keeps \<^verbatim>\<open>/src/a.js\<close> in the map; the cache path
  does not depend on the policy, so a build that throws reads this cache, copies the item
  for both files, calls no worker and no installer, warns of nothing and succeeds: the
  files it publishes hold two distinct paths that declare \<^verbatim>\<open>X\<close> for the generic platform.
  In the file map of this build the record of \<^verbatim>\<open>/src/b.js\<close> does not agree with the map: the
  cell of its id and platform holds \<^verbatim>\<open>/src/a.js\<close>.
\<close>

theorem cached_collision_counterexample:
  "\<not> throwOnModuleCollision (hm_options inst_warn) \<and>
   cachePath inst_warn = cachePath ex_inst \<and>
   fst (pipeline env_ab inst_warn) = Inr published_warn \<and>
   throwOnModuleCollision (hm_options ex_inst) \<and>
   readFileSync env_cached_ab (cachePath ex_inst) = Inr ''cache'' \<and>
   json_parse env_cached_ab ''cache'' = Inr cached_ab \<and>
   props (files cached_ab) = props (hasteFS published_warn) \<and>
   map (\<lambda>item. (fst item, props (snd item))) (props (map_tbl cached_ab)) =
     map (\<lambda>item. (fst item, props (snd item))) (props (moduleMap_map published_warn)) \<and>
   pipeline env_cached_ab ex_inst =
     (Inr published_ab,
      ex_inst\<lparr>events :=
        [ReadFile ''/tmp/jest-cache'',
         CrawlCall NodeCrawl [''/src''] [''js'']
           (ignore_path env_cached_ab (ex_inst\<lparr>events := [ReadFile ''/tmp/jest-cache'']\<rparr>))
           (cached_ab\<lparr>clocks := \<lparr>proto = NullProto, props = []\<rparr>,
              files := \<lparr>proto = NullProto,
                        props = [(''/src/a.js'', seen_X), (''/src/b.js'', seen_X)]\<rparr>,
              map_tbl := \<lparr>proto = NullProto, props = [(''X'', item_X_parsed)]\<rparr>,
              mocks := \<lparr>proto = NullProto, props = []\<rparr>\<rparr>),
         WriteFile ''/tmp/jest-cache'' ''{}'']\<rparr>) \<and>
   props (hasteFS published_ab) =
     [(''/src/a.js'', \<lparr>fm_id = ''X'', fm_mtime = 0, fm_visited = 1, fm_dependencies = []\<rparr>),
      (''/src/b.js'', \<lparr>fm_id = ''X'', fm_mtime = 0, fm_visited = 1, fm_dependencies = []\<rparr>)] \<and>
   platform_of env_cached_ab ''/src/a.js'' = ''g'' \<and>
   platform_of env_cached_ab ''/src/b.js'' = ''g'' \<and>
   cell (props (moduleMap_map published_ab)) ''X'' ''g'' = Some module_a \<and>
   \<not> invariant_I3 env_cached_ab (hasteFS published_ab) \<and>
   fst (buildFileMap env_cached_ab ex_inst) = Inr loaded_ab \<and>
   \<not> cache_consistent env_cached_ab ex_inst loaded_ab"
proof -
  have a: "\<not> throwOnModuleCollision (hm_options inst_warn)" "cachePath inst_warn = cachePath ex_inst"
    "throwOnModuleCollision (hm_options ex_inst)"
    by (simp_all add: inst_warn_sel ex_inst_sel ex_options_sel)
  have b: "fst (pipeline env_ab inst_warn) = Inr published_warn"
    by (simp add: run_warn_pipeline)
  have c: "readFileSync env_cached_ab (cachePath ex_inst) = Inr ''cache''"
    "json_parse env_cached_ab ''cache'' = Inr cached_ab"
    "props (files cached_ab) = props (hasteFS published_warn)"
    "map (\<lambda>item. (fst item, props (snd item))) (props (map_tbl cached_ab)) =
     map (\<lambda>item. (fst item, props (snd item))) (props (moduleMap_map published_warn))"
    by (simp_all add: env_cached_ab_sel cached_ab_def published_warn_def item_X_def
        item_X_parsed_def)
  have d: "props (hasteFS published_ab) =
     [(''/src/a.js'', \<lparr>fm_id = ''X'', fm_mtime = 0, fm_visited = 1, fm_dependencies = []\<rparr>),
      (''/src/b.js'', \<lparr>fm_id = ''X'', fm_mtime = 0, fm_visited = 1, fm_dependencies = []\<rparr>)]"
    "platform_of env_cached_ab ''/src/a.js'' = ''g''"
    "platform_of env_cached_ab ''/src/b.js'' = ''g''"
    "cell (props (moduleMap_map published_ab)) ''X'' ''g'' = Some module_a"
    by (simp_all add: published_ab_def seen_X_def platform_of_def env_cached_ab_sel ex_platform_def
        GENERIC_PLATFORM_def cell_def item_X_parsed_def)
  have e: "\<not> invariant_I3 env_cached_ab (hasteFS published_ab)"
    by (simp add: invariant_I3_def collides_def published_ab_def seen_X_def platform_of_def
        env_cached_ab_sel ex_platform_def)
  show ?thesis
    using a b c d e run_cached_pipeline run_cached_crawl loaded_ab_inconsistent by simp
qed

text \<open>
  C1, amended. When the installer is called with an id and a module, and the cell
  \<^verbatim>\<open>map[id][platform]\<close> of the module's platform holds a module with another path, then
  with \<^verbatim>\<open>throwOnModuleCollision\<close> the call throws an error whose message names both
  paths (the exception ends the callbacks, and the build is rejected with it), and
  without it the call warns with a message that names both paths and leaves
  the map as it was, so the module installed first is kept. When the cell holds a module
  with the same path, nothing is thrown or warned, the cell is assigned the module given
  (the same path; the map is unchanged when the module is the same) and no other cell
  changes. When the item under the id was copied from the cache, has no such cell, and the
  platform is the name of a member that every object inherits (\<^verbatim>\<open>constructor\<close>, say), the
  installer takes the member for a module whose path is \<^verbatim>\<open>undefined\<close>, and throws or warns
  likewise. Consequently, after a successful build with \<^verbatim>\<open>throwOnModuleCollision\<close>, every
  module the installer was called with during the build, and every cell of an item the
  loop copied from the cached map, is in the published map with its path: no two of them
  meet in one cell with distinct paths. The files whose items the loop copies are not
  checked against each other; the cache path is the same for both policies, so a build
  that throws reads the cache of a build that warned. Invariant I3 holds after such a
  build when the file map it starts from agrees with itself: if the paths of the crawled
  \<^verbatim>\<open>files\<close> are distinct, every record with an id is visited, not skipped by the loop and
  the path of the cell of its id and platform, and the worker returns each module under
  the path it was given, then no two distinct paths of the published \<^verbatim>\<open>files\<close> are at the
  same id and platform, the files whose entries were copied through included.
\<close>

theorem setModule_collision_policy:
  "(cell m ident (platform_of e (mm_path md)) = Some ex \<and> mm_path ex \<noteq> mm_path md \<longrightarrow>
      setModule opts e ident md (m, evs) =
        (if throwOnModuleCollision opts
         then Inl (JsError ''Error''
                (collision_message True ident (mm_path md) (mm_path ex)))
         else Inr (m, evs @ [Warn (collision_message False ident (mm_path md) (mm_path ex))])) \<and>
      sublist (mm_path md)
        (collision_message (throwOnModuleCollision opts) ident (mm_path md) (mm_path ex)) \<and>
      sublist (mm_path ex)
        (collision_message (throwOnModuleCollision opts) ident (mm_path md) (mm_path ex))) \<and>
   (cell m ident (platform_of e (mm_path md)) = Some ex \<and> mm_path ex = mm_path md \<longrightarrow>
      (\<exists>m'. setModule opts e ident md (m, evs) = Inr (m', evs) \<and>
            cell m' ident (platform_of e (mm_path md)) = Some md \<and>
            (\<forall>i pl. (i, pl) \<noteq> (ident, platform_of e (mm_path md)) \<longrightarrow>
                    cell m' i pl = cell m i pl) \<and>
            (ex = md \<longrightarrow> m' = m))) \<and>
   (fst (pipeline e s) = Inr pub \<and> throwOnModuleCollision (hm_options s) \<and>
    fst (buildFileMap e s) = Inr fileMap \<longrightarrow>
      (\<forall>(i, pl, pth) \<in> set (built_cells e fileMap (snd (buildFileMap e s))).
         \<exists>md'. cell (props (moduleMap_map pub)) i pl = Some md' \<and> mm_path md' = pth) \<and>
      (\<forall>(i, pl, pth) \<in> set (built_cells e fileMap (snd (buildFileMap e s))).
         \<forall>(i', pl', pth') \<in> set (built_cells e fileMap (snd (buildFileMap e s))).
           i = i' \<and> pl = pl' \<longrightarrow> pth = pth')) \<and>
   (worker_promise e p = Resolved metadata \<and> wm_id metadata \<noteq> [] \<and>
    wm_module metadata = Some md \<and>
    cell (bs_map st) (wm_id metadata) (platform_of e (mm_path md)) = Some ex \<and>
    mm_path ex \<noteq> mm_path md \<and> throwOnModuleCollision (hm_options (bs_inst st)) \<longrightarrow>
      run_callbacks e (p # ps) st =
        (Some (JsError ''Error''
           (collision_message True (wm_id metadata) (mm_path md) (mm_path ex))), st)) \<and>
   (fst (buildFileMap e s) = Inr fileMap \<and>
    fst (run_callbacks e
           (completion_order e (bs_jobs (scan_files e fileMap (snd (buildFileMap e s)))))
           (scan_files e fileMap (snd (buildFileMap e s)))) = Some err \<longrightarrow>
      fst (pipeline e s) = Inl err) \<and>
   (map_of m ident = Some item \<and> map_of (props item) (platform_of e (mm_path md)) = None \<and>
    platform_of e (mm_path md) \<in> set (inherited_keys (proto item)) \<longrightarrow>
      setModule opts e ident md (m, evs) =
        (if throwOnModuleCollision opts
         then Inl (JsError ''Error'' (collision_message True ident (mm_path md) ''undefined''))
         else Inr (m, evs @ [Warn (collision_message False ident (mm_path md) ''undefined'')]))) \<and>
   constructor_cachePath e (u\<lparr>u_throwOnModuleCollision := policy\<rparr>) = constructor_cachePath e u \<and>
   (fst (pipeline e s) = Inr pub \<and> throwOnModuleCollision (hm_options s) \<and>
    fst (buildFileMap e s) = Inr fileMap \<and>
    distinct (map fst (props (files fileMap))) \<and> cache_consistent e s fileMap \<and>
    worker_honest e
      (completion_order e (bs_jobs (scan_files e fileMap (snd (buildFileMap e s))))) \<longrightarrow>
      invariant_I3 e (hasteFS pub))"
proof (intro conjI impI)
  assume a: "cell m ident (platform_of e (mm_path md)) = Some ex \<and> mm_path ex \<noteq> mm_path md"
  show "setModule opts e ident md (m, evs) =
        (if throwOnModuleCollision opts
         then Inl (JsError ''Error''
                (collision_message True ident (mm_path md) (mm_path ex)))
         else Inr (m, evs @ [Warn (collision_message False ident (mm_path md) (mm_path ex))]))"
    using a setModule_throw[of m ident e md ex opts evs] setModule_warn[of m ident e md ex opts evs]
    by (cases "throwOnModuleCollision opts") simp_all
next
  show "sublist (mm_path md)
        (collision_message (throwOnModuleCollision opts) ident (mm_path md) (mm_path ex))"
    by (rule collision_message_names)
next
  show "sublist (mm_path ex)
        (collision_message (throwOnModuleCollision opts) ident (mm_path md) (mm_path ex))"
    by (rule collision_message_names)
next
  assume a: "cell m ident (platform_of e (mm_path md)) = Some ex \<and> mm_path ex = mm_path md"
  then obtain m' where m': "setModule opts e ident md (m, evs) = Inr (m', evs)"
      "cell m' ident (platform_of e (mm_path md)) = Some md" "ex = md \<longrightarrow> m' = m"
    using setModule_same_path[of m ident e md ex opts evs] by blast
  have "\<forall>i pl. (i, pl) \<noteq> (ident, platform_of e (mm_path md)) \<longrightarrow> cell m' i pl = cell m i pl"
    using cell_setModule_other[OF m'(1)] by blast
  with m' show "\<exists>m'. setModule opts e ident md (m, evs) = Inr (m', evs) \<and>
            cell m' ident (platform_of e (mm_path md)) = Some md \<and>
            (\<forall>i pl. (i, pl) \<noteq> (ident, platform_of e (mm_path md)) \<longrightarrow>
                    cell m' i pl = cell m i pl) \<and>
            (ex = md \<longrightarrow> m' = m)"
    by blast
next
  assume a: "fst (pipeline e s) = Inr pub \<and> throwOnModuleCollision (hm_options s) \<and>
    fst (buildFileMap e s) = Inr fileMap"
  have p: "pipeline e s = (Inr pub, snd (pipeline e s))"
    using a by (cases "pipeline e s") simp
  have b: "buildFileMap e s = (Inr fileMap, snd (buildFileMap e s))"
    using a by (cases "buildFileMap e s") simp
  have published: "\<exists>md'. cell (props (moduleMap_map pub)) i pl = Some md' \<and> mm_path md' = pth"
    if "(i, pl, pth) \<in> set (built_cells e fileMap (snd (buildFileMap e s)))" for i pl pth
    using pipeline_cells[OF p b _ that] a by blast
  show "\<forall>(i, pl, pth) \<in> set (built_cells e fileMap (snd (buildFileMap e s))).
         \<exists>md'. cell (props (moduleMap_map pub)) i pl = Some md' \<and> mm_path md' = pth"
    using published by blast
  show "\<forall>(i, pl, pth) \<in> set (built_cells e fileMap (snd (buildFileMap e s))).
         \<forall>(i', pl', pth') \<in> set (built_cells e fileMap (snd (buildFileMap e s))).
           i = i' \<and> pl = pl' \<longrightarrow> pth = pth'"
  proof (intro ballI, clarify)
    fix i pl pth pth'
    assume "(i, pl, pth) \<in> set (built_cells e fileMap (snd (buildFileMap e s)))"
      and "(i, pl, pth') \<in> set (built_cells e fileMap (snd (buildFileMap e s)))"
    then show "pth = pth'" using published[of i pl pth] published[of i pl pth'] by auto
  qed
next
  assume a: "worker_promise e p = Resolved metadata \<and> wm_id metadata \<noteq> [] \<and>
    wm_module metadata = Some md \<and>
    cell (bs_map st) (wm_id metadata) (platform_of e (mm_path md)) = Some ex \<and>
    mm_path ex \<noteq> mm_path md \<and> throwOnModuleCollision (hm_options (bs_inst st))"
  show "run_callbacks e (p # ps) st =
        (Some (JsError ''Error''
           (collision_message True (wm_id metadata) (mm_path md) (mm_path ex))), st)"
    by (rule run_callbacks_collision) (use a in simp_all)
next
  assume a: "fst (buildFileMap e s) = Inr fileMap \<and>
    fst (run_callbacks e
           (completion_order e (bs_jobs (scan_files e fileMap (snd (buildFileMap e s)))))
           (scan_files e fileMap (snd (buildFileMap e s)))) = Some err"
  have b: "buildFileMap e s = (Inr fileMap, snd (buildFileMap e s))"
    using a by (cases "buildFileMap e s") simp
  show "fst (pipeline e s) = Inl err"
    by (rule pipeline_rejects_with_stage[OF b]) (use a in simp)
next
  assume a: "map_of m ident = Some item \<and>
    map_of (props item) (platform_of e (mm_path md)) = None \<and>
    platform_of e (mm_path md) \<in> set (inherited_keys (proto item))"
  show "setModule opts e ident md (m, evs) =
        (if throwOnModuleCollision opts
         then Inl (JsError ''Error'' (collision_message True ident (mm_path md) ''undefined''))
         else Inr (m, evs @ [Warn (collision_message False ident (mm_path md) ''undefined'')]))"
    using a by (simp add: setModule_inherited)
next
  show "constructor_cachePath e (u\<lparr>u_throwOnModuleCollision := policy\<rparr>) =
        constructor_cachePath e u"
    by (rule constructor_cachePath_policy)
next
  assume a: "fst (pipeline e s) = Inr pub \<and> throwOnModuleCollision (hm_options s) \<and>
    fst (buildFileMap e s) = Inr fileMap \<and>
    distinct (map fst (props (files fileMap))) \<and> cache_consistent e s fileMap \<and>
    worker_honest e
      (completion_order e (bs_jobs (scan_files e fileMap (snd (buildFileMap e s)))))"
  have p: "pipeline e s = (Inr pub, snd (pipeline e s))"
    using a by (cases "pipeline e s") simp
  have b: "buildFileMap e s = (Inr fileMap, snd (buildFileMap e s))"
    using a by (cases "buildFileMap e s") simp
  have c: "cache_consistent e (snd (buildFileMap e s)) fileMap"
    using a cache_consistent_cong[OF buildFileMap_frame(1,2)[OF b]] by simp
  show "invariant_I3 e (hasteFS pub)"
    by (rule pipeline_I3[OF p b _ _ c]) (use a in simp_all)
qed

theorem setModule_collision_policy_witness:
  "cell [(''X'', item_X)] ''X'' (platform_of ex_env (mm_path module_b)) = Some module_a \<and>
   mm_path module_a \<noteq> mm_path module_b \<and>
   throwOnModuleCollision ex_options \<and>
   setModule ex_options ex_env ''X'' module_b ([(''X'', item_X)], []) =
     Inl (JsError ''Error'' (collision_message True ''X'' ''/src/b.js'' ''/src/a.js'')) \<and>
   \<not> throwOnModuleCollision (ex_options\<lparr>throwOnModuleCollision := False\<rparr>) \<and>
   setModule (ex_options\<lparr>throwOnModuleCollision := False\<rparr>) ex_env ''X'' module_b
       ([(''X'', item_X)], []) =
     Inr ([(''X'', item_X)],
          [Warn (collision_message False ''X'' ''/src/b.js'' ''/src/a.js'')]) \<and>
   setModule ex_options ex_env ''X'' module_a ([(''X'', item_X)], []) =
     Inr ([(''X'', item_X)], []) \<and>
   fst (pipeline env_one ex_inst) = Inr published_one \<and>
   throwOnModuleCollision (hm_options ex_inst) \<and>
   fst (buildFileMap env_one ex_inst) = Inr crawled_one \<and>
   (''X'', ''g'', ''/src/a.js'') \<in> set (built_cells env_one crawled_one (snd (buildFileMap env_one ex_inst))) \<and>
   (\<exists>md'. cell (props (moduleMap_map published_one)) ''X'' ''g'' = Some md' \<and>
          mm_path md' = ''/src/a.js'') \<and>
   fst (buildFileMap env_ab ex_inst) = Inr crawled_ab \<and>
   fst (pipeline env_ab ex_inst) =
     Inl (JsError ''Error'' (collision_message True ''X'' ''/src/b.js'' ''/src/a.js'')) \<and>
   map_of [(''X'', item_X_parsed)] ''X'' = Some item_X_parsed \<and>
   map_of (props item_X_parsed) (platform_of env_ctor (mm_path module_ctor)) = None \<and>
   platform_of env_ctor (mm_path module_ctor) \<in> set (inherited_keys (proto item_X_parsed)) \<and>
   setModule ex_options env_ctor ''X'' module_ctor ([(''X'', item_X_parsed)], []) =
     Inl (JsError ''Error''
       (collision_message True ''X'' ''/src/X.constructor.js'' ''undefined'')) \<and>
   distinct (map fst (props (files crawled_one))) \<and>
   cache_consistent env_one ex_inst crawled_one \<and>
   worker_honest env_one
     (completion_order env_one
        (bs_jobs (scan_files env_one crawled_one (snd (buildFileMap env_one ex_inst))))) \<and>
   invariant_I3 env_one (hasteFS published_one)"
proof -
  have c: "cell [(''X'', item_X)] ''X'' (platform_of ex_env (mm_path module_b)) = Some module_a"
    "cell [(''X'', item_X)] ''X'' (platform_of ex_env (mm_path module_a)) = Some module_a"
    by (simp_all add: cell_def platform_of_def ex_env_sel ex_platform_def GENERIC_PLATFORM_def
        module_a_def module_b_def item_X_def)
  have n: "mm_path module_a \<noteq> mm_path module_b" "mm_path module_a = ''/src/a.js''"
    "mm_path module_b = ''/src/b.js''"
    by (simp_all add: module_a_def module_b_def)
  have t: "throwOnModuleCollision ex_options"
    "\<not> throwOnModuleCollision (ex_options\<lparr>throwOnModuleCollision := False\<rparr>)"
    "throwOnModuleCollision (hm_options ex_inst)"
    by (simp_all add: ex_options_sel ex_inst_sel)
  have w1: "setModule ex_options ex_env ''X'' module_b ([(''X'', item_X)], []) =
     Inl (JsError ''Error'' (collision_message True ''X'' ''/src/b.js'' ''/src/a.js''))"
    using setModule_collision_policy[of "[(''X'', item_X)]" "''X''" ex_env module_b
        module_a ex_options "[]"] c n t
    by simp
  have w2: "setModule (ex_options\<lparr>throwOnModuleCollision := False\<rparr>) ex_env ''X'' module_b
       ([(''X'', item_X)], []) =
     Inr ([(''X'', item_X)],
          [Warn (collision_message False ''X'' ''/src/b.js'' ''/src/a.js'')])"
    using setModule_collision_policy[of "[(''X'', item_X)]" "''X''" ex_env module_b
        module_a "ex_options\<lparr>throwOnModuleCollision := False\<rparr>" "[]"] c n t
    by simp
  have w3: "setModule ex_options ex_env ''X'' module_a ([(''X'', item_X)], []) =
     Inr ([(''X'', item_X)], [])"
    using setModule_collision_policy[of "[(''X'', item_X)]" "''X''" ex_env module_a
        module_a ex_options "[]"] c
    by auto
  have o: "(''X'', ''g'', ''/src/a.js'') \<in> set (built_cells env_one crawled_one (snd (buildFileMap env_one ex_inst)))"
    by (simp add: run_one_cells)
  have b: "fst (buildFileMap env_one ex_inst) = Inr crawled_one"
    by (simp add: run_one_crawl)
  have h: "fst (pipeline env_one ex_inst) = Inr published_one \<and>
      throwOnModuleCollision (hm_options ex_inst) \<and>
      fst (buildFileMap env_one ex_inst) = Inr crawled_one"
    using run_one_pipeline t(3) b by simp
  note c3 = setModule_collision_policy[where e=env_one and s=ex_inst and pub=published_one
      and fileMap=crawled_one, THEN conjunct2, THEN conjunct2, THEN conjunct1,
      THEN mp, OF h]
  have "\<forall>(i, pl, pth) \<in> set (built_cells env_one crawled_one (snd (buildFileMap env_one ex_inst))).
         \<exists>md'. cell (props (moduleMap_map published_one)) i pl = Some md' \<and> mm_path md' = pth"
    using c3 by (rule conjunct1)
  then have w4: "\<exists>md'. cell (props (moduleMap_map published_one)) ''X'' ''g'' = Some md' \<and>
          mm_path md' = ''/src/a.js''"
    using o by fast
  let ?s1 = "snd (buildFileMap env_ab ex_inst)"
  let ?st = "scan_files env_ab crawled_ab ?s1"
  let ?err = "JsError ''Error'' (collision_message True ''X'' ''/src/b.js'' ''/src/a.js'')"
  have ab: "fst (buildFileMap env_ab ex_inst) = Inr crawled_ab"
    by (simp add: run_ab_crawl)
  have s1: "hm_options ?s1 = ex_options" "whitelist ?s1 = None" "workerPromise ?s1 = None"
    by (simp_all add: run_ab_crawl ex_inst_sel)
  have scan: "bs_jobs ?st = [''/src/a.js'', ''/src/b.js'']" "bs_map ?st = []"
    "hm_options (bs_inst ?st) = ex_options"
    using run_ab_scan[OF s1] by (simp_all add: s1)
  obtain st1 where st1: "onFulfilled env_ab ''/src/a.js''
        \<lparr>wm_id = ''X'', wm_module = Some module_a, wm_dependencies = Some []\<rparr> ?st = Inr st1"
      "bs_map st1 = [(''X'', item_X)]" "bs_inst st1 = bs_inst ?st"
    using run_ab_first[OF scan(3) scan(2)] by blast
  have cb: "cell (bs_map st1) ''X'' (platform_of env_ab (mm_path module_b)) = Some module_a"
    by (simp add: st1 cell_def platform_of_def env_ab_sel ex_platform_def GENERIC_PLATFORM_def
        module_b_def item_X_def)
  have tb: "throwOnModuleCollision (hm_options (bs_inst st1))"
    by (simp add: st1 scan s1 ex_options_sel)
  have second: "run_callbacks env_ab [''/src/b.js''] st1 = (Some ?err, st1)"
    using setModule_collision_policy[where e=env_ab and p="''/src/b.js''" and ps="[]"
        and metadata="\<lparr>wm_id = ''X'', wm_module = Some module_b, wm_dependencies = Some []\<rparr>"
        and md=module_b and ex=module_a and st=st1, THEN conjunct2, THEN conjunct2,
        THEN conjunct2, THEN conjunct1] run_ab_workers(2) cb tb n
    by simp
  have "run_callbacks env_ab [''/src/a.js'', ''/src/b.js''] ?st = (Some ?err, st1)"
    using second st1(1) run_ab_workers(1) by simp
  then have stage: "fst (run_callbacks env_ab (completion_order env_ab (bs_jobs ?st)) ?st) = Some ?err"
    by (simp add: scan env_ab_sel)
  have w5: "fst (pipeline env_ab ex_inst) = Inl ?err"
    using setModule_collision_policy[where e=env_ab and s=ex_inst and fileMap=crawled_ab
        and err="?err", THEN conjunct2, THEN conjunct2, THEN conjunct2, THEN conjunct2,
        THEN conjunct1] ab stage
    by simp
  have i: "map_of [(''X'', item_X_parsed)] ''X'' = Some item_X_parsed"
    "map_of (props item_X_parsed) (platform_of env_ctor (mm_path module_ctor)) = None"
    "platform_of env_ctor (mm_path module_ctor) \<in> set (inherited_keys (proto item_X_parsed))"
    "mm_path module_ctor = ''/src/X.constructor.js''"
    by (simp_all add: item_X_parsed_def platform_of_def env_ctor_def module_ctor_def
        inherited_keys_def object_prototype_keys_def)
  have w6: "setModule ex_options env_ctor ''X'' module_ctor ([(''X'', item_X_parsed)], []) =
     Inl (JsError ''Error''
       (collision_message True ''X'' ''/src/X.constructor.js'' ''undefined''))"
    using setModule_collision_policy[where e=env_ctor and m="[(''X'', item_X_parsed)]"
        and ident="''X''" and item=item_X_parsed and md=module_ctor and opts=ex_options
        and evs="[]", THEN conjunct2, THEN conjunct2, THEN conjunct2, THEN conjunct2,
        THEN conjunct2, THEN conjunct1] i t(1)
    by simp
  have h7: "fst (pipeline env_one ex_inst) = Inr published_one \<and>
      throwOnModuleCollision (hm_options ex_inst) \<and>
      fst (buildFileMap env_one ex_inst) = Inr crawled_one \<and>
      distinct (map fst (props (files crawled_one))) \<and>
      cache_consistent env_one ex_inst crawled_one \<and>
      worker_honest env_one
        (completion_order env_one
           (bs_jobs (scan_files env_one crawled_one (snd (buildFileMap env_one ex_inst)))))"
    using h run_one_consistent run_one_honest by blast
  have w7: "invariant_I3 env_one (hasteFS published_one)"
    by (rule setModule_collision_policy[where e=env_one and s=ex_inst and pub=published_one
        and fileMap=crawled_one, THEN conjunct2, THEN conjunct2, THEN conjunct2,
        THEN conjunct2, THEN conjunct2, THEN conjunct2, THEN conjunct2, THEN mp, OF h7])
  show ?thesis
    using c(1) n(1) t w1 w2 w3 w4 run_one_pipeline b o ab w5 i(1,2,3) w6
      run_one_consistent run_one_honest w7
    by blast
qed

text \<open>
  C3. Stage 1 yields what \<^verbatim>\<open>read\<close> deserializes from the cache file: the result of
  \<^verbatim>\<open>JSON.parse\<close> with the prototype of each of its tables set to null. When reading
  fails, for a file that cannot be read (a missing file; a cache of another version has
  another path and is a missing file too) or for content that is not JSON, it yields the
  empty map instead. With \<^verbatim>\<open>resetCache\<close> it yields the empty map and does not touch
  the file system: the instance and its trace are unchanged. All four tables of the
  empty map are there, have no own property and answer to no inherited key.
\<close>

theorem load_cache_cases:
  "(resetCache (hm_options s) \<longrightarrow> load_cache e s = (createEmptyMap, s)) \<and>
   (\<not> resetCache (hm_options s) \<and> readFileSync e (cachePath s) = Inl err \<longrightarrow>
      load_cache e s = (createEmptyMap, s\<lparr>events := events s @ [ReadFile (cachePath s)]\<rparr>)) \<and>
   (\<not> resetCache (hm_options s) \<and> readFileSync e (cachePath s) = Inr content \<and>
    json_parse e content = Inl err \<longrightarrow>
      load_cache e s = (createEmptyMap, s\<lparr>events := events s @ [ReadFile (cachePath s)]\<rparr>)) \<and>
   (\<not> resetCache (hm_options s) \<and> readFileSync e (cachePath s) = Inr content \<and>
    json_parse e content = Inr raw \<longrightarrow>
      load_cache e s =
        (\<lparr>clocks = setPrototypeOf_null (clocks raw), files = setPrototypeOf_null (files raw),
          map_tbl = setPrototypeOf_null (map_tbl raw), mocks = setPrototypeOf_null (mocks raw)\<rparr>,
         s\<lparr>events := events s @ [ReadFile (cachePath s)]\<rparr>)) \<and>
   (\<not> resetCache (hm_options s) \<and> fst (read_hm e s) = Inl err \<longrightarrow>
      fst (load_cache e s) = createEmptyMap) \<and>
   props (clocks createEmptyMap) = [] \<and> props (files createEmptyMap) = [] \<and>
   props (map_tbl createEmptyMap) = [] \<and> props (mocks createEmptyMap) = [] \<and>
   observable_keys (clocks createEmptyMap) = {} \<and> observable_keys (files createEmptyMap) = {} \<and>
   observable_keys (map_tbl createEmptyMap) = {} \<and> observable_keys (mocks createEmptyMap) = {}"
proof (intro conjI impI)
  show "resetCache (hm_options s) \<Longrightarrow> load_cache e s = (createEmptyMap, s)"
    by (simp add: load_cache_def)
  show "\<not> resetCache (hm_options s) \<and> readFileSync e (cachePath s) = Inl err \<Longrightarrow>
      load_cache e s = (createEmptyMap, s\<lparr>events := events s @ [ReadFile (cachePath s)]\<rparr>)"
    by (simp add: load_cache_def read_hm_def)
  show "\<not> resetCache (hm_options s) \<and> readFileSync e (cachePath s) = Inr content \<and>
    json_parse e content = Inl err \<Longrightarrow>
      load_cache e s = (createEmptyMap, s\<lparr>events := events s @ [ReadFile (cachePath s)]\<rparr>)"
    by (simp add: load_cache_def read_hm_def parse_hm_def)
  show "\<not> resetCache (hm_options s) \<and> readFileSync e (cachePath s) = Inr content \<and>
    json_parse e content = Inr raw \<Longrightarrow>
      load_cache e s =
        (\<lparr>clocks = setPrototypeOf_null (clocks raw), files = setPrototypeOf_null (files raw),
          map_tbl = setPrototypeOf_null (map_tbl raw), mocks = setPrototypeOf_null (mocks raw)\<rparr>,
         s\<lparr>events := events s @ [ReadFile (cachePath s)]\<rparr>)"
    by (simp add: load_cache_def read_hm_def parse_hm_def)
  show "\<not> resetCache (hm_options s) \<and> fst (read_hm e s) = Inl err \<Longrightarrow>
      fst (load_cache e s) = createEmptyMap"
    by (cases "read_hm e s") (auto simp: load_cache_def)
qed (simp_all add: createEmptyMap_tables)

lemma inst_reset_sel:
  "hm_options inst_reset = ex_options\<lparr>resetCache := True\<rparr>"
  "cachePath inst_reset = ''/tmp/jest-cache''"
  "events inst_reset = []"
  by (simp_all add: inst_reset_def ex_inst_sel)

lemma env_corrupt_sel:
  "readFileSync env_corrupt = (\<lambda>p. Inr ''{'')"
  "json_parse env_corrupt = (\<lambda>c. Inl (JsError ''SyntaxError'' ''Unexpected end of input''))"
  by (simp_all add: env_corrupt_def ex_env_sel)

theorem load_cache_cases_witness:
  "resetCache (hm_options inst_reset) \<and>
   load_cache ex_env inst_reset = (createEmptyMap, inst_reset) \<and>
   \<not> resetCache (hm_options ex_inst) \<and>
   readFileSync ex_env (cachePath ex_inst) = Inl (JsError ''Error'' ''ENOENT'') \<and>
   load_cache ex_env ex_inst =
     (createEmptyMap, ex_inst\<lparr>events := [ReadFile ''/tmp/jest-cache'']\<rparr>) \<and>
   readFileSync env_corrupt (cachePath ex_inst) = Inr ''{'' \<and>
   json_parse env_corrupt ''{'' = Inl (JsError ''SyntaxError'' ''Unexpected end of input'') \<and>
   load_cache env_corrupt ex_inst =
     (createEmptyMap, ex_inst\<lparr>events := [ReadFile ''/tmp/jest-cache'']\<rparr>) \<and>
   readFileSync env_one (cachePath ex_inst) = Inr ''cache'' \<and>
   json_parse env_one ''cache'' = Inr cached_P \<and>
   fst (load_cache env_one ex_inst) =
     \<lparr>clocks = \<lparr>proto = NullProto, props = []\<rparr>,
      files = \<lparr>proto = NullProto,
               props = [(''/src/P.ios.js'', seen_P), (''/src/P.android.js'', seen_P)]\<rparr>,
      map_tbl = \<lparr>proto = NullProto, props = [(''P'', item_P)]\<rparr>,
      mocks = \<lparr>proto = NullProto, props = []\<rparr>\<rparr>"
proof -
  have r: "resetCache (hm_options inst_reset)" "\<not> resetCache (hm_options ex_inst)"
    by (simp_all add: inst_reset_sel ex_inst_sel ex_options_sel)
  have f1: "readFileSync ex_env (cachePath ex_inst) = Inl (JsError ''Error'' ''ENOENT'')"
    by (simp add: ex_env_sel)
  have f2: "readFileSync env_corrupt (cachePath ex_inst) = Inr ''{''"
    "json_parse env_corrupt ''{'' = Inl (JsError ''SyntaxError'' ''Unexpected end of input'')"
    by (simp_all add: env_corrupt_sel)
  have f3: "readFileSync env_one (cachePath ex_inst) = Inr ''cache''"
    "json_parse env_one ''cache'' = Inr cached_P"
    by (simp_all add: env_one_sel)
  have w1: "load_cache ex_env inst_reset = (createEmptyMap, inst_reset)"
    using load_cache_cases[of inst_reset ex_env] r by simp
  have w2: "load_cache ex_env ex_inst =
     (createEmptyMap, ex_inst\<lparr>events := [ReadFile ''/tmp/jest-cache'']\<rparr>)"
    using load_cache_cases[of ex_inst ex_env "JsError ''Error'' ''ENOENT''"] r f1
    by (simp add: ex_inst_sel)
  have w3: "load_cache env_corrupt ex_inst =
     (createEmptyMap, ex_inst\<lparr>events := [ReadFile ''/tmp/jest-cache'']\<rparr>)"
    using load_cache_cases[of ex_inst env_corrupt "JsError ''SyntaxError'' ''Unexpected end of input''" "''{''"]
      r f2
    by (simp add: ex_inst_sel)
  have w4: "fst (load_cache env_one ex_inst) =
     \<lparr>clocks = \<lparr>proto = NullProto, props = []\<rparr>,
      files = \<lparr>proto = NullProto,
               props = [(''/src/P.ios.js'', seen_P), (''/src/P.android.js'', seen_P)]\<rparr>,
      map_tbl = \<lparr>proto = NullProto, props = [(''P'', item_P)]\<rparr>,
      mocks = \<lparr>proto = NullProto, props = []\<rparr>\<rparr>"
    using load_cache_cases[of ex_inst env_one _ "''cache''" cached_P] r f3
    by (simp add: cached_P_def setPrototypeOf_null_def)
  show ?thesis using r f1 f2 f3 w1 w2 w3 w4 by simp
qed

text \<open>
  C4. The watcher crawler is selected when the watcher is available and \<^verbatim>\<open>useWatchman\<close>
  is set. A crawler reports a failure by rejecting its promise; an exception of the first
  crawl is caught as well. If the watcher is selected and its crawl rejects or throws,
  the builder warns once and calls the native crawler once, with the same roots,
  extensions, ignore predicate and map. If that call fails too, the build is rejected
  with one error whose message contains the message of the watcher's error and the
  message of the retry's error: this is the only way the stage fails after the watcher
  has failed. If the call resolves, the build goes on with its map. If the native crawler
  is selected, its failure rejects the build with that error and nothing is retried.
\<close>

theorem crawl_retry_policy:
  "(select_crawler e s = WatchmanCrawl \<longleftrightarrow> canUseWatchman e \<and> useWatchman (hm_options s)) \<and>
   (select_crawler e s = WatchmanCrawl \<and>
    (watchmanCrawl e (roots (hm_options s)) (extensions (hm_options s)) (ignore_path e s) h = CrawlThrows err \<or>
     watchmanCrawl e (roots (hm_options s)) (extensions (hm_options s)) (ignore_path e s) h = CrawlRejects err) \<longrightarrow>
      events (snd (crawl_hm e s h)) =
        events s @
          [CrawlCall WatchmanCrawl (roots (hm_options s)) (extensions (hm_options s)) (ignore_path e s) h,
           Warn (watchman_warning err),
           CrawlCall NodeCrawl (roots (hm_options s)) (extensions (hm_options s)) (ignore_path e s) h] \<and>
      (nodeCrawl e (roots (hm_options s)) (extensions (hm_options s)) (ignore_path e s) h = CrawlRejects e2 \<longrightarrow>
         fst (crawl_hm e s h) = Inl (JsError ''Error'' (retry_message err e2)) \<and>
         sublist (err_message err) (retry_message err e2) \<and>
         sublist (err_message e2) (retry_message err e2)) \<and>
      (nodeCrawl e (roots (hm_options s)) (extensions (hm_options s)) (ignore_path e s) h = CrawlResolves h2 \<longrightarrow>
         fst (crawl_hm e s h) = Inr h2) \<and>
      ((\<forall>x. nodeCrawl e (roots (hm_options s)) (extensions (hm_options s)) (ignore_path e s) h \<noteq> CrawlThrows x) \<and>
       fst (crawl_hm e s h) = Inl failure \<longrightarrow>
         (\<exists>e3. nodeCrawl e (roots (hm_options s)) (extensions (hm_options s)) (ignore_path e s) h = CrawlRejects e3 \<and>
               failure = JsError ''Error'' (retry_message err e3)))) \<and>
   (select_crawler e s = NodeCrawl \<and>
    (nodeCrawl e (roots (hm_options s)) (extensions (hm_options s)) (ignore_path e s) h = CrawlThrows err \<or>
     nodeCrawl e (roots (hm_options s)) (extensions (hm_options s)) (ignore_path e s) h = CrawlRejects err) \<longrightarrow>
      crawl_hm e s h =
        (Inl err,
         s\<lparr>events := events s @
            [CrawlCall NodeCrawl (roots (hm_options s)) (extensions (hm_options s)) (ignore_path e s) h]\<rparr>))"
proof (intro conjI impI)
  show "select_crawler e s = WatchmanCrawl \<longleftrightarrow> canUseWatchman e \<and> useWatchman (hm_options s)"
    by (simp add: select_crawler_def)
next
  assume a: "select_crawler e s = WatchmanCrawl \<and>
    (watchmanCrawl e (roots (hm_options s)) (extensions (hm_options s)) (ignore_path e s) h = CrawlThrows err \<or>
     watchmanCrawl e (roots (hm_options s)) (extensions (hm_options s)) (ignore_path e s) h = CrawlRejects err)"
  note w = crawl_hm_watchman_fails[OF conjunct1[OF a] conjunct2[OF a]]
  show "events (snd (crawl_hm e s h)) =
        events s @
          [CrawlCall WatchmanCrawl (roots (hm_options s)) (extensions (hm_options s)) (ignore_path e s) h,
           Warn (watchman_warning err),
           CrawlCall NodeCrawl (roots (hm_options s)) (extensions (hm_options s)) (ignore_path e s) h]"
    by (simp add: w)
  show "fst (crawl_hm e s h) = Inl (JsError ''Error'' (retry_message err e2))"
    if "nodeCrawl e (roots (hm_options s)) (extensions (hm_options s)) (ignore_path e s) h = CrawlRejects e2"
    using that by (simp add: w)
  show "fst (crawl_hm e s h) = Inr h2"
    if "nodeCrawl e (roots (hm_options s)) (extensions (hm_options s)) (ignore_path e s) h = CrawlResolves h2"
    using that by (simp add: w)
  show "\<exists>e3. nodeCrawl e (roots (hm_options s)) (extensions (hm_options s)) (ignore_path e s) h = CrawlRejects e3 \<and>
               failure = JsError ''Error'' (retry_message err e3)"
    if "(\<forall>x. nodeCrawl e (roots (hm_options s)) (extensions (hm_options s)) (ignore_path e s) h \<noteq> CrawlThrows x) \<and>
       fst (crawl_hm e s h) = Inl failure"
    using that
    by (cases "nodeCrawl e (roots (hm_options s)) (extensions (hm_options s)) (ignore_path e s) h")
       (simp_all add: w)
next
  show "sublist (err_message err) (retry_message err e2)"
    by (rule retry_message_names)
  show "sublist (err_message e2) (retry_message err e2)"
    by (rule retry_message_names)
next
  assume a: "select_crawler e s = NodeCrawl \<and>
    (nodeCrawl e (roots (hm_options s)) (extensions (hm_options s)) (ignore_path e s) h = CrawlThrows err \<or>
     nodeCrawl e (roots (hm_options s)) (extensions (hm_options s)) (ignore_path e s) h = CrawlRejects err)"
  show "crawl_hm e s h =
        (Inl err,
         s\<lparr>events := events s @
            [CrawlCall NodeCrawl (roots (hm_options s)) (extensions (hm_options s)) (ignore_path e s) h]\<rparr>)"
    by (rule crawl_hm_node_fails[OF conjunct1[OF a] conjunct2[OF a]])
qed

theorem crawl_retry_policy_witness:
  "select_crawler env_watchman ex_inst = WatchmanCrawl \<and>
   watchmanCrawl env_watchman [''/src''] [''js''] (ignore_path env_watchman ex_inst) createEmptyMap =
     CrawlRejects (JsError ''Error'' ''watchman is not running'') \<and>
   nodeCrawl env_watchman [''/src''] [''js''] (ignore_path env_watchman ex_inst) createEmptyMap =
     CrawlRejects (JsError ''Error'' ''EACCES'') \<and>
   events (snd (crawl_hm env_watchman ex_inst createEmptyMap)) =
     [CrawlCall WatchmanCrawl [''/src''] [''js''] (ignore_path env_watchman ex_inst) createEmptyMap,
      Warn (watchman_warning (JsError ''Error'' ''watchman is not running'')),
      CrawlCall NodeCrawl [''/src''] [''js''] (ignore_path env_watchman ex_inst) createEmptyMap] \<and>
   fst (crawl_hm env_watchman ex_inst createEmptyMap) =
     Inl (JsError ''Error''
       (retry_message (JsError ''Error'' ''watchman is not running'') (JsError ''Error'' ''EACCES''))) \<and>
   select_crawler (env_watchman\<lparr>canUseWatchman := False\<rparr>) ex_inst = NodeCrawl \<and>
   fst (crawl_hm (env_watchman\<lparr>canUseWatchman := False\<rparr>) ex_inst createEmptyMap) =
     Inl (JsError ''Error'' ''EACCES'')"
proof -
  have s1: "select_crawler env_watchman ex_inst = WatchmanCrawl"
    "select_crawler (env_watchman\<lparr>canUseWatchman := False\<rparr>) ex_inst = NodeCrawl"
    by (simp_all add: select_crawler_def env_watchman_sel ex_inst_sel ex_options_sel)
  have o: "roots (hm_options ex_inst) = [''/src'']" "extensions (hm_options ex_inst) = [''js'']"
    "events ex_inst = []"
    by (simp_all add: ex_inst_sel ex_options_sel)
  have c: "watchmanCrawl env_watchman [''/src''] [''js''] (ignore_path env_watchman ex_inst) createEmptyMap =
     CrawlRejects (JsError ''Error'' ''watchman is not running'')"
    "nodeCrawl env_watchman [''/src''] [''js''] (ignore_path env_watchman ex_inst) createEmptyMap =
     CrawlRejects (JsError ''Error'' ''EACCES'')"
    "nodeCrawl (env_watchman\<lparr>canUseWatchman := False\<rparr>) [''/src''] [''js'']
       (ignore_path (env_watchman\<lparr>canUseWatchman := False\<rparr>) ex_inst) createEmptyMap =
     CrawlRejects (JsError ''Error'' ''EACCES'')"
    by (simp_all add: env_watchman_sel)
  have hyp: "select_crawler env_watchman ex_inst = WatchmanCrawl \<and>
    (watchmanCrawl env_watchman (roots (hm_options ex_inst)) (extensions (hm_options ex_inst))
       (ignore_path env_watchman ex_inst) createEmptyMap =
       CrawlThrows (JsError ''Error'' ''watchman is not running'') \<or>
     watchmanCrawl env_watchman (roots (hm_options ex_inst)) (extensions (hm_options ex_inst))
       (ignore_path env_watchman ex_inst) createEmptyMap =
       CrawlRejects (JsError ''Error'' ''watchman is not running''))"
    using s1 c by (simp add: o)
  note p = crawl_retry_policy[where e=env_watchman and s=ex_inst and h=createEmptyMap
      and err="JsError ''Error'' ''watchman is not running''" and ?e2.0="JsError ''Error'' ''EACCES''",
      THEN conjunct2, THEN conjunct1, THEN mp, OF hyp]
  have w1: "events (snd (crawl_hm env_watchman ex_inst createEmptyMap)) =
     [CrawlCall WatchmanCrawl [''/src''] [''js''] (ignore_path env_watchman ex_inst) createEmptyMap,
      Warn (watchman_warning (JsError ''Error'' ''watchman is not running'')),
      CrawlCall NodeCrawl [''/src''] [''js''] (ignore_path env_watchman ex_inst) createEmptyMap]"
    using p[THEN conjunct1] by (simp add: o)
  have n2: "nodeCrawl env_watchman (roots (hm_options ex_inst)) (extensions (hm_options ex_inst))
       (ignore_path env_watchman ex_inst) createEmptyMap = CrawlRejects (JsError ''Error'' ''EACCES'')"
    using c by (simp add: o)
  have w2: "fst (crawl_hm env_watchman ex_inst createEmptyMap) =
     Inl (JsError ''Error''
       (retry_message (JsError ''Error'' ''watchman is not running'') (JsError ''Error'' ''EACCES'')))"
    using p[THEN conjunct2, THEN conjunct1, THEN mp, OF n2] by (rule conjunct1)
  have hyp3: "select_crawler (env_watchman\<lparr>canUseWatchman := False\<rparr>) ex_inst = NodeCrawl \<and>
    (nodeCrawl (env_watchman\<lparr>canUseWatchman := False\<rparr>) (roots (hm_options ex_inst))
       (extensions (hm_options ex_inst))
       (ignore_path (env_watchman\<lparr>canUseWatchman := False\<rparr>) ex_inst) createEmptyMap =
       CrawlThrows (JsError ''Error'' ''EACCES'') \<or>
     nodeCrawl (env_watchman\<lparr>canUseWatchman := False\<rparr>) (roots (hm_options ex_inst))
       (extensions (hm_options ex_inst))
       (ignore_path (env_watchman\<lparr>canUseWatchman := False\<rparr>) ex_inst) createEmptyMap =
       CrawlRejects (JsError ''Error'' ''EACCES''))"
    using s1 c by (simp add: o)
  have w3: "fst (crawl_hm (env_watchman\<lparr>canUseWatchman := False\<rparr>) ex_inst createEmptyMap) =
     Inl (JsError ''Error'' ''EACCES'')"
    using crawl_retry_policy[where e="env_watchman\<lparr>canUseWatchman := False\<rparr>" and s=ex_inst
        and h=createEmptyMap and err="JsError ''Error'' ''EACCES''",
        THEN conjunct2, THEN conjunct2, THEN mp, OF hyp3]
    by simp
  show ?thesis using s1 c w1 w2 w3 by simp
qed

text \<open>
  C5. As the claim states it, no mocks entry is produced for a path whose worker reports
  an error. The loop registers the mock of a path that matches the mocks pattern before
  it hands the path to the worker, and the callback of the error only deletes the path
  from \<^verbatim>\<open>files\<close>: the published mocks keep the entry.
\<close>

theorem worker_error_mock_counterexample:
  "bs_jobs (scan_files ex_env crawled_mock inst_mocks) = [''/src/__mocks__/m.js''] \<and>
   worker_promise ex_env ''/src/__mocks__/m.js'' = Rejected (Some (JsError ''Error'' ''ENOENT'')) \<and>
   fst (buildHasteMap ex_env crawled_mock inst_mocks) =
     Inr (crawled_mock\<lparr>files := \<lparr>proto = NullProto, props = []\<rparr>,
                       map_tbl := \<lparr>proto = NullProto, props = []\<rparr>,
                       mocks := \<lparr>proto = NullProto, props = [(''m'', ''/src/__mocks__/m.js'')]\<rparr>\<rparr>) \<and>
   map_of [(''m'', ''/src/__mocks__/m.js'')] ''m'' = Some ''/src/__mocks__/m.js''"
  by (simp add: run_mock_scan run_mock_worker run_mock_build)

text \<open>
  C5, amended. For every path handed to a worker whose worker reports an error, the
  callback deletes the path from \<^verbatim>\<open>files\<close> and changes nothing else: neither the map nor
  the mocks (an entry the loop registered for the path stays) nor the console, and the
  callbacks of the remaining paths run. After a successful metadata stage the path is
  not a key of \<^verbatim>\<open>files\<close>. The error is silent: whether the stage fails and with which
  error, and the map, the mocks and the instance it ends with, are what they are when
  the callbacks of the failed paths are left out.
\<close>

theorem worker_error_drops_file:
  "(worker_promise e p = Rejected err \<longrightarrow>
      run_callbacks e (p # ps) st =
        run_callbacks e ps (st\<lparr>bs_files := AList.delete p (bs_files st)\<rparr>) \<and>
      p \<notin> fst ` set (AList.delete p (bs_files st))) \<and>
   (buildHasteMap e h s = (Inr h', s') \<and>
    p \<in> set (completion_order e (bs_jobs (scan_files e h s))) \<and>
    worker_promise e p = Rejected err \<longrightarrow>
      p \<notin> fst ` set (props (files h'))) \<and>
   fst (run_callbacks e ps st) = fst (run_callbacks e (filter (fulfilled e) ps) st) \<and>
   bs_map (snd (run_callbacks e ps st)) =
     bs_map (snd (run_callbacks e (filter (fulfilled e) ps) st)) \<and>
   bs_mocks (snd (run_callbacks e ps st)) =
     bs_mocks (snd (run_callbacks e (filter (fulfilled e) ps) st)) \<and>
   bs_inst (snd (run_callbacks e ps st)) =
     bs_inst (snd (run_callbacks e (filter (fulfilled e) ps) st))"
proof (intro conjI impI)
  show "run_callbacks e (p # ps) st =
        run_callbacks e ps (st\<lparr>bs_files := AList.delete p (bs_files st)\<rparr>)"
    if "worker_promise e p = Rejected err"
    using that by (simp add: onRejected_def)
  show "p \<notin> fst ` set (AList.delete p (bs_files st))"
    by (rule delete_notin_dom)
next
  assume a: "buildHasteMap e h s = (Inr h', s') \<and>
    p \<in> set (completion_order e (bs_jobs (scan_files e h s))) \<and>
    worker_promise e p = Rejected err"
  then obtain st1 where run: "run_callbacks e (completion_order e (bs_jobs (scan_files e h s)))
      (scan_files e h s) = (None, st1)" and f: "props (files h') = bs_files st1"
    using buildHasteMap_success[of e h s h' s'] by auto
  show "p \<notin> fst ` set (props (files h'))"
    using run_callbacks_deleted[OF run] a f by simp
next
  note r = run_callbacks_skip_rejected[of st st e ps, OF refl refl refl]
  show "fst (run_callbacks e ps st) = fst (run_callbacks e (filter (fulfilled e) ps) st)"
    using r by simp
  show "bs_map (snd (run_callbacks e ps st)) =
     bs_map (snd (run_callbacks e (filter (fulfilled e) ps) st))"
    using r by simp
  show "bs_mocks (snd (run_callbacks e ps st)) =
     bs_mocks (snd (run_callbacks e (filter (fulfilled e) ps) st))"
    using r by simp
  show "bs_inst (snd (run_callbacks e ps st)) =
     bs_inst (snd (run_callbacks e (filter (fulfilled e) ps) st))"
    using r by simp
qed

theorem worker_error_drops_file_witness:
  "worker_promise ex_env ''/src/__mocks__/m.js'' = Rejected (Some (JsError ''Error'' ''ENOENT'')) \<and>
   ''/src/__mocks__/m.js'' \<in>
     set (completion_order ex_env (bs_jobs (scan_files ex_env crawled_mock inst_mocks))) \<and>
   fst (buildHasteMap ex_env crawled_mock inst_mocks) =
     Inr (crawled_mock\<lparr>files := \<lparr>proto = NullProto, props = []\<rparr>,
                       map_tbl := \<lparr>proto = NullProto, props = []\<rparr>,
                       mocks := \<lparr>proto = NullProto, props = [(''m'', ''/src/__mocks__/m.js'')]\<rparr>\<rparr>) \<and>
   ''/src/__mocks__/m.js'' \<notin> fst ` set (props (files
     (crawled_mock\<lparr>files := \<lparr>proto = NullProto, props = []\<rparr>,
                   map_tbl := \<lparr>proto = NullProto, props = []\<rparr>,
                   mocks := \<lparr>proto = NullProto, props = [(''m'', ''/src/__mocks__/m.js'')]\<rparr>\<rparr>))) \<and>
   run_callbacks ex_env [''/src/__mocks__/m.js''] (scan_files ex_env crawled_mock inst_mocks) =
     run_callbacks ex_env [] ((scan_files ex_env crawled_mock inst_mocks)\<lparr>bs_files := []\<rparr>)"
proof -
  have j: "''/src/__mocks__/m.js'' \<in>
     set (completion_order ex_env (bs_jobs (scan_files ex_env crawled_mock inst_mocks)))"
    by (simp add: run_mock_scan ex_env_sel)
  have b: "buildHasteMap ex_env crawled_mock inst_mocks =
     (Inr (crawled_mock\<lparr>files := \<lparr>proto = NullProto, props = []\<rparr>,
                       map_tbl := \<lparr>proto = NullProto, props = []\<rparr>,
                       mocks := \<lparr>proto = NullProto, props = [(''m'', ''/src/__mocks__/m.js'')]\<rparr>\<rparr>),
      snd (buildHasteMap ex_env crawled_mock inst_mocks))"
    using run_mock_build by (cases "buildHasteMap ex_env crawled_mock inst_mocks") simp
  note t = worker_error_drops_file[of ex_env "''/src/__mocks__/m.js''"
      "Some (JsError ''Error'' ''ENOENT'')" "[]" "scan_files ex_env crawled_mock inst_mocks"
      crawled_mock inst_mocks _ "snd (buildHasteMap ex_env crawled_mock inst_mocks)"]
  have w1: "''/src/__mocks__/m.js'' \<notin> fst ` set (props (files
     (crawled_mock\<lparr>files := \<lparr>proto = NullProto, props = []\<rparr>,
                   map_tbl := \<lparr>proto = NullProto, props = []\<rparr>,
                   mocks := \<lparr>proto = NullProto, props = [(''m'', ''/src/__mocks__/m.js'')]\<rparr>\<rparr>)))"
    using t[THEN conjunct2, THEN conjunct1] b j run_mock_worker by blast
  have w2: "run_callbacks ex_env [''/src/__mocks__/m.js''] (scan_files ex_env crawled_mock inst_mocks) =
     run_callbacks ex_env [] ((scan_files ex_env crawled_mock inst_mocks)\<lparr>bs_files := []\<rparr>)"
    using t[THEN conjunct1] run_mock_worker by (simp add: run_mock_scan)
  show ?thesis using run_mock_worker j run_mock_build w1 w2 by blast
qed

text \<open>
  C6. As the claim states it, two configurations that differ in their roots or their
  extensions have distinct cache file paths. The digest is fed the tokens one behind the
  other with nothing between them, so the roots \<^verbatim>\<open>/src\<close> with the extensions \<^verbatim>\<open>js\<close>,
  \<^verbatim>\<open>json\<close> and the roots \<^verbatim>\<open>/srcj\<close> with the extensions \<^verbatim>\<open>s\<close>, \<^verbatim>\<open>json\<close> feed it the same
  data and get the same path, whatever the digest is (here the identity).
\<close>

theorem cache_path_collision_counterexample:
  "u_roots uo_one \<noteq> u_roots uo_two \<and> u_extensions uo_one \<noteq> u_extensions uo_two \<and>
   constructor_cachePath ex_env uo_one =
     Inr ''/tmp/jest-jest18.0.0/srcjs:jsonios:android__mocks__'' \<and>
   constructor_cachePath ex_env uo_two = constructor_cachePath ex_env uo_one"
  by (simp add: constructor_cachePath_mocks uo_sel internal_options_sel ex_env_sel
      replace_nonword_def word_char_def)

text \<open>
  C6, amended. The cache file path is a function of the cache directory, the name, the
  builder version, the roots, the extensions, the platforms and the mocks pattern: the
  cache directory joined with the name (its non-word characters replaced by \<^verbatim>\<open>-\<close>), a
  \<^verbatim>\<open>-\<close> and the MD5 hex digest of the name followed by the version, the roots joined by
  \<^verbatim>\<open>:\<close>, the extensions joined by \<^verbatim>\<open>:\<close>, the platforms joined by \<^verbatim>\<open>:\<close> and the mocks
  pattern, with nothing between these tokens. Two configurations with the same cache
  directory have distinct paths whenever the digests of their tokens differ (digests
  have one length, and joining a directory with two different file names gives two
  different paths).
\<close>

theorem cache_path_function:
  "(u_mocksPattern u = Some mp \<longrightarrow>
      constructor_cachePath e u =
        Inr (path_join e (cacheDirectory (internal_options e u))
          (replace_nonword (u_name u) @ ''-'' @
           md5_hex e (u_name u @ VERSION e @ join_colon (u_roots u) @
                      join_colon (u_extensions u) @ join_colon (u_platforms u) @ mp)))) \<and>
   getCacheFilePath e dir nm (map Some ts) =
     Inr (path_join e dir (replace_nonword nm @ ''-'' @ md5_hex e (nm @ concat ts))) \<and>
   length (replace_nonword nm) = length nm \<and>
   (\<forall>c \<in> set (replace_nonword nm). word_char c \<or> c = CHR ''-'') \<and>
   (md5_hex e (nm @ concat ts) \<noteq> md5_hex e (nm' @ concat ts') \<and>
    length (md5_hex e (nm @ concat ts)) = length (md5_hex e (nm' @ concat ts')) \<and>
    (\<forall>a b. path_join e dir a = path_join e dir b \<longrightarrow> a = b) \<longrightarrow>
      getCacheFilePath e dir nm (map Some ts) \<noteq> getCacheFilePath e dir nm' (map Some ts'))"
proof (intro conjI impI ballI)
  show "constructor_cachePath e u =
        Inr (path_join e (cacheDirectory (internal_options e u))
          (replace_nonword (u_name u) @ ''-'' @
           md5_hex e (u_name u @ VERSION e @ join_colon (u_roots u) @
                      join_colon (u_extensions u) @ join_colon (u_platforms u) @ mp)))"
    if "u_mocksPattern u = Some mp"
    using that by (rule constructor_cachePath_mocks)
  show "getCacheFilePath e dir nm (map Some ts) =
     Inr (path_join e dir (replace_nonword nm @ ''-'' @ md5_hex e (nm @ concat ts)))"
    by (rule getCacheFilePath_strings)
  show "length (replace_nonword nm) = length nm"
    by (rule replace_nonword_chars)
  show "word_char c \<or> c = CHR ''-''" if "c \<in> set (replace_nonword nm)" for c
    using that by (rule replace_nonword_chars)
next
  assume a: "md5_hex e (nm @ concat ts) \<noteq> md5_hex e (nm' @ concat ts') \<and>
    length (md5_hex e (nm @ concat ts)) = length (md5_hex e (nm' @ concat ts')) \<and>
    (\<forall>a b. path_join e dir a = path_join e dir b \<longrightarrow> a = b)"
  show "getCacheFilePath e dir nm (map Some ts) \<noteq> getCacheFilePath e dir nm' (map Some ts')"
  proof
    assume "getCacheFilePath e dir nm (map Some ts) = getCacheFilePath e dir nm' (map Some ts')"
    then have "path_join e dir (replace_nonword nm @ ''-'' @ md5_hex e (nm @ concat ts)) =
               path_join e dir (replace_nonword nm' @ ''-'' @ md5_hex e (nm' @ concat ts'))"
      by (simp add: getCacheFilePath_strings)
    then have "replace_nonword nm @ ''-'' @ md5_hex e (nm @ concat ts) =
               replace_nonword nm' @ ''-'' @ md5_hex e (nm' @ concat ts')"
      using a by blast
    then have "(replace_nonword nm @ ''-'') @ md5_hex e (nm @ concat ts) =
               (replace_nonword nm' @ ''-'') @ md5_hex e (nm' @ concat ts')"
      by simp
    moreover have "length (md5_hex e (nm @ concat ts)) = length (md5_hex e (nm' @ concat ts'))"
      using a by simp
    ultimately have "md5_hex e (nm @ concat ts) = md5_hex e (nm' @ concat ts')"
      by (rule same_length_suffix)
    with a show False by simp
  qed
qed

theorem cache_path_function_witness:
  "u_mocksPattern uo_one = Some ''__mocks__'' \<and>
   constructor_cachePath ex_env uo_one =
     Inr ''/tmp/jest-jest18.0.0/srcjs:jsonios:android__mocks__'' \<and>
   replace_nonword ''my app'' = ''my-app'' \<and>
   length (replace_nonword ''my app'') = length ''my app'' \<and>
   md5_hex ex_env (''jest'' @ concat [''1.0'', ''/a'']) \<noteq> md5_hex ex_env (''jest'' @ concat [''1.0'', ''/b'']) \<and>
   length (md5_hex ex_env (''jest'' @ concat [''1.0'', ''/a''])) =
     length (md5_hex ex_env (''jest'' @ concat [''1.0'', ''/b''])) \<and>
   path_join ex_env ''/tmp'' = (\<lambda>f. ''/tmp'' @ ''/'' @ f) \<and>
   getCacheFilePath ex_env ''/tmp'' ''jest'' (map Some [''1.0'', ''/a'']) \<noteq>
     getCacheFilePath ex_env ''/tmp'' ''jest'' (map Some [''1.0'', ''/b''])"
proof -
  have m: "u_mocksPattern uo_one = Some ''__mocks__''" by (simp add: uo_sel)
  have w1: "constructor_cachePath ex_env uo_one =
     Inr ''/tmp/jest-jest18.0.0/srcjs:jsonios:android__mocks__''"
    using cache_path_function[of uo_one "''__mocks__''" ex_env, THEN conjunct1] m
    by (simp add: uo_sel internal_options_sel ex_env_sel replace_nonword_def word_char_def)
  have w2: "length (replace_nonword ''my app'') = length ''my app''"
    using cache_path_function[where nm="''my app''"] by blast
  have j: "path_join ex_env ''/tmp'' = (\<lambda>f. ''/tmp'' @ ''/'' @ f)"
    by (simp add: ex_env_sel)
  have w2': "replace_nonword ''my app'' = ''my-app''"
    by (simp add: replace_nonword_def word_char_def)
  have d: "md5_hex ex_env (''jest'' @ concat [''1.0'', ''/a'']) \<noteq> md5_hex ex_env (''jest'' @ concat [''1.0'', ''/b''])"
    "length (md5_hex ex_env (''jest'' @ concat [''1.0'', ''/a''])) =
     length (md5_hex ex_env (''jest'' @ concat [''1.0'', ''/b'']))"
    "\<forall>a b. path_join ex_env ''/tmp'' a = path_join ex_env ''/tmp'' b \<longrightarrow> a = b"
    by (simp_all add: ex_env_sel)
  have w3: "getCacheFilePath ex_env ''/tmp'' ''jest'' (map Some [''1.0'', ''/a'']) \<noteq>
     getCacheFilePath ex_env ''/tmp'' ''jest'' (map Some [''1.0'', ''/b''])"
    using cache_path_function[where e=ex_env and dir="''/tmp''" and nm="''jest''" and nm'="''jest''"
        and ts="[''1.0'', ''/a'']" and ts'="[''1.0'', ''/b'']", THEN conjunct2, THEN conjunct2,
        THEN conjunct2, THEN conjunct2] d
    by blast
  show ?thesis using m w1 w2 w2' d(1,2) j w3 by blast
qed

text \<open>
  C7. As the claim states it, a path under \<^verbatim>\<open>node_modules/<name>/\<close> is whitelisted iff the
  name is configured, however many \<^verbatim>\<open>node_modules\<close> segments or whitelisted names the
  path has. With the packages \<^verbatim>\<open>react\<close> and \<^verbatim>\<open>fbjs\<close> configured, a file of \<^verbatim>\<open>fbjs\<close>
  nested in \<^verbatim>\<open>react\<close> is ignored (the whitelist matches twice), and a file of
  \<^verbatim>\<open>left-pad\<close> nested in \<^verbatim>\<open>react\<close> is not ignored (the whitelist matches once), although
  \<^verbatim>\<open>left-pad\<close> is not configured.
\<close>

theorem whitelist_nested_counterexample:
  "getWhiteList ex_env (Some [''react'', ''fbjs'']) = Inr (whitelist inst_whitelist) \<and>
   whitelist_source ex_env [''react'', ''fbjs''] = ''(/node_modules/(?:react|fbjs)(?=$|/))'' \<and>
   ignorePattern (hm_options inst_whitelist) 0 = (\<lambda>p. (False, 0)) \<and>
   \<not> retainAllFiles (hm_options inst_whitelist) \<and>
   ignore_path ex_env inst_whitelist ''/app/node_modules/react/node_modules/fbjs/index.js'' 0 =
     (True, 0) \<and>
   ignore_path ex_env inst_whitelist ''/app/node_modules/react/index.js'' 0 = (False, 0) \<and>
   ignore_path ex_env inst_whitelist ''/app/node_modules/react/node_modules/left-pad/index.js'' 0 =
     (False, 0)"
  by (simp add: ignore_path_def inst_whitelist_sel ex_options_sel getWhiteList_ex
      whitelist_source_ex ex_nested_ignored ex_single_kept ex_foreign_kept)

text \<open>
  C7, amended. The ignore predicate holds of a path iff the \<^verbatim>\<open>test\<close> of the ignore pattern
  accepts the path (from the \<^verbatim>\<open>lastIndex\<close> the pattern has, which the call moves), or
  \<^verbatim>\<open>retainAllFiles\<close> is off and the path contains \<^verbatim>\<open>/node_modules/\<close> and is not
  whitelisted. A path is whitelisted iff a whitelist is configured and its expression
  matches the path exactly once. The expression is compiled from
  \<^verbatim>\<open>(/node_modules/(?:n1|n2|...)(?=$|/))\<close>, the configured names put in as they are; no
  whitelist is configured for no list and for the empty list. When the expression matches
  the configured names literally in a path (as it does for names that hold no character
  with a meaning in a regular expression), no configured name holds a separator and the
  path has a single \<^verbatim>\<open>/node_modules/\<close>, directly followed by \<^verbatim>\<open><name>/\<close>, the path is whitelisted
  iff the name is one of the configured names.
\<close>

theorem ignore_path_whitelist:
  "ignore_path e s p lastIndex =
     (fst (ignorePattern (hm_options s) lastIndex p) \<or>
        (\<not> retainAllFiles (hm_options s) \<and> isNodeModulesDir e s p),
      snd (ignorePattern (hm_options s) lastIndex p)) \<and>
   (isNodeModulesDir e s p \<longleftrightarrow>
      str_includes p (NODE_MODULES e) \<and> \<not> (\<exists>re. whitelist s = Some re \<and> re p = 1)) \<and>
   getWhiteList e None = Inr None \<and>
   getWhiteList e (Some []) = Inr None \<and>
   (names \<noteq> [] \<longrightarrow>
      getWhiteList e (Some names) =
        (case regexp_g e (whitelist_source e names) of
           Inl err \<Rightarrow> Inl err
         | Inr re \<Rightarrow> Inr (Some re))) \<and>
   (sep e \<noteq> CHR 0x5C \<longrightarrow>
      whitelist_source e names =
        ''('' @ NODE_MODULES e @ ''(?:'' @ join_bar names @ '')(?=$|'' @ [sep e] @ ''))'') \<and>
   (getWhiteList e (Some names) = Inr (Some re) \<and> whitelist s = Some re \<and>
    re p = match_count (NODE_MODULES e) (sep e) names p \<and>
    p = pre @ NODE_MODULES e @ n @ sep e # rest \<and>
    occurrences (NODE_MODULES e) p = [length pre] \<and>
    sep e \<notin> set n \<and> (\<forall>m \<in> set names. sep e \<notin> set m) \<longrightarrow>
      (isNodeModulesDir e s p \<longleftrightarrow> n \<notin> set names))"
proof (intro conjI impI)
  show "ignore_path e s p lastIndex =
     (fst (ignorePattern (hm_options s) lastIndex p) \<or>
        (\<not> retainAllFiles (hm_options s) \<and> isNodeModulesDir e s p),
      snd (ignorePattern (hm_options s) lastIndex p))"
    by (simp add: ignore_path_def split: prod.splits)
  show "isNodeModulesDir e s p \<longleftrightarrow>
      str_includes p (NODE_MODULES e) \<and> \<not> (\<exists>re. whitelist s = Some re \<and> re p = 1)"
    by (cases "whitelist s") (auto simp: isNodeModulesDir_def Let_def)
  show "getWhiteList e None = Inr None"
    by (simp add: getWhiteList_def)
  show "getWhiteList e (Some []) = Inr None"
    by (simp add: getWhiteList_def)
  show "getWhiteList e (Some names) =
        (case regexp_g e (whitelist_source e names) of
           Inl err \<Rightarrow> Inl err
         | Inr re \<Rightarrow> Inr (Some re))"
    if "names \<noteq> []"
    using that by (simp add: getWhiteList_def)
  show "whitelist_source e names =
        ''('' @ NODE_MODULES e @ ''(?:'' @ join_bar names @ '')(?=$|'' @ [sep e] @ ''))''"
    if "sep e \<noteq> CHR 0x5C"
    using that by (simp add: whitelist_source_def escapePathSeparator_def)
next
  assume a: "getWhiteList e (Some names) = Inr (Some re) \<and> whitelist s = Some re \<and>
    re p = match_count (NODE_MODULES e) (sep e) names p \<and>
    p = pre @ NODE_MODULES e @ n @ sep e # rest \<and>
    occurrences (NODE_MODULES e) p = [length pre] \<and>
    sep e \<notin> set n \<and> (\<forall>m \<in> set names. sep e \<notin> set m)"
  then have c: "match_count (NODE_MODULES e) (sep e) names p = (if n \<in> set names then 1 else 0)"
    using match_count_single[of p pre e n rest names] by blast
  from a have "occurrences (NODE_MODULES e) p = [length pre]" by blast
  then have "length pre \<in> set (occurrences (NODE_MODULES e) p)" by simp
  then have "prefix (NODE_MODULES e) (drop (length pre) p)"
    by (simp add: occurrences_positions)
  then obtain zs where "drop (length pre) p = NODE_MODULES e @ zs"
    by (auto simp: prefix_def)
  then have "p = take (length pre) p @ NODE_MODULES e @ zs"
    by (metis append_take_drop_id)
  then have "sublist (NODE_MODULES e) p"
    by (metis sublist_appendI)
  then have inc: "str_includes p (NODE_MODULES e)"
    by (simp add: str_includes_iff)
  from a have ws: "whitelist s = Some re" by blast
  from a have "re p = match_count (NODE_MODULES e) (sep e) names p" by blast
  with c have rp: "re p = (if n \<in> set names then 1 else 0)" by (simp only:)
  show "isNodeModulesDir e s p \<longleftrightarrow> n \<notin> set names"
    using inc ws rp by (simp add: isNodeModulesDir_def Let_def)
qed

theorem ignore_path_whitelist_witness:
  "getWhiteList ex_env (Some [''react'', ''fbjs'']) =
     Inr (Some (match_count ''/node_modules/'' CHR ''/'' [''react'', ''fbjs''])) \<and>
   whitelist inst_whitelist = Some (match_count ''/node_modules/'' CHR ''/'' [''react'', ''fbjs'']) \<and>
   NODE_MODULES ex_env = ''/node_modules/'' \<and> sep ex_env = CHR ''/'' \<and>
   ''/app/node_modules/react/index.js'' = ''/app'' @ NODE_MODULES ex_env @ ''react'' @ sep ex_env # ''index.js'' \<and>
   occurrences (NODE_MODULES ex_env) ''/app/node_modules/react/index.js'' = [length ''/app''] \<and>
   sep ex_env \<notin> set ''react'' \<and> sep ex_env \<notin> set ''fbjs'' \<and>
   ''react'' \<in> set [''react'', ''fbjs''] \<and>
   \<not> isNodeModulesDir ex_env inst_whitelist ''/app/node_modules/react/index.js'' \<and>
   ''/app/node_modules/left-pad/index.js'' = ''/app'' @ NODE_MODULES ex_env @ ''left-pad'' @ sep ex_env # ''index.js'' \<and>
   occurrences (NODE_MODULES ex_env) ''/app/node_modules/left-pad/index.js'' = [length ''/app''] \<and>
   sep ex_env \<notin> set ''left-pad'' \<and>
   ''left-pad'' \<notin> set [''react'', ''fbjs''] \<and>
   isNodeModulesDir ex_env inst_whitelist ''/app/node_modules/left-pad/index.js'' \<and>
   ignore_path ex_env inst_whitelist ''/app/node_modules/left-pad/index.js'' 0 = (True, 0)"
proof -
  let ?re = "match_count ''/node_modules/'' CHR ''/'' [''react'', ''fbjs'']"
  have p1: "''/app/node_modules/react/index.js'' = ''/app'' @ NODE_MODULES ex_env @ ''react'' @ sep ex_env # ''index.js''"
    "''/app/node_modules/left-pad/index.js'' = ''/app'' @ NODE_MODULES ex_env @ ''left-pad'' @ sep ex_env # ''index.js''"
    by (simp_all add: NODE_MODULES_ex ex_env_sel)
  have o: "occurrences (NODE_MODULES ex_env) ''/app/node_modules/react/index.js'' = [length ''/app'']"
    "occurrences (NODE_MODULES ex_env) ''/app/node_modules/left-pad/index.js'' = [length ''/app'']"
    by (simp_all add: NODE_MODULES_ex)
  have f: "sep ex_env \<notin> set ''react''" "sep ex_env \<notin> set ''left-pad''"
    "\<forall>m \<in> set [''react'', ''fbjs'']. sep ex_env \<notin> set m"
    "''react'' \<in> set [''react'', ''fbjs'']" "''left-pad'' \<notin> set [''react'', ''fbjs'']"
    "sep ex_env \<notin> set ''fbjs''"
    by (simp_all add: ex_env_sel)
  note w = inst_whitelist_sel(1)
  note g = getWhiteList_ex
  have n: "NODE_MODULES ex_env = ''/node_modules/''" "sep ex_env = CHR ''/''"
    by (simp_all add: NODE_MODULES_ex ex_env_sel)
  have r: "?re p = match_count (NODE_MODULES ex_env) (sep ex_env) [''react'', ''fbjs''] p" for p
    by (simp only: n)
  have h1: "getWhiteList ex_env (Some [''react'', ''fbjs'']) = Inr (Some ?re) \<and>
    whitelist inst_whitelist = Some ?re \<and>
    ?re ''/app/node_modules/react/index.js'' =
      match_count (NODE_MODULES ex_env) (sep ex_env) [''react'', ''fbjs'']
        ''/app/node_modules/react/index.js'' \<and>
    ''/app/node_modules/react/index.js'' =
      ''/app'' @ NODE_MODULES ex_env @ ''react'' @ sep ex_env # ''index.js'' \<and>
    occurrences (NODE_MODULES ex_env) ''/app/node_modules/react/index.js'' = [length ''/app''] \<and>
    sep ex_env \<notin> set ''react'' \<and> (\<forall>m \<in> set [''react'', ''fbjs'']. sep ex_env \<notin> set m)"
    using g w r p1(1) o(1) f(1,3) by blast
  have h2: "getWhiteList ex_env (Some [''react'', ''fbjs'']) = Inr (Some ?re) \<and>
    whitelist inst_whitelist = Some ?re \<and>
    ?re ''/app/node_modules/left-pad/index.js'' =
      match_count (NODE_MODULES ex_env) (sep ex_env) [''react'', ''fbjs'']
        ''/app/node_modules/left-pad/index.js'' \<and>
    ''/app/node_modules/left-pad/index.js'' =
      ''/app'' @ NODE_MODULES ex_env @ ''left-pad'' @ sep ex_env # ''index.js'' \<and>
    occurrences (NODE_MODULES ex_env) ''/app/node_modules/left-pad/index.js'' = [length ''/app''] \<and>
    sep ex_env \<notin> set ''left-pad'' \<and> (\<forall>m \<in> set [''react'', ''fbjs'']. sep ex_env \<notin> set m)"
    using g w r p1(2) o(2) f(2,3) by blast
  have w1: "\<not> isNodeModulesDir ex_env inst_whitelist ''/app/node_modules/react/index.js''"
    using ignore_path_whitelist[where e=ex_env and s=inst_whitelist and pre="''/app''"
        and n="''react''" and rest="''index.js''" and names="[''react'', ''fbjs'']" and re="?re"
        and p="''/app/node_modules/react/index.js''", THEN conjunct2, THEN conjunct2,
        THEN conjunct2, THEN conjunct2, THEN conjunct2, THEN conjunct2, THEN mp, OF h1] f(4)
    by simp
  have w2: "isNodeModulesDir ex_env inst_whitelist ''/app/node_modules/left-pad/index.js''"
    using ignore_path_whitelist[where e=ex_env and s=inst_whitelist and pre="''/app''"
        and n="''left-pad''" and rest="''index.js''" and names="[''react'', ''fbjs'']" and re="?re"
        and p="''/app/node_modules/left-pad/index.js''", THEN conjunct2, THEN conjunct2,
        THEN conjunct2, THEN conjunct2, THEN conjunct2, THEN conjunct2, THEN mp, OF h2] f(5)
    by simp
  have w3: "ignore_path ex_env inst_whitelist ''/app/node_modules/left-pad/index.js'' 0 = (True, 0)"
    using w2 by (simp add: ignore_path_def inst_whitelist_sel ex_options_sel)
  show ?thesis using g w n p1 o f(1,2,4,5,6) w1 w2 w3 by blast
qed

text \<open>
  C8. On an instance on which \<^verbatim>\<open>build()\<close> has not been called, whatever calls of
  \<^verbatim>\<open>build()\<close> and turns of the event loop follow: every call returns the promise of the
  first call, one promise per call; at most one pipeline is started and at most one
  runs to its end, whether the calls come while the first build is pending or after it
  has settled.
\<close>

theorem build_single_flight:
  "buildPromise (the_inst w) = None \<and> outcomes w = [] \<and> run_steps e ks w = (ps, w') \<longrightarrow>
     (\<forall>p \<in> set ps. p = started w) \<and>
     length ps = length (filter (\<lambda>k. k = CallBuild) ks) \<and>
     started w' \<le> Suc (started w) \<and>
     (CallBuild \<in> set ks \<longrightarrow>
        started w' = Suc (started w) \<and> buildPromise (the_inst w') = Some (started w)) \<and>
     length (outcomes w') \<le> 1"
proof (intro impI)
  assume a: "buildPromise (the_inst w) = None \<and> outcomes w = [] \<and> run_steps e ks w = (ps, w')"
  then have n: "buildPromise (the_inst w) = None" and o: "outcomes w = []"
    and r: "run_steps e ks w = (ps, w')"
    by simp_all
  note f = run_steps_fresh[OF n r]
  show "(\<forall>p \<in> set ps. p = started w) \<and>
     length ps = length (filter (\<lambda>k. k = CallBuild) ks) \<and>
     started w' \<le> Suc (started w) \<and>
     (CallBuild \<in> set ks \<longrightarrow>
        started w' = Suc (started w) \<and> buildPromise (the_inst w') = Some (started w)) \<and>
     length (outcomes w') \<le> 1"
    using f run_steps_length[OF r] run_steps_single_fresh[OF n o r] by auto
qed

theorem build_single_flight_witness:
  "buildPromise (the_inst (new_session ex_inst)) = None \<and>
   outcomes (new_session ex_inst) = [] \<and>
   fst (run_steps env_one [CallBuild, RunEventLoop, CallBuild, CallBuild] (new_session ex_inst)) =
     [0, 0, 0] \<and>
   started (snd (run_steps env_one [CallBuild, RunEventLoop, CallBuild, CallBuild]
     (new_session ex_inst))) = 1 \<and>
   length (outcomes (snd (run_steps env_one [CallBuild, RunEventLoop, CallBuild, CallBuild]
     (new_session ex_inst)))) \<le> 1"
proof -
  let ?ks = "[CallBuild, RunEventLoop, CallBuild, CallBuild]"
  let ?r = "run_steps env_one ?ks (new_session ex_inst)"
  have n: "buildPromise (the_inst (new_session ex_inst)) = None"
    "outcomes (new_session ex_inst) = []" "started (new_session ex_inst) = 0"
    by (simp_all add: ex_inst_sel)
  have r: "run_steps env_one ?ks (new_session ex_inst) = (fst ?r, snd ?r)" by simp
  note t = build_single_flight[of "new_session ex_inst" env_one ?ks "fst ?r" "snd ?r"]
  have all0: "set (fst ?r) \<subseteq> {0}" using t n r by auto
  have len: "length (fst ?r) = 3" using t n r by simp
  have w1: "fst ?r = [0, 0, 0]"
    using all_equal_replicate[OF all0] len by (simp add: numeral_3_eq_3)
  have w2: "started (snd ?r) = 1" using t n r by simp
  have w3: "length (outcomes (snd ?r)) \<le> 1" using t n r by blast
  show ?thesis using n(1,2) w1 w2 w3 by blast
qed

text \<open>
  C10. The first call of \<^verbatim>\<open>build()\<close> sets the shared promise, and nothing clears it: it
  stays through every later call and turn of the event loop. When the pipeline rejects,
  the promise is settled with the error and stays the shared promise; from then on
  \<^verbatim>\<open>build()\<close> returns that rejected promise and changes nothing, and no pipeline runs
  again: the failed build is never retried on the instance.
\<close>

theorem build_promise_latched:
  "(buildPromise (the_inst w) = None \<longrightarrow>
      buildPromise (the_inst (snd (build w))) = Some (fst (build w))) \<and>
   (buildPromise (the_inst w) = Some p \<longrightarrow>
      buildPromise (the_inst (snd (run_steps e ks w))) = Some p \<and>
      set (fst (run_steps e ks w)) \<subseteq> {p} \<and>
      started (snd (run_steps e ks w)) = started w) \<and>
   (buildPromise (the_inst w) = Some p \<and> map_of (outcomes w) p = None \<and>
    fst (pipeline e (the_inst w)) = Inl err \<longrightarrow>
      map_of (outcomes (settle e w)) p = Some (Inl err) \<and>
      buildPromise (the_inst (settle e w)) = Some p) \<and>
   (buildPromise (the_inst w) = Some p \<and> map_of (outcomes w) p = Some (Inl err) \<longrightarrow>
      build w = (p, w) \<and> settle e w = w \<and>
      run_steps e ks w = (replicate (length (filter (\<lambda>k. k = CallBuild) ks)) p, w))"
proof (intro conjI impI)
  show "buildPromise (the_inst (snd (build w))) = Some (fst (build w))"
    if "buildPromise (the_inst w) = None"
    using that by (simp add: build_first)
next
  assume a: "buildPromise (the_inst w) = Some p"
  have r: "run_steps e ks w = (fst (run_steps e ks w), snd (run_steps e ks w))" by simp
  note l = run_steps_latched[OF a r]
  show "buildPromise (the_inst (snd (run_steps e ks w))) = Some p" using l by simp
  show "set (fst (run_steps e ks w)) \<subseteq> {p}" using l by simp
  show "started (snd (run_steps e ks w)) = started w" using l by simp
next
  assume a: "buildPromise (the_inst w) = Some p \<and> map_of (outcomes w) p = None \<and>
    fst (pipeline e (the_inst w)) = Inl err"
  then have s: "settle e w =
           w\<lparr>the_inst := snd (pipeline e (the_inst w)),
             outcomes := outcomes w @ [(p, fst (pipeline e (the_inst w)))]\<rparr>"
    using settle_pending[of w p e] by blast
  show "map_of (outcomes (settle e w)) p = Some (Inl err)"
    using a by (simp add: s map_add_def)
  show "buildPromise (the_inst (settle e w)) = Some p"
    using a by simp
next
  assume a: "buildPromise (the_inst w) = Some p \<and> map_of (outcomes w) p = Some (Inl err)"
  show "build w = (p, w)" using a by (simp add: build_latched)
  show "settle e w = w" using a settle_settled[of w p "Inl err" e] by blast
  show "run_steps e ks w = (replicate (length (filter (\<lambda>k. k = CallBuild) ks)) p, w)"
    using a run_steps_settled[of w p "Inl err" e ks] by blast
qed

theorem build_promise_latched_witness:
  "buildPromise (the_inst (new_session ex_inst)) = None \<and>
   fst (build (new_session ex_inst)) = 0 \<and>
   buildPromise (the_inst (snd (build (new_session ex_inst)))) = Some 0 \<and>
   map_of (outcomes (snd (build (new_session ex_inst)))) 0 = None \<and>
   fst (pipeline env_watchman (the_inst (snd (build (new_session ex_inst))))) =
     Inl (JsError ''Error''
       (retry_message (JsError ''Error'' ''watchman is not running'') (JsError ''Error'' ''EACCES''))) \<and>
   map_of (outcomes (settle env_watchman (snd (build (new_session ex_inst))))) 0 =
     Some (Inl (JsError ''Error''
       (retry_message (JsError ''Error'' ''watchman is not running'') (JsError ''Error'' ''EACCES'')))) \<and>
   buildPromise (the_inst (settle env_watchman (snd (build (new_session ex_inst))))) = Some 0 \<and>
   build (settle env_watchman (snd (build (new_session ex_inst)))) =
     (0, settle env_watchman (snd (build (new_session ex_inst)))) \<and>
   settle env_watchman (settle env_watchman (snd (build (new_session ex_inst)))) =
     settle env_watchman (snd (build (new_session ex_inst))) \<and>
   run_steps env_watchman [CallBuild, RunEventLoop, CallBuild]
       (settle env_watchman (snd (build (new_session ex_inst)))) =
     ([0, 0], settle env_watchman (snd (build (new_session ex_inst))))"
proof -
  let ?w0 = "new_session ex_inst"
  let ?w1 = "snd (build ?w0)"
  let ?w2 = "settle env_watchman ?w1"
  let ?err = "JsError ''Error''
       (retry_message (JsError ''Error'' ''watchman is not running'') (JsError ''Error'' ''EACCES''))"
  have n: "buildPromise (the_inst ?w0) = None" by (simp add: ex_inst_sel)
  have b: "build ?w0 = (0, ?w0\<lparr>the_inst := ex_inst\<lparr>buildPromise := Some 0\<rparr>, started := Suc 0\<rparr>)"
    using build_first[OF n] by simp
  have f: "fst (build ?w0) = 0" by (simp add: b)
  have w1: "buildPromise (the_inst ?w1) = Some 0"
    using build_promise_latched[of ?w0, THEN conjunct1] n f by simp
  have o1: "map_of (outcomes ?w1) 0 = None" by (simp add: b)
  have p1: "fst (pipeline env_watchman (the_inst ?w1)) = Inl ?err"
    by (rule run_watchman_pipeline) (simp add: b ex_inst_sel)
  have w2: "map_of (outcomes ?w2) 0 = Some (Inl ?err)" "buildPromise (the_inst ?w2) = Some 0"
    using build_promise_latched[of ?w1 0 env_watchman _ ?err, THEN conjunct2, THEN conjunct2,
        THEN conjunct1] w1 o1 p1
    by blast+
  have w3: "build ?w2 = (0, ?w2)" "settle env_watchman ?w2 = ?w2"
    "run_steps env_watchman [CallBuild, RunEventLoop, CallBuild] ?w2 = ([0, 0], ?w2)"
    using build_promise_latched[of ?w2 0 env_watchman "[CallBuild, RunEventLoop, CallBuild]" ?err,
        THEN conjunct2, THEN conjunct2, THEN conjunct2] w2
    by simp_all
  show ?thesis using n f w1 o1 p1 w2 w3 by blast
qed

text \<open>
  C9. The worker pool is torn down in the \<^verbatim>\<open>then\<close> behind \<^verbatim>\<open>Promise.all(promises)\<close>, which
  runs only when the metadata stage succeeds. With two workers, a throwing collision
  policy and two new files that declare the same module, the stage is rejected with the
  collision error, the farm that \<^verbatim>\<open>_getWorker\<close> created is never ended and the instance
  still holds it.
\<close>

theorem farm_not_ended_on_collision:
  "buildHasteMap ex_env crawled_ab inst_farm =
     (Inl (JsError ''Error'' (collision_message True ''X'' ''/src/b.js'' ''/src/a.js'')),
      inst_farm\<lparr>workerFarm := Some (Farm 2), workerPromise := Some Farmed,
                events := [FarmCreate 2, Submit ''/src/a.js'', Submit ''/src/b.js'']\<rparr>)"
  by (simp add: buildHasteMap_def Let_def run_farm_scan run_farm_callbacks ex_env_sel
      del: run_callbacks.simps)

lemma env_removed_sel:
  "sep env_removed = CHR ''/''"
  "isTest env_removed = False"
  "getPlatformExtension env_removed = ex_platform"
  "basename_stem env_removed = ex_stem"
  "worker env_removed = ex_worker"
  "completion_order env_removed = (\<lambda>ps. ps)"
  "canUseWatchman env_removed = False"
  "readFileSync env_removed = (\<lambda>p. Inr ''cache'')"
  "json_parse env_removed = (\<lambda>c. Inr cached_P)"
  "nodeCrawl env_removed = (\<lambda>rs exts ign h.
              CrawlResolves (h\<lparr>files := (files h)\<lparr>props :=
                AList.delete ''/src/P.android.js'' (props (files h))\<rparr>\<rparr>))"
  "json_stringify env_removed = (\<lambda>h. ''{}'')"
  "writeFileSync env_removed = (\<lambda>p c. None)"
  by (simp_all add: env_removed_def ex_env_sel)

lemma env_unreadable_sel:
  "sep env_unreadable = CHR ''/''"
  "getPlatformExtension env_unreadable = ex_platform"
  "basename_stem env_unreadable = ex_stem"
  "worker env_unreadable = (\<lambda>p. if p = ''/src/P.android.js''
                          then (Some (JsError ''Error'' ''EACCES''), None) else ex_worker p)"
  "completion_order env_unreadable = (\<lambda>ps. ps)"
  by (simp_all add: env_unreadable_def ex_env_sel)

lemma run_removed_pipeline: "fst (pipeline env_removed ex_inst) = Inr published_removed"
  by (simp add: pipeline_def buildFileMap_def load_cache_def read_hm_def parse_hm_def crawl_hm_def
      select_crawler_def run_crawler_def setPrototypeOf_null_def buildHasteMap_def scan_files_def
      visit_file_def isNodeModulesDir_def persist_def publish_def teardown_def Let_def
      env_removed_sel ex_inst_sel ex_options_sel cached_P_def published_removed_def seen_P_def)

lemma run_unreadable_build:
  "fst (buildHasteMap env_unreadable crawled_changed ex_inst) =
     Inr (crawled_changed\<lparr>files := \<lparr>proto = NullProto, props = [(''/src/P.ios.js'', seen_P)]\<rparr>\<rparr>)"
  by (simp add: buildHasteMap_def scan_files_def visit_file_def getWorker_def isNodeModulesDir_def
      worker_promise_def onRejected_def teardown_def Let_def
      env_unreadable_sel ex_inst_sel ex_options_sel crawled_changed_def seen_P_def new_file_def)

text \<open>
  C2. For a visited file with an id, the loop copies the whole item of the cached map
  under that id, the cells of all platforms, and checks none of their paths against
  \<^verbatim>\<open>files\<close>. The cache of the project with \<^verbatim>\<open>/src/P.ios.js\<close> and \<^verbatim>\<open>/src/P.android.js\<close>
  satisfies I1. After \<^verbatim>\<open>/src/P.android.js\<close> has been removed from the disk, the build
  succeeds and publishes a map whose cell \<^verbatim>\<open>P\<close>, \<^verbatim>\<open>android\<close> still holds the removed
  path, which is no key of the published \<^verbatim>\<open>files\<close>. The same happens when the file has
  changed and its worker fails: the path is deleted from \<^verbatim>\<open>files\<close> and stays in the map.
\<close>

theorem stale_module_after_copy:
  "invariant_I1 (files cached_P) (map_tbl cached_P) \<and>
   fst (pipeline env_removed ex_inst) = Inr published_removed \<and>
   cell (props (moduleMap_map published_removed)) ''P'' ''android'' = Some module_android \<and>
   mm_path module_android \<notin> fst ` set (props (hasteFS published_removed)) \<and>
   \<not> invariant_I1 (hasteFS published_removed) (moduleMap_map published_removed) \<and>
   invariant_I1 (files crawled_changed) (map_tbl crawled_changed) \<and>
   worker_promise env_unreadable ''/src/P.android.js'' = Rejected (Some (JsError ''Error'' ''EACCES'')) \<and>
   fst (buildHasteMap env_unreadable crawled_changed ex_inst) =
     Inr (crawled_changed\<lparr>files := \<lparr>proto = NullProto, props = [(''/src/P.ios.js'', seen_P)]\<rparr>\<rparr>) \<and>
   \<not> invariant_I1 \<lparr>proto = NullProto, props = [(''/src/P.ios.js'', seen_P)]\<rparr>
       (map_tbl crawled_changed)"
proof -
  have a: "invariant_I1 (files cached_P) (map_tbl cached_P)"
    "invariant_I1 (files crawled_changed) (map_tbl crawled_changed)"
    by (simp_all add: invariant_I1_def cached_P_def crawled_changed_def module_android_def
        module_ios_def item_P_def)
  have b: "cell (props (moduleMap_map published_removed)) ''P'' ''android'' = Some module_android"
    "mm_path module_android \<notin> fst ` set (props (hasteFS published_removed))"
    "\<not> invariant_I1 (hasteFS published_removed) (moduleMap_map published_removed)"
    by (simp_all add: invariant_I1_def cell_def published_removed_def module_android_def
        module_ios_def item_P_def)
  have c: "worker_promise env_unreadable ''/src/P.android.js'' =
      Rejected (Some (JsError ''Error'' ''EACCES''))"
    by (simp add: worker_promise_def env_unreadable_sel)
  have d: "\<not> invariant_I1 \<lparr>proto = NullProto, props = [(''/src/P.ios.js'', seen_P)]\<rparr>
       (map_tbl crawled_changed)"
    by (simp add: invariant_I1_def crawled_changed_def module_android_def module_ios_def
        item_P_def)
  show ?thesis
    using a b c d run_removed_pipeline run_unreadable_build by blast
qed

end
